theory Spec2Isabelle
  imports Complex_Main
begin

section \<open>Configuration\<close>

text \<open>
  The pad engine is the React hook \<open>usePadEngine\<close>. It exists twice in the repository:
  the volume variant (master gain, action ids, toggle and \<open>stop\<close>) and the simpler
  variant of \<open>App.jsx\<close> (no master gain, no action ids, no toggle). Constants of the
  volume variant keep the source's names; those of the simpler variant carry the suffix
  \<open>_simple\<close>.

  JavaScript numbers (times in seconds, delays in milliseconds, gain levels) are modelled
  as real numbers; the action id is a natural number (the counter would stop increasing
  only after \<open>2^53\<close> selections).
\<close>

type_synonym key = string

definition KEYS :: "key list" where
  "KEYS = [''C'', ''C#'', ''D'', ''D#'', ''E'', ''F'', ''F#'', ''G'', ''G#'', ''A'', ''A#'', ''B'']"

record config =
  fadeMs :: real
  basePath :: string
  ext :: string
  initialVolume :: real

definition AUDIO_BASE :: string where
  "AUDIO_BASE = ''/sounds/''"

definition AUDIO_EXT :: string where
  "AUDIO_EXT = ''.mp3''"

definition default_config :: config where
  "default_config = \<lparr>fadeMs = 2000, basePath = AUDIO_BASE, ext = AUDIO_EXT, initialVolume = 8 / 10\<rparr>"

text \<open>The simpler variant has \<open>FADE_MS = 1200\<close> and no volume; \<open>initialVolume\<close> is never read by it.\<close>

definition default_config_simple :: config where
  "default_config_simple = \<lparr>fadeMs = 1200, basePath = AUDIO_BASE, ext = AUDIO_EXT, initialVolume = 1\<rparr>"

section \<open>The audio platform\<close>

text \<open>
  The Web Audio objects the engine drives are not code of the repository. They are
  modelled as a store of nodes addressed by handles (natural numbers), so that the
  record of the current pad, the closures of the stop timers and the audio graph can
  refer to the same node. An \<open>AudioParam\<close> is its current value (what reading
  \<open>gain.value\<close> returns) and its automation timeline (what \<open>setValueAtTime\<close>,
  \<open>linearRampToValueAtTime\<close> and \<open>cancelScheduledValues\<close> edit).
\<close>

type_synonym buffer = nat

datatype automation = SetValueAtTime real real | LinearRampToValueAtTime real real

fun at_time :: "automation \<Rightarrow> real" where
  "at_time (SetValueAtTime v t) = t"
| "at_time (LinearRampToValueAtTime v t) = t"

fun target_value :: "automation \<Rightarrow> real" where
  "target_value (SetValueAtTime v t) = v"
| "target_value (LinearRampToValueAtTime v t) = v"

fun is_ramp :: "automation \<Rightarrow> bool" where
  "is_ramp (SetValueAtTime v t) = False"
| "is_ramp (LinearRampToValueAtTime v t) = True"

datatype destination = Speakers | Gain nat

record gain_node =
  gvalue :: real
  timeline :: "automation list"
  outputs :: "destination list"

record source_node =
  sbuffer :: "buffer option"
  sloop :: bool
  feeds :: "nat list"
  started :: bool
  stopped :: bool

text \<open>\<open>createGain()\<close> gives a gain of 1, \<open>createBufferSource()\<close> a source with no buffer.\<close>

definition fresh_gain :: gain_node where
  "fresh_gain = \<lparr>gvalue = 1, timeline = [], outputs = []\<rparr>"

definition fresh_source :: source_node where
  "fresh_source = \<lparr>sbuffer = None, sloop = False, feeds = [], started = False, stopped = False\<rparr>"

text \<open>The timeline is kept ordered by time; an event goes after those of the same time.\<close>

definition insert_event :: "automation \<Rightarrow> automation list \<Rightarrow> automation list" where
  "insert_event e es =
     takeWhile (\<lambda>x. at_time x \<le> at_time e) es @ e # dropWhile (\<lambda>x. at_time x \<le> at_time e) es"

definition cancelScheduledValues :: "real \<Rightarrow> gain_node \<Rightarrow> gain_node" where
  "cancelScheduledValues t g = g\<lparr>timeline := filter (\<lambda>x. at_time x < t) (timeline g)\<rparr>"

definition setValueAtTime :: "real \<Rightarrow> real \<Rightarrow> gain_node \<Rightarrow> gain_node" where
  "setValueAtTime v t g = g\<lparr>timeline := insert_event (SetValueAtTime v t) (timeline g)\<rparr>"

definition linearRampToValueAtTime :: "real \<Rightarrow> real \<Rightarrow> gain_node \<Rightarrow> gain_node" where
  "linearRampToValueAtTime v t g = g\<lparr>timeline := insert_event (LinearRampToValueAtTime v t) (timeline g)\<rparr>"

text \<open>
  The value a timeline prescribes at time \<open>t\<close>, from the value \<open>v0\<close> held since \<open>T0\<close>:
  a set-value event holds its value from its time on, a linear ramp interpolates from
  the previous event to its own.
\<close>

fun automation_value :: "real \<Rightarrow> real \<Rightarrow> automation list \<Rightarrow> real \<Rightarrow> real" where
  "automation_value v0 T0 [] t = v0"
| "automation_value v0 T0 (SetValueAtTime v T # es) t =
     (if t < T then v0 else automation_value v T es t)"
| "automation_value v0 T0 (LinearRampToValueAtTime v T # es) t =
     (if t < T then
        (if T0 \<le> t \<and> T0 < T then v0 + (v - v0) * ((t - T0) / (T - T0)) else v0)
      else automation_value v T es t)"

definition render_gain :: "real \<Rightarrow> gain_node \<Rightarrow> gain_node" where
  "render_gain t g = g\<lparr>gvalue := automation_value (gvalue g) 0 (timeline g) t\<rparr>"

datatype error =
    NoAudioContext
  | FetchRejected
  | FailedToLoad string
  | BodyFailed
  | DecodeFailed
  | ConnectNull

text \<open>What the network and the decoder answer to one \<open>fetch\<close> of \<open>loadBuffer\<close>.\<close>

datatype outcome = NetworkDown | NotOk | BodyUnreadable | Undecodable | Decoded buffer

record audio_ctx =
  suspended :: bool
  resumes :: nat

record timer =
  delay :: real
  stops :: nat

text \<open>A \<open>playKey\<close> call waiting at \<open>await loadBuffer(key)\<close>: its stamp, its key, the URL fetched.\<close>

record task =
  tid :: nat
  tkey :: key
  turl :: string

section \<open>The engine state\<close>

record pad =
  ckey :: "key option"
  csrc :: "nat option"
  cgain :: "nat option"

definition no_pad :: pad where
  "no_pad = \<lparr>ckey = None, csrc = None, cgain = None\<rparr>"

text \<open>
  The refs and React states of the hook, then the platform: whether an
  \<open>AudioContext\<close> constructor exists, the context's clock (\<open>ctx.currentTime\<close>), the
  node store, the pending timers, the URLs fetched so far, what \<open>console.error\<close>
  received, and the calls waiting for their load.
\<close>

record engine =
  ctxRef :: "audio_ctx option"
  masterGainRef :: "nat option"
  currentRef :: pad
  activeKey :: "key option"
  volume :: real
  cacheRef :: "key \<rightharpoonup> buffer"
  actionIdRef :: nat
  audio_ctor :: bool
  clock :: real
  gains :: "nat \<Rightarrow> gain_node"
  sources :: "nat \<Rightarrow> source_node"
  next_node :: nat
  timers :: "timer list"
  fetches :: "string list"
  console :: "error list"
  pending :: "task list"

definition init :: "config \<Rightarrow> engine" where
  "init cfg =
     \<lparr>ctxRef = None, masterGainRef = None, currentRef = no_pad, activeKey = None,
      volume = initialVolume cfg, cacheRef = Map.empty, actionIdRef = 0,
      audio_ctor = True, clock = 0, gains = (\<lambda>_. fresh_gain), sources = (\<lambda>_. fresh_source),
      next_node = 0, timers = [], fetches = [], console = [], pending = []\<rparr>"

definition upd_gain :: "nat \<Rightarrow> (gain_node \<Rightarrow> gain_node) \<Rightarrow> engine \<Rightarrow> engine" where
  "upd_gain g f s = s\<lparr>gains := (gains s)(g := f (gains s g))\<rparr>"

definition upd_source :: "nat \<Rightarrow> (source_node \<Rightarrow> source_node) \<Rightarrow> engine \<Rightarrow> engine" where
  "upd_source n f s = s\<lparr>sources := (sources s)(n := f (sources s n))\<rparr>"

definition createGain :: "engine \<Rightarrow> nat \<times> engine" where
  "createGain s = (next_node s, s\<lparr>gains := (gains s)(next_node s := fresh_gain), next_node := Suc (next_node s)\<rparr>)"

definition createBufferSource :: "engine \<Rightarrow> nat \<times> engine" where
  "createBufferSource s =
     (next_node s, s\<lparr>sources := (sources s)(next_node s := fresh_source), next_node := Suc (next_node s)\<rparr>)"

definition setTimeout :: "nat \<Rightarrow> real \<Rightarrow> engine \<Rightarrow> engine" where
  "setTimeout src ms s = s\<lparr>timers := timers s @ [\<lparr>delay = ms, stops = src\<rparr>]\<rparr>"

section \<open>The volume variant\<close>

text \<open>\<open>ctx.resume()\<close> is asynchronous: the call is counted, the platform resumes later.\<close>

definition resume_if_suspended :: "engine \<Rightarrow> engine" where
  "resume_if_suspended s =
     (case ctxRef s of
        None \<Rightarrow> s
      | Some c \<Rightarrow> if suspended c then s\<lparr>ctxRef := Some (c\<lparr>resumes := Suc (resumes c)\<rparr>)\<rparr> else s)"

text \<open>
  \<open>ensureCtx\<close>: \<open>new Ctor()\<close> throws where the platform has no constructor, before
  anything is assigned. A new context starts suspended. The master gain is created once,
  with \<open>initialVolume\<close>, and connected to the destination.
\<close>

definition ensureCtx :: "config \<Rightarrow> engine \<Rightarrow> error + engine" where
  "ensureCtx cfg s =
     (if ctxRef s = None then
        (if \<not> audio_ctor s then Inl NoAudioContext
         else
           let s1 = s\<lparr>ctxRef := Some \<lparr>suspended = True, resumes = 0\<rparr>\<rparr>;
               (m, s2) = createGain s1;
               s3 = s2\<lparr>masterGainRef := Some m\<rparr>;
               s4 = upd_gain m (\<lambda>g. g\<lparr>gvalue := initialVolume cfg\<rparr>) s3;
               s5 = upd_gain m (\<lambda>g. g\<lparr>outputs := outputs g @ [Speakers]\<rparr>) s4
           in Inr (resume_if_suspended s5))
      else Inr (resume_if_suspended s))"

text \<open>
  The effect on \<open>[volume]\<close>: it runs after a render in which \<open>volume\<close> changed, and does
  nothing while there is no master gain or no context.
\<close>

definition volume_effect :: "engine \<Rightarrow> engine" where
  "volume_effect s =
     (if masterGainRef s \<noteq> None \<and> ctxRef s \<noteq> None then
        let m = the (masterGainRef s);
            t0 = clock s;
            s1 = upd_gain m (cancelScheduledValues t0) s
        in upd_gain m (setValueAtTime (volume s) t0) s1
      else s)"

definition setVolume :: "real \<Rightarrow> engine \<Rightarrow> engine" where
  "setVolume level s = (if level = volume s then s else volume_effect (s\<lparr>volume := level\<rparr>))"

text \<open>\<open>key.replace("#", "sharp")\<close> replaces the first occurrence only.\<close>

fun replace_first :: "char \<Rightarrow> string \<Rightarrow> string \<Rightarrow> string" where
  "replace_first c r [] = []"
| "replace_first c r (x # xs) = (if x = c then r @ xs else x # replace_first c r xs)"

definition asset_url :: "config \<Rightarrow> key \<Rightarrow> string" where
  "asset_url cfg key = basePath cfg @ (replace_first (CHR ''#'') ''sharp'' key @ ext cfg)"

text \<open>
  \<open>loadBuffer\<close> runs up to its first \<open>await\<close> synchronously: a cached buffer is
  returned, otherwise the context is ensured and the fetch is issued. The rest runs
  when the network and the decoder have answered.
\<close>

datatype loading = Hit buffer | Fetching string | Failed error

definition loadBuffer_start :: "config \<Rightarrow> key \<Rightarrow> engine \<Rightarrow> loading \<times> engine" where
  "loadBuffer_start cfg key s =
     (case cacheRef s key of
        Some cached \<Rightarrow> (Hit cached, s)
      | None \<Rightarrow>
          let url = asset_url cfg key in
          (case ensureCtx cfg s of
             Inl err \<Rightarrow> (Failed err, s)
           | Inr s1 \<Rightarrow> (Fetching url, s1\<lparr>fetches := fetches s1 @ [url]\<rparr>)))"

definition loadBuffer_finish :: "key \<Rightarrow> string \<Rightarrow> outcome \<Rightarrow> engine \<Rightarrow> (error + buffer) \<times> engine" where
  "loadBuffer_finish key url out s =
     (case out of
        NetworkDown \<Rightarrow> (Inl FetchRejected, s)
      | NotOk \<Rightarrow> (Inl (FailedToLoad url), s)
      | BodyUnreadable \<Rightarrow> (Inl BodyFailed, s)
      | Undecodable \<Rightarrow> (Inl DecodeFailed, s)
      | Decoded buf \<Rightarrow> (Inr buf, s\<lparr>cacheRef := (cacheRef s)(key \<mapsto> buf)\<rparr>))"

definition stop :: "config \<Rightarrow> engine \<Rightarrow> engine" where
  "stop cfg s =
     (let old = currentRef s in
      if ctxRef s = None \<or> cgain old = None \<or> csrc old = None then s\<lparr>activeKey := None\<rparr>
      else
        let g = the (cgain old);
            t0 = clock s;
            fadeSec = fadeMs cfg / 1000;
            s1 = upd_gain g (cancelScheduledValues t0) s;
            s2 = upd_gain g (setValueAtTime (gvalue (gains s1 g)) t0) s1;
            s3 = upd_gain g (linearRampToValueAtTime 0 (t0 + fadeSec)) s2;
            s4 = setTimeout (the (csrc old)) (fadeMs cfg + 60) s3
        in s4\<lparr>currentRef := no_pad, activeKey := None\<rparr>)"

text \<open>The \<open>catch\<close> of \<open>playKey\<close>.\<close>

definition play_failed :: "nat \<Rightarrow> error \<Rightarrow> engine \<Rightarrow> engine" where
  "play_failed myId err s =
     (let s1 = s\<lparr>console := console s @ [err]\<rparr>
      in if myId = actionIdRef s1 then s1\<lparr>activeKey := None\<rparr> else s1)"

text \<open>
  \<open>playKey\<close> from the stale check to the end of the \<open>try\<close> block.
  \<open>gain.connect(masterGainRef.current)\<close> throws on \<open>null\<close>.
\<close>

definition start_pad :: "config \<Rightarrow> key \<Rightarrow> buffer \<Rightarrow> engine \<Rightarrow> (error \<times> engine) + engine" where
  "start_pad cfg key buffer s =
     (let (src, s1) = createBufferSource s;
          s2 = upd_source src (\<lambda>n. n\<lparr>sbuffer := Some buffer\<rparr>) s1;
          s3 = upd_source src (\<lambda>n. n\<lparr>sloop := True\<rparr>) s2;
          (gain, s4) = createGain s3;
          s5 = upd_gain gain (\<lambda>g. g\<lparr>gvalue := 0\<rparr>) s4
      in case masterGainRef s5 of
           None \<Rightarrow> Inl (ConnectNull, s5)
         | Some m \<Rightarrow>
             let s6 = upd_gain gain (\<lambda>g. g\<lparr>outputs := outputs g @ [Gain m]\<rparr>) s5;
                 s7 = upd_source src (\<lambda>n. n\<lparr>feeds := feeds n @ [gain]\<rparr>) s6;
                 s8 = upd_source src (\<lambda>n. n\<lparr>started := True\<rparr>) s7;
                 old = currentRef s8;
                 t0 = clock s8;
                 fadeSec = fadeMs cfg / 1000;
                 s9 = upd_gain gain (cancelScheduledValues t0) s8;
                 s10 = upd_gain gain (setValueAtTime 0 t0) s9;
                 s11 = upd_gain gain (linearRampToValueAtTime 1 (t0 + fadeSec)) s10;
                 s12 =
                   (if cgain old \<noteq> None \<and> csrc old \<noteq> None then
                      let og = the (cgain old);
                          startVal = gvalue (gains s11 og);
                          a1 = upd_gain og (cancelScheduledValues t0) s11;
                          a2 = upd_gain og (setValueAtTime startVal t0) a1;
                          a3 = upd_gain og (linearRampToValueAtTime 0 (t0 + fadeSec)) a2
                      in setTimeout (the (csrc old)) (fadeMs cfg + 60) a3
                    else s11)
             in Inr (s12\<lparr>currentRef := \<lparr>ckey = Some key, csrc = Some src, cgain = Some gain\<rparr>\<rparr>))"

text \<open>The stale check, the \<open>try\<close> block and its \<open>catch\<close>.\<close>

definition playKey_resume :: "config \<Rightarrow> nat \<Rightarrow> key \<Rightarrow> buffer \<Rightarrow> engine \<Rightarrow> engine" where
  "playKey_resume cfg myId key buffer s =
     (if myId \<noteq> actionIdRef s then s
      else case start_pad cfg key buffer s of
             Inl (err, s') \<Rightarrow> play_failed myId err s'
           | Inr s' \<Rightarrow> s')"

text \<open>
  \<open>playKey\<close> up to its \<open>await\<close>. With a cached buffer the continuation runs in the same
  turn of the event loop, before any other click or timer; otherwise the call waits in
  \<open>pending\<close> for \<open>resolve\<close>.
\<close>

definition playKey :: "config \<Rightarrow> key \<Rightarrow> engine \<Rightarrow> engine" where
  "playKey cfg key s =
     (if ckey (currentRef s) = Some key then stop cfg s
      else
        let myId = Suc (actionIdRef s);
            s1 = s\<lparr>actionIdRef := myId\<rparr>;
            s2 = s1\<lparr>activeKey := Some key\<rparr>
        in case ensureCtx cfg s2 of
             Inl err \<Rightarrow> play_failed myId err s2
           | Inr s3 \<Rightarrow>
               (case loadBuffer_start cfg key s3 of
                  (Hit buffer, s4) \<Rightarrow> playKey_resume cfg myId key buffer s4
                | (Failed err, s4) \<Rightarrow> play_failed myId err s4
                | (Fetching url, s4) \<Rightarrow>
                    s4\<lparr>pending := pending s4 @ [\<lparr>tid = myId, tkey = key, turl = url\<rparr>]\<rparr>))"

text \<open>The \<open>i\<close>-th waiting call gets its answer: \<open>loadBuffer\<close> finishes and \<open>playKey\<close> goes on.\<close>

definition resolve :: "config \<Rightarrow> nat \<Rightarrow> outcome \<Rightarrow> engine \<Rightarrow> engine" where
  "resolve cfg i out s =
     (if i < length (pending s) then
        let t = pending s ! i;
            s1 = s\<lparr>pending := take i (pending s) @ drop (Suc i) (pending s)\<rparr>
        in case loadBuffer_finish (tkey t) (turl t) out s1 of
             (Inl err, s2) \<Rightarrow> play_failed (tid t) err s2
           | (Inr buffer, s2) \<Rightarrow> playKey_resume cfg (tid t) (tkey t) buffer s2
      else s)"

section \<open>Events\<close>

text \<open>
  What happens to a mounted engine: the clicks and the slider of the page, and the
  platform's own moves (a load answered, the audio clock advancing and the gains
  following their timelines, a stop timer firing, the context resumed).
\<close>

datatype event =
    ClickKey nat
  | ClickStop
  | Slider nat
  | Resolve nat outcome
  | Advance real
  | Timeout nat
  | Resumed

definition advance :: "real \<Rightarrow> engine \<Rightarrow> engine" where
  "advance dt s =
     (case ctxRef s of
        None \<Rightarrow> s
      | Some c \<Rightarrow>
          if suspended c \<or> dt < 0 then s
          else s\<lparr>clock := clock s + dt, gains := (\<lambda>i. render_gain (clock s + dt) (gains s i))\<rparr>)"

definition resumed :: "engine \<Rightarrow> engine" where
  "resumed s =
     (case ctxRef s of
        None \<Rightarrow> s
      | Some c \<Rightarrow> if 0 < resumes c then s\<lparr>ctxRef := Some (c\<lparr>suspended := False\<rparr>)\<rparr> else s)"

text \<open>The timer's callback: \<open>try { old.src.stop(); } catch {}\<close>.\<close>

definition timeout :: "nat \<Rightarrow> engine \<Rightarrow> engine" where
  "timeout i s =
     (if i < length (timers s) then
        let t = timers s ! i;
            s1 = s\<lparr>timers := take i (timers s) @ drop (Suc i) (timers s)\<rparr>
        in upd_source (stops t) (\<lambda>n. n\<lparr>stopped := True\<rparr>) s1
      else s)"

text \<open>
  The page has one button per entry of \<open>KEYS\<close>, a stop button, and a slider from 0 to
  100 whose handler calls \<open>setVolume(Number(e.target.value) / 100)\<close>.
\<close>

fun step :: "config \<Rightarrow> event \<Rightarrow> engine \<Rightarrow> engine" where
  "step cfg (ClickKey i) s = (if i < length KEYS then playKey cfg (KEYS ! i) s else s)"
| "step cfg ClickStop s = stop cfg s"
| "step cfg (Slider p) s = (if p \<le> 100 then setVolume (real p / 100) s else s)"
| "step cfg (Resolve i out) s = resolve cfg i out s"
| "step cfg (Advance dt) s = advance dt s"
| "step cfg (Timeout i) s = timeout i s"
| "step cfg Resumed s = resumed s"

fun run :: "config \<Rightarrow> event list \<Rightarrow> engine \<Rightarrow> engine" where
  "run cfg [] s = s"
| "run cfg (e # es) s = run cfg es (step cfg e s)"

section \<open>The simpler variant\<close>

text \<open>
  The hook of \<open>App.jsx\<close> runs on the same state; it never touches \<open>masterGainRef\<close>,
  \<open>volume\<close> or \<open>actionIdRef\<close>, and its waiting calls carry no stamp (\<open>tid\<close> is 0 and
  never read). It declares no \<open>stop\<close>: the name it returns is not bound in the module.
  Its cleanup on unmount is outside the model, which follows a mounted engine.
\<close>

definition ensureCtx_simple :: "engine \<Rightarrow> error + engine" where
  "ensureCtx_simple s =
     (if ctxRef s = None then
        (if \<not> audio_ctor s then Inl NoAudioContext
         else Inr (resume_if_suspended (s\<lparr>ctxRef := Some \<lparr>suspended = True, resumes = 0\<rparr>\<rparr>)))
      else Inr (resume_if_suspended s))"

text \<open>
  \<open>encodeURIComponent\<close> on strings of code points below 256: the unreserved characters
  stay, every other one becomes the percent-escapes of its UTF-8 bytes.
\<close>

definition unreserved :: "char \<Rightarrow> bool" where
  "unreserved c =
     (c \<in> set ''ABCDEFGHIJKLMNOPQRSTUVWXYZabcdefghijklmnopqrstuvwxyz0123456789-_.!~*()''
      \<or> c = CHR 0x27)"

definition hex_digit :: "nat \<Rightarrow> char" where
  "hex_digit n = ''0123456789ABCDEF'' ! (n mod 16)"

definition percent :: "nat \<Rightarrow> string" where
  "percent n = [CHR ''%'', hex_digit (n div 16), hex_digit n]"

definition encode_char :: "char \<Rightarrow> string" where
  "encode_char c =
     (let n = (of_char c :: nat)
      in if unreserved c then [c]
         else if n < 128 then percent n
         else percent (192 + n div 64) @ percent (128 + n mod 64))"

definition encodeURIComponent :: "string \<Rightarrow> string" where
  "encodeURIComponent str = concat (map encode_char str)"

definition asset_url_simple :: "config \<Rightarrow> key \<Rightarrow> string" where
  "asset_url_simple cfg key = basePath cfg @ encodeURIComponent (key @ ext cfg)"

definition loadBuffer_start_simple :: "config \<Rightarrow> key \<Rightarrow> engine \<Rightarrow> loading \<times> engine" where
  "loadBuffer_start_simple cfg key s =
     (case cacheRef s key of
        Some cached \<Rightarrow> (Hit cached, s)
      | None \<Rightarrow>
          let url = asset_url_simple cfg key in
          (case ensureCtx_simple s of
             Inl err \<Rightarrow> (Failed err, s)
           | Inr s1 \<Rightarrow> (Fetching url, s1\<lparr>fetches := fetches s1 @ [url]\<rparr>)))"

text \<open>\<open>fade\<close> reads the clock itself; the context exists whenever \<open>playKey\<close> calls it.\<close>

definition fade :: "nat \<Rightarrow> real \<Rightarrow> real \<Rightarrow> real \<Rightarrow> engine \<Rightarrow> engine" where
  "fade gainNode v_from v_to ms s =
     (let t0 = clock s;
          s1 = upd_gain gainNode (cancelScheduledValues t0) s;
          s2 = upd_gain gainNode (setValueAtTime v_from t0) s1
      in upd_gain gainNode (linearRampToValueAtTime v_to (t0 + ms / 1000)) s2)"

text \<open>The \<open>catch\<close>: \<open>setActiveKey((k) => (k === key ? null : k))\<close>.\<close>

definition play_failed_simple :: "key \<Rightarrow> error \<Rightarrow> engine \<Rightarrow> engine" where
  "play_failed_simple key err s =
     (let s1 = s\<lparr>console := console s @ [err]\<rparr>
      in s1\<lparr>activeKey := (if activeKey s1 = Some key then None else activeKey s1)\<rparr>)"

definition start_pad_simple :: "config \<Rightarrow> key \<Rightarrow> buffer \<Rightarrow> engine \<Rightarrow> engine" where
  "start_pad_simple cfg key buffer s =
     (let (src, s1) = createBufferSource s;
          s2 = upd_source src (\<lambda>n. n\<lparr>sbuffer := Some buffer\<rparr>) s1;
          s3 = upd_source src (\<lambda>n. n\<lparr>sloop := True\<rparr>) s2;
          (gain, s4) = createGain s3;
          s5 = upd_gain gain (\<lambda>g. g\<lparr>gvalue := 0\<rparr>) s4;
          s6 = upd_source src (\<lambda>n. n\<lparr>feeds := feeds n @ [gain]\<rparr>) s5;
          s7 = upd_gain gain (\<lambda>g. g\<lparr>outputs := outputs g @ [Speakers]\<rparr>) s6;
          s8 = upd_source src (\<lambda>n. n\<lparr>started := True\<rparr>) s7;
          old = currentRef s8;
          s9 =
            (if csrc old \<noteq> None \<and> cgain old \<noteq> None then
               let og = the (cgain old);
                   a1 = fade og (gvalue (gains s8 og)) 0 (fadeMs cfg) s8
               in setTimeout (the (csrc old)) (fadeMs cfg + 60) a1
             else s8);
          s10 = fade gain 0 1 (fadeMs cfg) s9
      in s10\<lparr>currentRef := \<lparr>ckey = Some key, csrc = Some src, cgain = Some gain\<rparr>\<rparr>)"

definition playKey_simple :: "config \<Rightarrow> key \<Rightarrow> engine \<Rightarrow> engine" where
  "playKey_simple cfg key s =
     (let s1 = s\<lparr>activeKey := Some key\<rparr>
      in case ensureCtx_simple s1 of
           Inl err \<Rightarrow> play_failed_simple key err s1
         | Inr s2 \<Rightarrow>
             (case loadBuffer_start_simple cfg key s2 of
                (Hit buffer, s3) \<Rightarrow> start_pad_simple cfg key buffer s3
              | (Failed err, s3) \<Rightarrow> play_failed_simple key err s3
              | (Fetching url, s3) \<Rightarrow>
                  s3\<lparr>pending := pending s3 @ [\<lparr>tid = 0, tkey = key, turl = url\<rparr>]\<rparr>))"

definition resolve_simple :: "config \<Rightarrow> nat \<Rightarrow> outcome \<Rightarrow> engine \<Rightarrow> engine" where
  "resolve_simple cfg i out s =
     (if i < length (pending s) then
        let t = pending s ! i;
            s1 = s\<lparr>pending := take i (pending s) @ drop (Suc i) (pending s)\<rparr>
        in case loadBuffer_finish (tkey t) (turl t) out s1 of
             (Inl err, s2) \<Rightarrow> play_failed_simple (tkey t) err s2
           | (Inr buffer, s2) \<Rightarrow> start_pad_simple cfg (tkey t) buffer s2
      else s)"

text \<open>
  The page of \<open>App.jsx\<close> has the key buttons and no slider; its stop button calls
  nothing of the hook, so the engine's state stays as it is.
\<close>

fun step_simple :: "config \<Rightarrow> event \<Rightarrow> engine \<Rightarrow> engine" where
  "step_simple cfg (ClickKey i) s = (if i < length KEYS then playKey_simple cfg (KEYS ! i) s else s)"
| "step_simple cfg ClickStop s = s"
| "step_simple cfg (Slider p) s = s"
| "step_simple cfg (Resolve i out) s = resolve_simple cfg i out s"
| "step_simple cfg (Advance dt) s = advance dt s"
| "step_simple cfg (Timeout i) s = timeout i s"
| "step_simple cfg Resumed s = resumed s"

fun run_simple :: "config \<Rightarrow> event list \<Rightarrow> engine \<Rightarrow> engine" where
  "run_simple cfg [] s = s"
| "run_simple cfg (e # es) s = run_simple cfg es (step_simple cfg e s)"

section \<open>Well-formed states\<close>

text \<open>
  What every state reached from \<open>init\<close> satisfies: without a context there is no master
  gain, no pad and no waiting call; with a context there is a master gain; the handles
  in use have been allocated; the pad record is all set or all empty; no waiting call
  carries a stamp beyond the latest.
\<close>

definition handle_ok :: "engine \<Rightarrow> nat option \<Rightarrow> bool" where
  "handle_ok s h = (case h of None \<Rightarrow> True | Some n \<Rightarrow> n < next_node s)"

definition wf :: "engine \<Rightarrow> bool" where
  "wf s =
     ((ctxRef s = None \<longrightarrow> masterGainRef s = None \<and> currentRef s = no_pad \<and> pending s = []) \<and>
      (ctxRef s \<noteq> None \<longrightarrow> masterGainRef s \<noteq> None) \<and>
      handle_ok s (masterGainRef s) \<and> handle_ok s (csrc (currentRef s)) \<and>
      handle_ok s (cgain (currentRef s)) \<and>
      (csrc (currentRef s) = None \<longleftrightarrow> cgain (currentRef s) = None) \<and>
      (ckey (currentRef s) = None \<longleftrightarrow> csrc (currentRef s) = None) \<and>
      list_all (\<lambda>t. tid t \<le> actionIdRef s) (pending s))"

definition wf_simple :: "engine \<Rightarrow> bool" where
  "wf_simple s =
     ((ctxRef s = None \<longrightarrow> currentRef s = no_pad \<and> pending s = []) \<and>
      handle_ok s (csrc (currentRef s)) \<and> handle_ok s (cgain (currentRef s)) \<and>
      (csrc (currentRef s) = None \<longleftrightarrow> cgain (currentRef s) = None) \<and>
      (ckey (currentRef s) = None \<longleftrightarrow> csrc (currentRef s) = None))"

section \<open>Failed loads\<close>

text \<open>Every answer but a decoded buffer makes \<open>loadBuffer\<close> throw.\<close>

definition load_failed :: "outcome \<Rightarrow> bool" where
  "load_failed out = (case out of Decoded b \<Rightarrow> False | _ \<Rightarrow> True)"

section \<open>A sounding pad\<close>

text \<open>
  The pad record holds the key, with a gain and a looping source that has been started
  and not stopped.
\<close>

definition sounding :: "engine \<Rightarrow> key \<Rightarrow> bool" where
  "sounding s k =
     (ckey (currentRef s) = Some k \<and> cgain (currentRef s) \<noteq> None \<and>
      (case csrc (currentRef s) of
         None \<Rightarrow> False
       | Some n \<Rightarrow> started (sources s n) \<and> \<not> stopped (sources s n) \<and> sloop (sources s n)))"

section \<open>A scheduled fade\<close>

text \<open>Cancel what is scheduled from \<open>t0\<close> on, hold \<open>a\<close> at \<open>t0\<close>, ramp to \<open>b\<close> at \<open>t0 + d\<close>.\<close>

definition faded :: "real \<Rightarrow> real \<Rightarrow> real \<Rightarrow> real \<Rightarrow> gain_node \<Rightarrow> gain_node" where
  "faded a b t0 d g = linearRampToValueAtTime b (t0 + d) (setValueAtTime a t0 (cancelScheduledValues t0 g))"

text \<open>
  A crossfade from the pad \<open>(srcA, gainA)\<close> to the new gain \<open>gainB\<close>, scheduled in
  \<open>s\<close> and visible in \<open>s'\<close>: both timelines hold a value at the clock of \<open>s\<close> and
  ramp to the same end time, and one timer, later than the fade, will stop \<open>srcA\<close>,
  which runs on until then.
\<close>

definition crossfade_scheduled :: "config \<Rightarrow> engine \<Rightarrow> engine \<Rightarrow> nat \<Rightarrow> nat \<Rightarrow> nat \<Rightarrow> bool" where
  "crossfade_scheduled cfg s s' srcA gainA gainB =
     (timeline (gains s' gainB)
        = [SetValueAtTime 0 (clock s), LinearRampToValueAtTime 1 (clock s + fadeMs cfg / 1000)] \<and>
      timeline (gains s' gainA)
        = filter (\<lambda>x. at_time x < clock s) (timeline (gains s gainA)) @
          [SetValueAtTime (gvalue (gains s gainA)) (clock s),
           LinearRampToValueAtTime 0 (clock s + fadeMs cfg / 1000)] \<and>
      timers s' = timers s @ [\<lparr>delay = fadeMs cfg + 60, stops = srcA\<rparr>] \<and>
      sources s' srcA = sources s srcA)"

section \<open>Example runs\<close>

text \<open>The pad of C has been fading in for one second of its two.\<close>

definition half_faded :: engine where
  "half_faded = run default_config [ClickKey 0, Resolve 0 (Decoded 1), Resumed, Advance 1] (init default_config)"

text \<open>C is selected, the stop button is pressed while C loads, then the load arrives.\<close>

definition stop_while_loading :: "event list" where
  "stop_while_loading = [ClickKey 0, ClickStop, Resolve 0 (Decoded 1)]"

text \<open>C is selected twice in a row before its first load arrives; then both loads arrive.\<close>

definition double_click :: "event list" where
  "double_click = [ClickKey 0, ClickKey 0, Resolve 0 (Decoded 1), Resolve 0 (Decoded 1)]"

text \<open>
  C sounds; D is selected; while D loads, C is selected again (a toggle); then D's load
  arrives.
\<close>

definition toggle_while_loading :: "event list" where
  "toggle_while_loading = [ClickKey 0, Resolve 0 (Decoded 1), ClickKey 2, ClickKey 0, Resolve 0 (Decoded 2)]"

text \<open>C has been fading in for one second when D is selected; D's load is pending.\<close>

definition switching :: engine where
  "switching = run default_config [ClickKey 0, Resolve 0 (Decoded 1), Resumed, Advance 1, ClickKey 2] (init default_config)"

text \<open>The same in the simpler variant, whose fade lasts 1.2 seconds.\<close>

definition switching_simple :: engine where
  "switching_simple =
     run_simple default_config_simple [ClickKey 0, Resolve 0 (Decoded 1), Resumed, Advance 1, ClickKey 2]
       (init default_config_simple)"

text \<open>
  C has faded in, D has been selected and loaded, and its crossfade has run for one
  second: D is current and C's buffer is in the cache. In each variant.
\<close>

definition returning :: engine where
  "returning =
     run default_config
       [ClickKey 0, Resolve 0 (Decoded 1), Resumed, Advance 3, ClickKey 2, Resolve 0 (Decoded 2), Advance 1]
       (init default_config)"

definition returning_simple :: engine where
  "returning_simple =
     run_simple default_config_simple
       [ClickKey 0, Resolve 0 (Decoded 1), Resumed, Advance 3, ClickKey 2, Resolve 0 (Decoded 2), Advance 1]
       (init default_config_simple)"

text \<open>The slider is moved to 50 before the first key is selected.\<close>

definition volume_before_play :: "event list" where
  "volume_before_play = [Slider 50, ClickKey 0]"

text \<open>
  In the simpler variant C is selected twice; the first load fails, the second one
  arrives.
\<close>

definition reselect_simple :: "event list" where
  "reselect_simple = [ClickKey 0, ClickKey 0, Resolve 0 NotOk, Resolve 0 (Decoded 1)]"

text \<open>C has been selected and its load is pending, in each variant.\<close>

definition loading :: engine where
  "loading = run default_config [ClickKey 0] (init default_config)"

definition loading_simple :: engine where
  "loading_simple = run_simple default_config_simple [ClickKey 0] (init default_config_simple)"

section \<open>Scheduling a fade\<close>

lemmas node_defs = upd_gain_def upd_source_def createGain_def createBufferSource_def setTimeout_def

text \<open>
  What each platform operation does to each field. Proofs about the engine rewrite with
  these, so that the states stay small terms.
\<close>

lemma upd_gain_sel:
  "gains (upd_gain g f s) = (gains s)(g := f (gains s g))"
  "ctxRef (upd_gain g f s) = ctxRef s" "masterGainRef (upd_gain g f s) = masterGainRef s"
  "currentRef (upd_gain g f s) = currentRef s" "activeKey (upd_gain g f s) = activeKey s"
  "volume (upd_gain g f s) = volume s" "cacheRef (upd_gain g f s) = cacheRef s"
  "actionIdRef (upd_gain g f s) = actionIdRef s" "audio_ctor (upd_gain g f s) = audio_ctor s"
  "clock (upd_gain g f s) = clock s" "sources (upd_gain g f s) = sources s"
  "next_node (upd_gain g f s) = next_node s" "timers (upd_gain g f s) = timers s"
  "fetches (upd_gain g f s) = fetches s" "console (upd_gain g f s) = console s"
  "pending (upd_gain g f s) = pending s"
  by (simp_all add: upd_gain_def)

lemma upd_source_sel:
  "sources (upd_source n f s) = (sources s)(n := f (sources s n))"
  "ctxRef (upd_source n f s) = ctxRef s" "masterGainRef (upd_source n f s) = masterGainRef s"
  "currentRef (upd_source n f s) = currentRef s" "activeKey (upd_source n f s) = activeKey s"
  "volume (upd_source n f s) = volume s" "cacheRef (upd_source n f s) = cacheRef s"
  "actionIdRef (upd_source n f s) = actionIdRef s" "audio_ctor (upd_source n f s) = audio_ctor s"
  "clock (upd_source n f s) = clock s" "gains (upd_source n f s) = gains s"
  "next_node (upd_source n f s) = next_node s" "timers (upd_source n f s) = timers s"
  "fetches (upd_source n f s) = fetches s" "console (upd_source n f s) = console s"
  "pending (upd_source n f s) = pending s"
  by (simp_all add: upd_source_def)

lemma setTimeout_sel:
  "timers (setTimeout n ms s) = timers s @ [\<lparr>delay = ms, stops = n\<rparr>]"
  "ctxRef (setTimeout n ms s) = ctxRef s" "masterGainRef (setTimeout n ms s) = masterGainRef s"
  "currentRef (setTimeout n ms s) = currentRef s" "activeKey (setTimeout n ms s) = activeKey s"
  "volume (setTimeout n ms s) = volume s" "cacheRef (setTimeout n ms s) = cacheRef s"
  "actionIdRef (setTimeout n ms s) = actionIdRef s" "audio_ctor (setTimeout n ms s) = audio_ctor s"
  "clock (setTimeout n ms s) = clock s" "gains (setTimeout n ms s) = gains s"
  "next_node (setTimeout n ms s) = next_node s" "sources (setTimeout n ms s) = sources s"
  "fetches (setTimeout n ms s) = fetches s" "console (setTimeout n ms s) = console s"
  "pending (setTimeout n ms s) = pending s"
  by (simp_all add: setTimeout_def)

lemma createGain_sel:
  "fst (createGain s) = next_node s"
  "gains (snd (createGain s)) = (gains s)(next_node s := fresh_gain)"
  "next_node (snd (createGain s)) = Suc (next_node s)"
  "ctxRef (snd (createGain s)) = ctxRef s" "masterGainRef (snd (createGain s)) = masterGainRef s"
  "currentRef (snd (createGain s)) = currentRef s" "activeKey (snd (createGain s)) = activeKey s"
  "volume (snd (createGain s)) = volume s" "cacheRef (snd (createGain s)) = cacheRef s"
  "actionIdRef (snd (createGain s)) = actionIdRef s" "audio_ctor (snd (createGain s)) = audio_ctor s"
  "clock (snd (createGain s)) = clock s" "sources (snd (createGain s)) = sources s"
  "timers (snd (createGain s)) = timers s"
  "fetches (snd (createGain s)) = fetches s" "console (snd (createGain s)) = console s"
  "pending (snd (createGain s)) = pending s"
  by (simp_all add: createGain_def)

lemma createBufferSource_sel:
  "fst (createBufferSource s) = next_node s"
  "sources (snd (createBufferSource s)) = (sources s)(next_node s := fresh_source)"
  "next_node (snd (createBufferSource s)) = Suc (next_node s)"
  "ctxRef (snd (createBufferSource s)) = ctxRef s" "masterGainRef (snd (createBufferSource s)) = masterGainRef s"
  "currentRef (snd (createBufferSource s)) = currentRef s" "activeKey (snd (createBufferSource s)) = activeKey s"
  "volume (snd (createBufferSource s)) = volume s" "cacheRef (snd (createBufferSource s)) = cacheRef s"
  "actionIdRef (snd (createBufferSource s)) = actionIdRef s" "audio_ctor (snd (createBufferSource s)) = audio_ctor s"
  "clock (snd (createBufferSource s)) = clock s" "gains (snd (createBufferSource s)) = gains s"
  "timers (snd (createBufferSource s)) = timers s"
  "fetches (snd (createBufferSource s)) = fetches s" "console (snd (createBufferSource s)) = console s"
  "pending (snd (createBufferSource s)) = pending s"
  by (simp_all add: createBufferSource_def)

lemma fade_sel:
  "gains (fade g a b ms s) = (gains s)(g := faded a b (clock s) (ms / 1000) (gains s g))"
  "ctxRef (fade g a b ms s) = ctxRef s" "masterGainRef (fade g a b ms s) = masterGainRef s"
  "currentRef (fade g a b ms s) = currentRef s" "activeKey (fade g a b ms s) = activeKey s"
  "volume (fade g a b ms s) = volume s" "cacheRef (fade g a b ms s) = cacheRef s"
  "actionIdRef (fade g a b ms s) = actionIdRef s" "audio_ctor (fade g a b ms s) = audio_ctor s"
  "clock (fade g a b ms s) = clock s" "sources (fade g a b ms s) = sources s"
  "next_node (fade g a b ms s) = next_node s" "timers (fade g a b ms s) = timers s"
  "fetches (fade g a b ms s) = fetches s" "console (fade g a b ms s) = console s"
  "pending (fade g a b ms s) = pending s"
  by (simp_all add: fade_def faded_def Let_def upd_gain_sel)

lemmas node_sel = upd_gain_sel upd_source_sel setTimeout_sel createGain_sel createBufferSource_sel fade_sel

lemma init_sel:
  "ctxRef (init cfg) = None" "masterGainRef (init cfg) = None" "currentRef (init cfg) = no_pad"
  "activeKey (init cfg) = None" "volume (init cfg) = initialVolume cfg" "cacheRef (init cfg) = Map.empty"
  "actionIdRef (init cfg) = 0" "audio_ctor (init cfg)" "clock (init cfg) = 0" "next_node (init cfg) = 0"
  "timers (init cfg) = []" "fetches (init cfg) = []" "console (init cfg) = []" "pending (init cfg) = []"
  "gains (init cfg) = (\<lambda>_. fresh_gain)" "sources (init cfg) = (\<lambda>_. fresh_source)"
  by (simp_all add: init_def)

lemmas run_defs = init_sel node_sel case_prod_beta Let_def
  default_config_def no_pad_def fresh_gain_def fresh_source_def
  insert_event_def cancelScheduledValues_def setValueAtTime_def linearRampToValueAtTime_def faded_def
  resume_if_suspended_def ensureCtx_def volume_effect_def setVolume_def asset_url_def
  loadBuffer_start_def loadBuffer_finish_def stop_def play_failed_def start_pad_def
  playKey_resume_def playKey_def resolve_def advance_def resumed_def timeout_def KEYS_def
  AUDIO_BASE_def AUDIO_EXT_def render_gain_def
  ensureCtx_simple_def unreserved_def hex_digit_def percent_def encode_char_def
  encodeURIComponent_def asset_url_simple_def loadBuffer_start_simple_def
  play_failed_simple_def start_pad_simple_def playKey_simple_def resolve_simple_def
  default_config_simple_def

lemma insert_event_after:
  "\<forall>x\<in>set es. at_time x \<le> at_time e \<Longrightarrow> insert_event e es = es @ [e]"
  by (simp add: insert_event_def takeWhile_eq_all_conv[THEN iffD2] dropWhile_eq_Nil_conv[THEN iffD2])

text \<open>Cancel, set, ramp: what is left of the old timeline, then the two new events.\<close>

lemma schedule_fade:
  assumes "0 \<le> d"
  shows "timeline (linearRampToValueAtTime b (t0 + d) (setValueAtTime a t0 (cancelScheduledValues t0 g)))
         = filter (\<lambda>x. at_time x < t0) (timeline g) @ [SetValueAtTime a t0, LinearRampToValueAtTime b (t0 + d)]"
proof -
  let ?old = "filter (\<lambda>x. at_time x < t0) (timeline g)"
  have 1: "insert_event (SetValueAtTime a t0) ?old = ?old @ [SetValueAtTime a t0]"
    by (rule insert_event_after) auto
  have 2: "insert_event (LinearRampToValueAtTime b (t0 + d)) (?old @ [SetValueAtTime a t0])
           = (?old @ [SetValueAtTime a t0]) @ [LinearRampToValueAtTime b (t0 + d)]"
    using assms by (intro insert_event_after) auto
  show ?thesis
    by (simp add: linearRampToValueAtTime_def setValueAtTime_def cancelScheduledValues_def 1 2)
qed


lemma automation_value_past:
  "\<forall>e\<in>set xs. at_time e \<le> t \<Longrightarrow> T \<le> t \<Longrightarrow>
   automation_value v0 T0 (xs @ SetValueAtTime v T # ys) t = automation_value v T ys t"
proof (induction xs arbitrary: v0 T0)
  case Nil
  then show ?case by simp
next
  case (Cons x xs)
  then show ?case by (cases x) simp_all
qed

text \<open>From \<open>t0\<close> on such a timeline runs linearly from \<open>a\<close> to \<open>b\<close> and stays there.\<close>

lemma fade_value:
  assumes "\<forall>e\<in>set xs. at_time e < t0" and "t0 \<le> t"
  shows "automation_value v0 T0 (xs @ [SetValueAtTime a t0, LinearRampToValueAtTime b t1]) t
         = (if t < t1 then a + (b - a) * ((t - t0) / (t1 - t0)) else b)"
proof -
  have "\<forall>e\<in>set xs. at_time e \<le> t" using assms by fastforce
  then have "automation_value v0 T0 (xs @ SetValueAtTime a t0 # [LinearRampToValueAtTime b t1]) t
             = automation_value a t0 [LinearRampToValueAtTime b t1] t"
    using assms(2) by (rule automation_value_past)
  then show ?thesis using assms(2) by simp
qed

section \<open>Stopping\<close>

lemma stop_idle: "currentRef s = no_pad \<Longrightarrow> stop cfg s = s\<lparr>activeKey := None\<rparr>"
  by (simp add: stop_def no_pad_def)



lemma half_faded_fields:
  "ctxRef half_faded = Some \<lparr>suspended = False, resumes = 2\<rparr>"
  "masterGainRef half_faded = Some 0"
  "currentRef half_faded = \<lparr>ckey = Some ''C'', csrc = Some 1, cgain = Some 2\<rparr>"
  "activeKey half_faded = Some ''C''"
  "clock half_faded = 1"
  "gvalue (gains half_faded 2) = 1 / 2"
  "timeline (gains half_faded 2) = [SetValueAtTime 0 0, LinearRampToValueAtTime 1 2]"
  "timers half_faded = []"
  "pending half_faded = []"
  "actionIdRef half_faded = 1"
  "next_node half_faded = 3"
  "started (sources half_faded 1)"
  by (simp_all add: half_faded_def run_defs)



section \<open>Ensuring the context\<close>



lemma ensureCtx_fails: "ensureCtx cfg s = Inl e \<longleftrightarrow> ctxRef s = None \<and> \<not> audio_ctor s \<and> e = NoAudioContext"
  by (auto simp: ensureCtx_def Let_def node_defs split: if_splits)

lemma ensureCtx_frame:
  assumes "ensureCtx cfg s = Inr s'"
  shows "s' = s\<lparr>ctxRef := ctxRef s', masterGainRef := masterGainRef s', gains := gains s', next_node := next_node s'\<rparr>"
    and "ctxRef s' \<noteq> None"
    and "ctxRef s \<noteq> None \<Longrightarrow> masterGainRef s' = masterGainRef s \<and> gains s' = gains s \<and> next_node s' = next_node s"
    and "ctxRef s = None \<Longrightarrow> masterGainRef s' = Some (next_node s) \<and> next_node s' = Suc (next_node s)
           \<and> gains s' = (gains s)(next_node s := \<lparr>gvalue = initialVolume cfg, timeline = [], outputs = [Speakers]\<rparr>)"
  using assms
  by (auto simp: ensureCtx_def Let_def node_defs resume_if_suspended_def fresh_gain_def split: if_splits option.splits)

lemma ensureCtx_again:
  assumes "ensureCtx cfg s = Inr s'"
  shows "\<exists>s''. ensureCtx cfg s' = Inr s'' \<and> s'' = s'\<lparr>ctxRef := ctxRef s''\<rparr>"
  using assms
  by (auto simp: ensureCtx_def Let_def node_defs resume_if_suspended_def fresh_gain_def split: if_splits option.splits)

section \<open>Starting a pad\<close>


lemma start_pad_fails: "(\<exists>x. start_pad cfg k b s = Inl x) \<longleftrightarrow> masterGainRef s = None"
  by (auto simp: start_pad_def Let_def case_prod_beta node_sel split: option.splits)

lemma start_pad_keeps:
  assumes "start_pad cfg k b s = Inr s'"
  shows "ctxRef s' = ctxRef s" "masterGainRef s' = masterGainRef s" "activeKey s' = activeKey s"
    "volume s' = volume s" "cacheRef s' = cacheRef s" "actionIdRef s' = actionIdRef s"
    "audio_ctor s' = audio_ctor s" "clock s' = clock s" "fetches s' = fetches s"
    "console s' = console s" "pending s' = pending s"
proof -
  from assms start_pad_fails[of cfg k b s] obtain m where m: "masterGainRef s = Some m"
    by (cases "masterGainRef s") auto
  from assms have s': "s' = projr (start_pad cfg k b s)" by simp
  show "ctxRef s' = ctxRef s" "masterGainRef s' = masterGainRef s" "activeKey s' = activeKey s"
    "volume s' = volume s" "cacheRef s' = cacheRef s" "actionIdRef s' = actionIdRef s"
    "audio_ctor s' = audio_ctor s" "clock s' = clock s" "fetches s' = fetches s"
    "console s' = console s" "pending s' = pending s"
    unfolding s' using m by (simp_all add: start_pad_def Let_def case_prod_beta node_sel)
qed

lemma start_pad_new:
  assumes "masterGainRef s = Some m"
  shows "\<exists>s'. start_pad cfg k b s = Inr s' \<and>
           currentRef s' = \<lparr>ckey = Some k, csrc = Some (next_node s), cgain = Some (Suc (next_node s))\<rparr> \<and>
           next_node s' = Suc (Suc (next_node s)) \<and>
           sources s' = (sources s)(next_node s :=
              \<lparr>sbuffer = Some b, sloop = True, feeds = [Suc (next_node s)], started = True, stopped = False\<rparr>)"
  using assms
  by (simp add: start_pad_def Let_def case_prod_beta node_sel fresh_source_def)

lemma start_pad_gains:
  assumes "start_pad cfg k b s = Inr s'" "masterGainRef s = Some m"
  shows "cgain (currentRef s) = None \<or> csrc (currentRef s) = None \<Longrightarrow>
           gains s' = (gains s)(Suc (next_node s) := faded 0 1 (clock s) (fadeMs cfg / 1000) \<lparr>gvalue = 0, timeline = [], outputs = [Gain m]\<rparr>)
           \<and> timers s' = timers s"
    and "cgain (currentRef s) = Some og \<Longrightarrow> csrc (currentRef s) = Some os \<Longrightarrow> og \<noteq> Suc (next_node s) \<Longrightarrow>
           gains s' = (gains s)(Suc (next_node s) := faded 0 1 (clock s) (fadeMs cfg / 1000) \<lparr>gvalue = 0, timeline = [], outputs = [Gain m]\<rparr>,
                                og := faded (gvalue (gains s og)) 0 (clock s) (fadeMs cfg / 1000) (gains s og))
           \<and> timers s' = timers s @ [\<lparr>delay = fadeMs cfg + 60, stops = os\<rparr>]"
proof -
  from assms(1) have s': "s' = projr (start_pad cfg k b s)" by simp
  show "cgain (currentRef s) = None \<or> csrc (currentRef s) = None \<Longrightarrow>
           gains s' = (gains s)(Suc (next_node s) := faded 0 1 (clock s) (fadeMs cfg / 1000) \<lparr>gvalue = 0, timeline = [], outputs = [Gain m]\<rparr>)
           \<and> timers s' = timers s"
    unfolding s' using assms(2)
    by (auto simp: start_pad_def Let_def case_prod_beta node_sel fresh_gain_def faded_def)
  show "cgain (currentRef s) = Some og \<Longrightarrow> csrc (currentRef s) = Some os \<Longrightarrow> og \<noteq> Suc (next_node s) \<Longrightarrow>
           gains s' = (gains s)(Suc (next_node s) := faded 0 1 (clock s) (fadeMs cfg / 1000) \<lparr>gvalue = 0, timeline = [], outputs = [Gain m]\<rparr>,
                                og := faded (gvalue (gains s og)) 0 (clock s) (fadeMs cfg / 1000) (gains s og))
           \<and> timers s' = timers s @ [\<lparr>delay = fadeMs cfg + 60, stops = os\<rparr>]"
    unfolding s' using assms(2)
    by (auto simp: start_pad_def Let_def case_prod_beta node_sel fresh_gain_def faded_def)
qed

section \<open>Selecting a key\<close>


lemma playKey_toggle: "ckey (currentRef s) = Some k \<Longrightarrow> playKey cfg k s = stop cfg s"
  by (simp add: playKey_def)

lemma playKey_unsupported:
  assumes "ckey (currentRef s) \<noteq> Some k" "ctxRef s = None" "\<not> audio_ctor s"
  shows "playKey cfg k s = s\<lparr>actionIdRef := Suc (actionIdRef s), activeKey := None,
                              console := console s @ [NoAudioContext]\<rparr>"
  using assms by (simp add: playKey_def ensureCtx_def play_failed_def Let_def)

lemma playKey_miss:
  assumes "ckey (currentRef s) \<noteq> Some k" "cacheRef s k = None" "audio_ctor s \<or> ctxRef s \<noteq> None"
  shows "pending (playKey cfg k s) = pending s @ [\<lparr>tid = Suc (actionIdRef s), tkey = k, turl = asset_url cfg k\<rparr>]"
    and "fetches (playKey cfg k s) = fetches s @ [asset_url cfg k]"
    and "actionIdRef (playKey cfg k s) = Suc (actionIdRef s)"
    and "activeKey (playKey cfg k s) = Some k"
    and "currentRef (playKey cfg k s) = currentRef s"
    and "cacheRef (playKey cfg k s) = cacheRef s"
    and "sources (playKey cfg k s) = sources s"
    and "timers (playKey cfg k s) = timers s"
    and "console (playKey cfg k s) = console s"
    and "clock (playKey cfg k s) = clock s"
    and "volume (playKey cfg k s) = volume s"
    and "audio_ctor (playKey cfg k s) = audio_ctor s"
    and "ctxRef (playKey cfg k s) \<noteq> None"
    and "ctxRef s \<noteq> None \<Longrightarrow> masterGainRef (playKey cfg k s) = masterGainRef s \<and>
           gains (playKey cfg k s) = gains s \<and> next_node (playKey cfg k s) = next_node s"
    and "ctxRef s = None \<Longrightarrow> masterGainRef (playKey cfg k s) = Some (next_node s) \<and>
           next_node (playKey cfg k s) = Suc (next_node s) \<and>
           gains (playKey cfg k s) = (gains s)(next_node s := \<lparr>gvalue = initialVolume cfg, timeline = [], outputs = [Speakers]\<rparr>)"
proof -
  let ?s2 = "s\<lparr>actionIdRef := Suc (actionIdRef s), activeKey := Some k\<rparr>"
  from assms(3) obtain s3 where s3: "ensureCtx cfg ?s2 = Inr s3"
    by (cases "ensureCtx cfg ?s2") (auto simp: ensureCtx_fails)
  from ensureCtx_again[OF s3] obtain s4 where s4: "ensureCtx cfg s3 = Inr s4" "s4 = s3\<lparr>ctxRef := ctxRef s4\<rparr>"
    by blast
  note f3 = ensureCtx_frame[OF s3]
  have c3: "cacheRef s3 k = None" using assms(2) by (subst f3(1)) simp
  have pk: "playKey cfg k s = s4\<lparr>fetches := fetches s4 @ [asset_url cfg k],
              pending := pending s4 @ [\<lparr>tid = Suc (actionIdRef s), tkey = k, turl = asset_url cfg k\<rparr>]\<rparr>"
    using assms(1) s3 s4(1) c3 by (simp add: playKey_def loadBuffer_start_def Let_def)
  define C where "C = ctxRef s4"
  define M where "M = masterGainRef s3"
  define G where "G = gains s3"
  define N where "N = next_node s3"
  have s4': "s4 = ?s2\<lparr>ctxRef := C, masterGainRef := M, gains := G, next_node := N\<rparr>"
    unfolding C_def M_def G_def N_def by (subst s4(2), subst f3(1)) simp
  have r: "playKey cfg k s = s\<lparr>actionIdRef := Suc (actionIdRef s), activeKey := Some k,
              ctxRef := C, masterGainRef := M, gains := G, next_node := N,
              fetches := fetches s @ [asset_url cfg k],
              pending := pending s @ [\<lparr>tid = Suc (actionIdRef s), tkey = k, turl = asset_url cfg k\<rparr>]\<rparr>"
    by (simp add: pk s4')
  have c4: "C \<noteq> None" unfolding C_def using ensureCtx_frame(2)[OF s4(1)] .
  show "pending (playKey cfg k s) = pending s @ [\<lparr>tid = Suc (actionIdRef s), tkey = k, turl = asset_url cfg k\<rparr>]"
    "fetches (playKey cfg k s) = fetches s @ [asset_url cfg k]"
    "actionIdRef (playKey cfg k s) = Suc (actionIdRef s)"
    "activeKey (playKey cfg k s) = Some k"
    "currentRef (playKey cfg k s) = currentRef s"
    "cacheRef (playKey cfg k s) = cacheRef s"
    "sources (playKey cfg k s) = sources s"
    "timers (playKey cfg k s) = timers s"
    "console (playKey cfg k s) = console s"
    "clock (playKey cfg k s) = clock s"
    "volume (playKey cfg k s) = volume s"
    "audio_ctor (playKey cfg k s) = audio_ctor s"
    "ctxRef (playKey cfg k s) \<noteq> None"
    using c4 by (simp_all add: r)
  show "ctxRef s \<noteq> None \<Longrightarrow> masterGainRef (playKey cfg k s) = masterGainRef s \<and>
           gains (playKey cfg k s) = gains s \<and> next_node (playKey cfg k s) = next_node s"
    using f3(3) by (simp add: r M_def G_def N_def)
  show "ctxRef s = None \<Longrightarrow> masterGainRef (playKey cfg k s) = Some (next_node s) \<and>
           next_node (playKey cfg k s) = Suc (next_node s) \<and>
           gains (playKey cfg k s) = (gains s)(next_node s := \<lparr>gvalue = initialVolume cfg, timeline = [], outputs = [Speakers]\<rparr>)"
    using f3(4) by (simp add: r M_def G_def N_def)
qed

section \<open>Resuming after the load\<close>


lemma playKey_resume_stale: "myId \<noteq> actionIdRef s \<Longrightarrow> playKey_resume cfg myId k b s = s"
  by (simp add: playKey_resume_def)

lemma playKey_resume_starts:
  assumes "masterGainRef s = Some m"
  shows "\<exists>s'. start_pad cfg k b s = Inr s' \<and> playKey_resume cfg (actionIdRef s) k b s = s'"
proof -
  from start_pad_new[OF assms] obtain s' where "start_pad cfg k b s = Inr s'" by blast
  then show ?thesis by (simp add: playKey_resume_def)
qed

lemma playKey_hit:
  assumes "ckey (currentRef s) \<noteq> Some k" "cacheRef s k = Some b" "ctxRef s \<noteq> None"
    and "masterGainRef s = Some m"
  shows "\<exists>c s'. start_pad cfg k b (s\<lparr>actionIdRef := Suc (actionIdRef s), activeKey := Some k, ctxRef := c\<rparr>) = Inr s'
           \<and> c \<noteq> None \<and> playKey cfg k s = s'"
proof -
  let ?s2 = "s\<lparr>actionIdRef := Suc (actionIdRef s), activeKey := Some k\<rparr>"
  have e: "ensureCtx cfg ?s2 = Inr (resume_if_suspended ?s2)"
    using assms(3) by (auto simp: ensureCtx_def)
  define c where "c = ctxRef (resume_if_suspended ?s2)"
  have r: "resume_if_suspended ?s2 = ?s2\<lparr>ctxRef := c\<rparr>" and c: "c \<noteq> None"
    using assms(3) unfolding c_def by (auto simp: resume_if_suspended_def split: option.splits)
  have m: "masterGainRef (?s2\<lparr>ctxRef := c\<rparr>) = Some m" using assms(4) by simp
  from playKey_resume_starts[OF m, of cfg k b] obtain s' where
    s': "start_pad cfg k b (?s2\<lparr>ctxRef := c\<rparr>) = Inr s'"
      "playKey_resume cfg (Suc (actionIdRef s)) k b (?s2\<lparr>ctxRef := c\<rparr>) = s'"
    by auto
  have "playKey cfg k s = s'"
    using assms(1,2) e r s'(2) by (simp add: playKey_def loadBuffer_start_def Let_def)
  with s'(1) c show ?thesis by auto
qed

lemma resolve_stale:
  assumes "i < length (pending s)" "tid (pending s ! i) \<noteq> actionIdRef s"
  shows "\<exists>C L. resolve cfg i out s =
           s\<lparr>pending := take i (pending s) @ drop (Suc i) (pending s), cacheRef := C, console := L\<rparr>"
proof (cases out)
  case (Decoded b)
  then have "resolve cfg i out s = s\<lparr>pending := take i (pending s) @ drop (Suc i) (pending s),
       cacheRef := (cacheRef s)(tkey (pending s ! i) \<mapsto> b), console := console s\<rparr>"
    using assms by (simp add: resolve_def loadBuffer_finish_def playKey_resume_def Let_def)
  then show ?thesis by blast
qed (use assms in \<open>auto simp: resolve_def loadBuffer_finish_def play_failed_def Let_def
       intro!: exI[of _ "cacheRef s"]\<close>)

lemma resolve_failure:
  assumes "i < length (pending s)"
    and "fst (loadBuffer_finish (tkey (pending s ! i)) (turl (pending s ! i)) out s) = Inl err"
  shows "resolve cfg i out s =
           s\<lparr>pending := take i (pending s) @ drop (Suc i) (pending s),
             console := console s @ [err],
             activeKey := (if tid (pending s ! i) = actionIdRef s then None else activeKey s)\<rparr>"
  using assms
  by (cases out) (auto simp: resolve_def loadBuffer_finish_def play_failed_def Let_def)

lemma resolve_success:
  assumes "i < length (pending s)" "tid (pending s ! i) = actionIdRef s" "masterGainRef s = Some m"
  shows "\<exists>s'. start_pad cfg (tkey (pending s ! i)) b
                 (s\<lparr>pending := take i (pending s) @ drop (Suc i) (pending s),
                    cacheRef := (cacheRef s)(tkey (pending s ! i) \<mapsto> b)\<rparr>) = Inr s'
              \<and> resolve cfg i (Decoded b) s = s'"
proof -
  let ?s2 = "s\<lparr>pending := take i (pending s) @ drop (Suc i) (pending s),
                    cacheRef := (cacheRef s)(tkey (pending s ! i) \<mapsto> b)\<rparr>"
  have m: "masterGainRef ?s2 = Some m" using assms(3) by simp
  from playKey_resume_starts[OF m, of cfg "tkey (pending s ! i)" b] obtain s' where
    s': "start_pad cfg (tkey (pending s ! i)) b ?s2 = Inr s'"
      "playKey_resume cfg (actionIdRef s) (tkey (pending s ! i)) b ?s2 = s'"
    by auto
  have "resolve cfg i (Decoded b) s = s'"
    using assms(1,2) s'(2) by (simp add: resolve_def loadBuffer_finish_def Let_def)
  with s'(1) show ?thesis by blast
qed

section \<open>The toggle\<close>


lemma wf_stop_clears:
  assumes "wf s"
  shows "currentRef (stop cfg s) = no_pad" "activeKey (stop cfg s) = None"
proof -
  show "activeKey (stop cfg s) = None"
    by (simp add: stop_def Let_def node_defs)
  show "currentRef (stop cfg s) = no_pad"
  proof (cases "ckey (currentRef s)")
    case None
    with assms have "csrc (currentRef s) = None" "cgain (currentRef s) = None"
      by (auto simp: wf_def)
    with None have "currentRef s = no_pad" by (cases "currentRef s") (simp add: no_pad_def)
    then show ?thesis by (simp add: stop_idle)
  next
    case (Some k)
    with assms have "ctxRef s \<noteq> None" "csrc (currentRef s) \<noteq> None" "cgain (currentRef s) \<noteq> None"
      by (auto simp: wf_def no_pad_def)
    then show ?thesis by (auto simp: stop_def Let_def node_defs)
  qed
qed

lemma start_pad_sounding:
  assumes "start_pad cfg k b s = Inr s'"
  shows "sounding s' k" "activeKey s' = activeKey s" "ctxRef s' = ctxRef s"
    "csrc (currentRef s') = Some (next_node s)" "sbuffer (sources s' (next_node s)) = Some b"
proof -
  from assms have m: "masterGainRef s \<noteq> None"
    using start_pad_fails[of cfg k b s] by (cases "masterGainRef s") auto
  then obtain m where "masterGainRef s = Some m" by auto
  from start_pad_new[OF this, of cfg k b] assms
  show "sounding s' k" "csrc (currentRef s') = Some (next_node s)" "sbuffer (sources s' (next_node s)) = Some b"
    by (auto simp: sounding_def)
  show "activeKey s' = activeKey s" "ctxRef s' = ctxRef s"
    by (simp_all add: start_pad_keeps[OF assms])
qed

text \<open>A selection whose load is applied while it is still the latest makes its key sound.\<close>

lemma play_then_load:
  assumes "wf s" "audio_ctor s \<or> ctxRef s \<noteq> None" "ckey (currentRef s) \<noteq> Some k" "cacheRef s k = None"
  shows "sounding (resolve cfg (length (pending s)) (Decoded b) (playKey cfg k s)) k"
    and "activeKey (resolve cfg (length (pending s)) (Decoded b) (playKey cfg k s)) = Some k"
    and "ctxRef (resolve cfg (length (pending s)) (Decoded b) (playKey cfg k s)) \<noteq> None"
proof -
  let ?s1 = "playKey cfg k s"
  note f = playKey_miss[OF assms(3,4,2), of cfg]
  have m: "masterGainRef ?s1 \<noteq> None"
  proof (cases "ctxRef s")
    case None
    then show ?thesis using f(15) by simp
  next
    case (Some c)
    then show ?thesis using f(14) assms(1) by (simp add: wf_def)
  qed
  then obtain m where m: "masterGainRef ?s1 = Some m" by auto
  have i: "length (pending s) < length (pending ?s1)" by (simp add: f(1))
  have t: "pending ?s1 ! length (pending s) = \<lparr>tid = Suc (actionIdRef s), tkey = k, turl = asset_url cfg k\<rparr>"
    by (simp add: f(1))
  have fresh: "tid (pending ?s1 ! length (pending s)) = actionIdRef ?s1" by (simp add: t f(3))
  from resolve_success[OF i fresh m, of cfg b] obtain s' where
    s': "start_pad cfg k b (?s1\<lparr>pending := take (length (pending s)) (pending ?s1) @ drop (Suc (length (pending s))) (pending ?s1),
                    cacheRef := (cacheRef ?s1)(k \<mapsto> b)\<rparr>) = Inr s'"
      "resolve cfg (length (pending s)) (Decoded b) ?s1 = s'"
    by (auto simp: t)
  note g = start_pad_sounding[OF s'(1)]
  show "sounding (resolve cfg (length (pending s)) (Decoded b) ?s1) k" using g(1) s'(2) by simp
  show "activeKey (resolve cfg (length (pending s)) (Decoded b) ?s1) = Some k"
    using g(2) s'(2) f(4) by simp
  show "ctxRef (resolve cfg (length (pending s)) (Decoded b) ?s1) \<noteq> None"
    using g(3) s'(2) f(13) by simp
qed

lemma stop_sounding:
  assumes "sounding s k" "ctxRef s \<noteq> None"
  shows "currentRef (stop cfg s) = no_pad \<and> activeKey (stop cfg s) = None"
  using assms by (auto simp: sounding_def stop_def Let_def node_defs split: option.splits)

text \<open>
  C2 (as amended). In the volume variant, \<open>play(k)\<close> while \<open>k\<close> is the key of the
  current pad is \<open>stop()\<close>: the two calls give the same state, with no pad and no
  active key. So \<open>play(k)\<close>, its load applied, then \<open>play(k)\<close> ends where \<open>stop()\<close>
  ends. (A second \<open>play(k)\<close> before the load has been applied is a new selection, see
  \<open>double_click_keeps_playing\<close>.)
\<close>

theorem toggle_law:
  "(ckey (currentRef s) = Some k \<longrightarrow> playKey cfg k s = stop cfg s) \<and>
   (wf s \<and> ckey (currentRef s) = Some k \<longrightarrow>
      currentRef (playKey cfg k s) = no_pad \<and> activeKey (playKey cfg k s) = None) \<and>
   (wf s \<and> (audio_ctor s \<or> ctxRef s \<noteq> None) \<and> ckey (currentRef s) \<noteq> Some k \<and> cacheRef s k = None \<longrightarrow>
      (let s1 = resolve cfg (length (pending s)) (Decoded b) (playKey cfg k s)
       in sounding s1 k \<and> activeKey s1 = Some k \<and>
          playKey cfg k s1 = stop cfg s1 \<and>
          currentRef (playKey cfg k s1) = no_pad \<and> activeKey (playKey cfg k s1) = None))"
proof (intro conjI impI)
  assume "ckey (currentRef s) = Some k"
  then show "playKey cfg k s = stop cfg s" by (rule playKey_toggle)
next
  assume h: "wf s \<and> ckey (currentRef s) = Some k"
  then have p: "playKey cfg k s = stop cfg s" by (simp add: playKey_toggle)
  from h show "currentRef (playKey cfg k s) = no_pad" unfolding p by (simp add: wf_stop_clears)
  from h show "activeKey (playKey cfg k s) = None" unfolding p by (simp add: wf_stop_clears)
next
  assume h: "wf s \<and> (audio_ctor s \<or> ctxRef s \<noteq> None) \<and> ckey (currentRef s) \<noteq> Some k \<and> cacheRef s k = None"
  define s1 where "s1 = resolve cfg (length (pending s)) (Decoded b) (playKey cfg k s)"
  from h have a: "wf s" "audio_ctor s \<or> ctxRef s \<noteq> None" "ckey (currentRef s) \<noteq> Some k" "cacheRef s k = None"
    by simp_all
  note f = play_then_load[OF a, of cfg b, folded s1_def]
  from f(1) have k: "ckey (currentRef s1) = Some k" by (simp add: sounding_def)
  then have p: "playKey cfg k s1 = stop cfg s1" by (rule playKey_toggle)
  have q: "currentRef (stop cfg s1) = no_pad \<and> activeKey (stop cfg s1) = None"
    using f(1,3) by (rule stop_sounding)
  show "let s1 = resolve cfg (length (pending s)) (Decoded b) (playKey cfg k s)
       in sounding s1 k \<and> activeKey s1 = Some k \<and>
          playKey cfg k s1 = stop cfg s1 \<and>
          currentRef (playKey cfg k s1) = no_pad \<and> activeKey (playKey cfg k s1) = None"
    unfolding Let_def s1_def[symmetric] using f(1,2) p q by simp
qed

section \<open>Stale loads\<close>


lemma playKey_miss_master:
  assumes "wf s" "audio_ctor s \<or> ctxRef s \<noteq> None" "ckey (currentRef s) \<noteq> Some k" "cacheRef s k = None"
  shows "masterGainRef (playKey cfg k s) \<noteq> None"
proof (cases "ctxRef s")
  case None
  then show ?thesis using playKey_miss(15)[OF assms(3,4,2), of cfg] by simp
next
  case (Some c)
  then show ?thesis using playKey_miss(14)[OF assms(3,4,2), of cfg] assms(1) by (simp add: wf_def)
qed

lemma sounding_cong:
  "currentRef s' = currentRef s \<Longrightarrow> sources s' = sources s \<Longrightarrow> sounding s' k = sounding s k"
  by (auto simp: sounding_def split: option.splits)

text \<open>
  What the action ids of the volume variant do guarantee. Let \<open>play(A)\<close> wait for its
  load and let \<open>play(B)\<close> follow while \<open>B\<close> is not the key of the current pad, so
  that it takes a new action id. Then the answer to \<open>A\<close>'s load, whatever it is, finds
  an older stamp: it starts no source, schedules nothing, sets no timer, and leaves the
  current-pad record and the active key (which is \<open>B\<close>) as they are. \<open>B\<close> sounds:
  at once if its buffer was cached, otherwise when its own load is applied.
\<close>

theorem stale_suppression:
  assumes wf: "wf s" and ctor: "audio_ctor s \<or> ctxRef s \<noteq> None"
    and A: "ckey (currentRef s) \<noteq> Some A" "cacheRef s A = None"
    and B: "ckey (currentRef s) \<noteq> Some B"
  shows "let iA = length (pending s);
             s2 = playKey cfg B (playKey cfg A s);
             s3 = resolve cfg iA out s2
         in iA < length (pending s2) \<and> tkey (pending s2 ! iA) = A \<and>
            tid (pending s2 ! iA) < actionIdRef s2 \<and>
            sources s3 = sources s2 \<and> gains s3 = gains s2 \<and> timers s3 = timers s2 \<and>
            currentRef s3 = currentRef s2 \<and> activeKey s3 = activeKey s2 \<and> activeKey s2 = Some B \<and>
            (case cacheRef s B of
               Some b \<Rightarrow> sounding s3 B
             | None \<Rightarrow> sounding (resolve cfg iA (Decoded bB) s3) B \<and>
                        activeKey (resolve cfg iA (Decoded bB) s3) = Some B)"
proof -
  define s1 where "s1 = playKey cfg A s"
  define s2 where "s2 = playKey cfg B s1"
  define iA where "iA = length (pending s)"
  define s3 where "s3 = resolve cfg iA out s2"
  define tA where "tA = \<lparr>tid = Suc (actionIdRef s), tkey = A, turl = asset_url cfg A\<rparr>"
  note f1 = playKey_miss[OF A ctor, of cfg, folded s1_def tA_def]
  have m1: "masterGainRef s1 \<noteq> None"
    unfolding s1_def using wf ctor A by (rule playKey_miss_master)
  have B1: "ckey (currentRef s1) \<noteq> Some B" using B f1(5) by simp
  have ctx1: "ctxRef s1 \<noteq> None" by (rule f1(13))
  have main: "\<exists>rest. pending s2 = pending s @ tA # rest \<and>
      actionIdRef s2 = Suc (Suc (actionIdRef s)) \<and> activeKey s2 = Some B \<and>
      masterGainRef s2 \<noteq> None \<and>
      (case cacheRef s B of
         Some b \<Rightarrow> sounding s2 B
       | None \<Rightarrow> rest = [\<lparr>tid = Suc (Suc (actionIdRef s)), tkey = B, turl = asset_url cfg B\<rparr>])"
  proof (cases "cacheRef s B")
    case None
    then have c1: "cacheRef s1 B = None" using f1(6) by simp
    note f2 = playKey_miss[OF B1 c1 disjI2[OF ctx1], of cfg, folded s2_def]
    have "masterGainRef s2 \<noteq> None" using f2(14)[OF ctx1] m1 by simp
    then show ?thesis using None f2(1,3,4) f1(1,3) by simp
  next
    case (Some b)
    then have c1: "cacheRef s1 B = Some b" using f1(6) by simp
    from m1 obtain m where m: "masterGainRef s1 = Some m" by auto
    from playKey_hit[OF B1 c1 ctx1 m, of cfg] obtain c s' where
      s': "start_pad cfg B b (s1\<lparr>actionIdRef := Suc (actionIdRef s1), activeKey := Some B, ctxRef := c\<rparr>) = Inr s'"
        "s2 = s'"
      unfolding s2_def by blast
    note fr = start_pad_keeps[OF s'(1)]
    have p: "pending s2 = pending s1" "actionIdRef s2 = Suc (actionIdRef s1)" "activeKey s2 = Some B"
      "masterGainRef s2 = masterGainRef s1"
      unfolding s'(2) by (simp_all add: fr)
    have "sounding s2 B" unfolding s'(2) using s'(1) by (rule start_pad_sounding)
    then show ?thesis using Some p f1(1,3) m1 by simp
  qed
  then obtain rest where pend: "pending s2 = pending s @ tA # rest"
    and id2: "actionIdRef s2 = Suc (Suc (actionIdRef s))"
    and act2: "activeKey s2 = Some B" and m2: "masterGainRef s2 \<noteq> None"
    and rest: "case cacheRef s B of
         Some b \<Rightarrow> sounding s2 B
       | None \<Rightarrow> rest = [\<lparr>tid = Suc (Suc (actionIdRef s)), tkey = B, turl = asset_url cfg B\<rparr>]"
    by blast
  have i: "iA < length (pending s2)" by (simp add: pend iA_def)
  have t: "pending s2 ! iA = tA" by (simp add: pend iA_def)
  have stale: "tid (pending s2 ! iA) \<noteq> actionIdRef s2" by (simp add: t id2 tA_def)
  from resolve_stale[OF i stale, of cfg out] obtain C L where
    s3: "s3 = s2\<lparr>pending := take iA (pending s2) @ drop (Suc iA) (pending s2), cacheRef := C, console := L\<rparr>"
    unfolding s3_def by blast
  have tk: "take iA (pending s2) = pending s" "drop (Suc iA) (pending s2) = rest"
    by (simp_all add: pend iA_def)
  have fr3: "sources s3 = sources s2" "gains s3 = gains s2" "timers s3 = timers s2"
    "currentRef s3 = currentRef s2" "activeKey s3 = activeKey s2" "actionIdRef s3 = actionIdRef s2"
    "masterGainRef s3 = masterGainRef s2" "pending s3 = pending s @ rest"
    by (simp_all add: s3 tk)
  have last: "case cacheRef s B of
               Some b \<Rightarrow> sounding s3 B
             | None \<Rightarrow> sounding (resolve cfg iA (Decoded bB) s3) B \<and>
                        activeKey (resolve cfg iA (Decoded bB) s3) = Some B"
  proof (cases "cacheRef s B")
    case (Some b)
    with rest have "sounding s2 B" by simp
    then show ?thesis using Some sounding_cong[OF fr3(4) fr3(1), of B] by simp
  next
    case None
    with rest have d: "rest = [\<lparr>tid = Suc (Suc (actionIdRef s)), tkey = B, turl = asset_url cfg B\<rparr>]"
      by simp
    have p3: "pending s3 = pending s @ [\<lparr>tid = Suc (Suc (actionIdRef s)), tkey = B, turl = asset_url cfg B\<rparr>]"
      by (simp add: fr3(8) d)
    have i3: "iA < length (pending s3)" by (simp add: p3 iA_def)
    have t3: "pending s3 ! iA = \<lparr>tid = Suc (Suc (actionIdRef s)), tkey = B, turl = asset_url cfg B\<rparr>"
      by (simp add: p3 iA_def)
    have fresh: "tid (pending s3 ! iA) = actionIdRef s3" by (simp add: t3 fr3(6) id2)
    from m2 fr3(7) obtain m where m3: "masterGainRef s3 = Some m" by auto
    from resolve_success[OF i3 fresh m3, of cfg bB] obtain s' where
      s': "start_pad cfg B bB (s3\<lparr>pending := take iA (pending s3) @ drop (Suc iA) (pending s3),
                    cacheRef := (cacheRef s3)(B \<mapsto> bB)\<rparr>) = Inr s'"
        "resolve cfg iA (Decoded bB) s3 = s'"
      by (auto simp: t3)
    note g = start_pad_sounding[OF s'(1)]
    show ?thesis using None g(1,2) s'(2) fr3(5) act2 by simp
  qed
  have "iA < length (pending s2) \<and> tkey (pending s2 ! iA) = A \<and>
            tid (pending s2 ! iA) < actionIdRef s2 \<and>
            sources s3 = sources s2 \<and> gains s3 = gains s2 \<and> timers s3 = timers s2 \<and>
            currentRef s3 = currentRef s2 \<and> activeKey s3 = activeKey s2 \<and> activeKey s2 = Some B \<and>
            (case cacheRef s B of
               Some b \<Rightarrow> sounding s3 B
             | None \<Rightarrow> sounding (resolve cfg iA (Decoded bB) s3) B \<and>
                        activeKey (resolve cfg iA (Decoded bB) s3) = Some B)"
    using i t id2 fr3(1-5) act2 last by (simp add: tA_def)
  then show ?thesis
    unfolding Let_def s3_def s2_def s1_def iA_def .
qed


lemma init_fields:
  "ctxRef (init cfg) = None" "masterGainRef (init cfg) = None" "currentRef (init cfg) = no_pad"
  "activeKey (init cfg) = None" "volume (init cfg) = initialVolume cfg" "cacheRef (init cfg) k = None"
  "actionIdRef (init cfg) = 0" "audio_ctor (init cfg)" "clock (init cfg) = 0" "next_node (init cfg) = 0"
  "timers (init cfg) = []" "fetches (init cfg) = []" "console (init cfg) = []" "pending (init cfg) = []"
  by (simp_all add: init_def)

lemma wf_init: "wf (init cfg)"
  by (simp add: wf_def init_fields handle_ok_def no_pad_def)

theorem stale_suppression_witness:
  "wf (init default_config) \<and> audio_ctor (init default_config) \<and>
   ckey (currentRef (init default_config)) \<noteq> Some ''C'' \<and>
   cacheRef (init default_config) ''C'' = None \<and>
   ckey (currentRef (init default_config)) \<noteq> Some ''D'' \<and>
   tkey (pending (playKey default_config ''D'' (playKey default_config ''C'' (init default_config))) ! 0) = ''C'' \<and>
   currentRef (resolve default_config 0 (Decoded 1)
      (playKey default_config ''D'' (playKey default_config ''C'' (init default_config))))
     = currentRef (playKey default_config ''D'' (playKey default_config ''C'' (init default_config))) \<and>
   sources (resolve default_config 0 (Decoded 1)
      (playKey default_config ''D'' (playKey default_config ''C'' (init default_config))))
     = sources (playKey default_config ''D'' (playKey default_config ''C'' (init default_config))) \<and>
   activeKey (resolve default_config 0 (Decoded 1)
      (playKey default_config ''D'' (playKey default_config ''C'' (init default_config)))) = Some ''D'' \<and>
   sounding (resolve default_config 0 (Decoded 2) (resolve default_config 0 (Decoded 1)
      (playKey default_config ''D'' (playKey default_config ''C'' (init default_config))))) ''D''"
proof -
  have h: "wf (init default_config)" "audio_ctor (init default_config) \<or> ctxRef (init default_config) \<noteq> None"
    "ckey (currentRef (init default_config)) \<noteq> Some ''C''" "cacheRef (init default_config) ''C'' = None"
    "ckey (currentRef (init default_config)) \<noteq> Some ''D''"
    by (simp_all add: wf_init init_fields no_pad_def)
  from stale_suppression[OF h, of default_config "Decoded 1" 2]
  show ?thesis using h by (simp add: Let_def init_fields)
qed

text \<open>
  C1 at the failing input. C sounds; \<open>play(D)\<close> is called and waits for its load with
  stamp 2; \<open>play(C)\<close> is called before that load resolves. As C is the key of the
  current pad, \<open>play(C)\<close> is a \<open>stop()\<close>, and \<open>stop()\<close> takes no action id: the
  latest id is still 2, no pad is current and no key is displayed. So when D's load
  resolves its stamp is still the latest and it is not abandoned: D's source is started,
  the pad record is replaced by D's, and the display keeps showing no active key. The
  stale call ends up sounding, not the later one.
\<close>

theorem toggle_while_loading_plays_stale_key:
  "pending (run default_config (butlast toggle_while_loading) (init default_config))
     = [\<lparr>tid = 2, tkey = ''D'', turl = ''/sounds/D.mp3''\<rparr>] \<and>
   actionIdRef (run default_config (butlast toggle_while_loading) (init default_config)) = 2 \<and>
   activeKey (run default_config (butlast toggle_while_loading) (init default_config)) = None \<and>
   currentRef (run default_config (butlast toggle_while_loading) (init default_config)) = no_pad \<and>
   ckey (currentRef (run default_config toggle_while_loading (init default_config))) = Some ''D'' \<and>
   sounding (run default_config toggle_while_loading (init default_config)) ''D'' \<and>
   \<not> sounding (run default_config toggle_while_loading (init default_config)) ''C'' \<and>
   activeKey (run default_config toggle_while_loading (init default_config)) = None"
  by (simp add: toggle_while_loading_def sounding_def run_defs)

text \<open>
  C2 as stated fails when the second \<open>play(k)\<close> comes before the first one's load has
  been applied: \<open>k\<close> is not yet the current key, the second call is a new selection,
  and \<open>k\<close> ends up sounding and displayed, where \<open>stop()\<close> would leave no active key.
\<close>

theorem double_click_keeps_playing:
  "currentRef (run default_config (take 2 double_click) (init default_config)) = no_pad \<and>
   activeKey (run default_config (take 2 double_click) (init default_config)) = Some ''C'' \<and>
   stop default_config (init default_config) = (init default_config)\<lparr>activeKey := None\<rparr> \<and>
   sounding (run default_config double_click (init default_config)) ''C'' \<and>
   activeKey (run default_config double_click (init default_config)) = Some ''C'' \<and>
   timers (run default_config double_click (init default_config)) = []"
  by (simp add: double_click_def sounding_def run_defs)

text \<open>
  C3 at the failing input. \<open>stop()\<close> takes no action id, so the call that was waiting
  still carries the latest stamp when its load arrives: the source is started, the
  pad record is replaced, and the display keeps showing no active key.
\<close>

theorem stop_while_loading_still_plays:
  "pending (run default_config (take 2 stop_while_loading) (init default_config))
     = [\<lparr>tid = 1, tkey = ''C'', turl = ''/sounds/C.mp3''\<rparr>] \<and>
   actionIdRef (run default_config (take 2 stop_while_loading) (init default_config)) = 1 \<and>
   activeKey (run default_config (take 2 stop_while_loading) (init default_config)) = None \<and>
   sounding (run default_config stop_while_loading (init default_config)) ''C'' \<and>
   currentRef (run default_config stop_while_loading (init default_config))
     = \<lparr>ckey = Some ''C'', csrc = Some 1, cgain = Some 2\<rparr> \<and>
   timeline (gains (run default_config stop_while_loading (init default_config)) 2)
     = [SetValueAtTime 0 0, LinearRampToValueAtTime 1 2] \<and>
   activeKey (run default_config stop_while_loading (init default_config)) = None"
  by (simp add: stop_while_loading_def sounding_def run_defs)

theorem toggle_law_witness:
  "ckey (currentRef half_faded) = Some ''C'' \<and> wf half_faded \<and>
   playKey default_config ''C'' half_faded = stop default_config half_faded \<and>
   currentRef (playKey default_config ''C'' half_faded) = no_pad \<and>
   activeKey (playKey default_config ''C'' half_faded) = None \<and>
   wf (init default_config) \<and> audio_ctor (init default_config) \<and>
   ckey (currentRef (init default_config)) \<noteq> Some ''C'' \<and>
   cacheRef (init default_config) ''C'' = None \<and>
   sounding (resolve default_config 0 (Decoded 1) (playKey default_config ''C'' (init default_config))) ''C'' \<and>
   currentRef (playKey default_config ''C''
      (resolve default_config 0 (Decoded 1) (playKey default_config ''C'' (init default_config)))) = no_pad \<and>
   activeKey (playKey default_config ''C''
      (resolve default_config 0 (Decoded 1) (playKey default_config ''C'' (init default_config)))) = None"
proof -
  have a: "ckey (currentRef half_faded) = Some ''C''" "wf half_faded"
    by (simp_all add: wf_def handle_ok_def no_pad_def half_faded_fields)
  have b: "wf (init default_config)" "audio_ctor (init default_config)"
    "ckey (currentRef (init default_config)) \<noteq> Some ''C''" "cacheRef (init default_config) ''C'' = None"
    by (simp_all add: wf_init init_fields no_pad_def)
  from toggle_law[of half_faded "''C''" default_config] a
  have 1: "playKey default_config ''C'' half_faded = stop default_config half_faded"
    "currentRef (playKey default_config ''C'' half_faded) = no_pad"
    "activeKey (playKey default_config ''C'' half_faded) = None"
    by blast+
  have 2: "sounding (resolve default_config 0 (Decoded 1) (playKey default_config ''C'' (init default_config))) ''C'' \<and>
    currentRef (playKey default_config ''C''
      (resolve default_config 0 (Decoded 1) (playKey default_config ''C'' (init default_config)))) = no_pad \<and>
    activeKey (playKey default_config ''C''
      (resolve default_config 0 (Decoded 1) (playKey default_config ''C'' (init default_config)))) = None"
    using toggle_law[of "init default_config" "''C''" default_config 1] b
    unfolding Let_def init_fields list.size by blast
  show ?thesis using a b 1 2 by simp
qed

section \<open>The crossfade\<close>

lemma faded_timeline:
  "0 \<le> d \<Longrightarrow> timeline (faded a b t0 d g)
     = filter (\<lambda>x. at_time x < t0) (timeline g) @ [SetValueAtTime a t0, LinearRampToValueAtTime b (t0 + d)]"
  unfolding faded_def by (rule schedule_fade)

lemma start_pad_simple_fields:
  "currentRef (start_pad_simple cfg k b s) = \<lparr>ckey = Some k, csrc = Some (next_node s), cgain = Some (Suc (next_node s))\<rparr>"
  "next_node (start_pad_simple cfg k b s) = Suc (Suc (next_node s))"
  "activeKey (start_pad_simple cfg k b s) = activeKey s"
  "cacheRef (start_pad_simple cfg k b s) = cacheRef s"
  "fetches (start_pad_simple cfg k b s) = fetches s"
  "pending (start_pad_simple cfg k b s) = pending s"
  "console (start_pad_simple cfg k b s) = console s"
  "ctxRef (start_pad_simple cfg k b s) = ctxRef s"
  "clock (start_pad_simple cfg k b s) = clock s"
  "actionIdRef (start_pad_simple cfg k b s) = actionIdRef s"
  "masterGainRef (start_pad_simple cfg k b s) = masterGainRef s"
  "volume (start_pad_simple cfg k b s) = volume s"
  "audio_ctor (start_pad_simple cfg k b s) = audio_ctor s"
  "sources (start_pad_simple cfg k b s) = (sources s)(next_node s :=
      \<lparr>sbuffer = Some b, sloop = True, feeds = [Suc (next_node s)], started = True, stopped = False\<rparr>)"
  by (simp_all add: start_pad_simple_def Let_def case_prod_beta node_sel fresh_source_def)


lemma start_pad_simple_gains:
  "cgain (currentRef s) = None \<or> csrc (currentRef s) = None \<Longrightarrow>
     gains (start_pad_simple cfg k b s) = (gains s)(Suc (next_node s) :=
        faded 0 1 (clock s) (fadeMs cfg / 1000) \<lparr>gvalue = 0, timeline = [], outputs = [Speakers]\<rparr>)
     \<and> timers (start_pad_simple cfg k b s) = timers s"
  "cgain (currentRef s) = Some og \<Longrightarrow> csrc (currentRef s) = Some os \<Longrightarrow> og \<noteq> Suc (next_node s) \<Longrightarrow>
     gains (start_pad_simple cfg k b s) = (gains s)(Suc (next_node s) :=
        faded 0 1 (clock s) (fadeMs cfg / 1000) \<lparr>gvalue = 0, timeline = [], outputs = [Speakers]\<rparr>,
        og := faded (gvalue (gains s og)) 0 (clock s) (fadeMs cfg / 1000) (gains s og))
     \<and> timers (start_pad_simple cfg k b s) = timers s @ [\<lparr>delay = fadeMs cfg + 60, stops = os\<rparr>]"
proof -
  assume "cgain (currentRef s) = None \<or> csrc (currentRef s) = None"
  then show "gains (start_pad_simple cfg k b s) = (gains s)(Suc (next_node s) :=
        faded 0 1 (clock s) (fadeMs cfg / 1000) \<lparr>gvalue = 0, timeline = [], outputs = [Speakers]\<rparr>)
     \<and> timers (start_pad_simple cfg k b s) = timers s"
    by (elim disjE)
      (simp_all add: start_pad_simple_def Let_def case_prod_beta node_sel fresh_gain_def)
next
  assume "cgain (currentRef s) = Some og" "csrc (currentRef s) = Some os" "og \<noteq> Suc (next_node s)"
  then show "gains (start_pad_simple cfg k b s) = (gains s)(Suc (next_node s) :=
        faded 0 1 (clock s) (fadeMs cfg / 1000) \<lparr>gvalue = 0, timeline = [], outputs = [Speakers]\<rparr>,
        og := faded (gvalue (gains s og)) 0 (clock s) (fadeMs cfg / 1000) (gains s og))
     \<and> timers (start_pad_simple cfg k b s) = timers s @ [\<lparr>delay = fadeMs cfg + 60, stops = os\<rparr>]"
    by (auto simp: start_pad_simple_def Let_def case_prod_beta node_sel fresh_gain_def)
qed

lemma fade_out_value: "(a::real) + (0 - a) * x = a * (1 - x)"
  by (simp add: algebra_simps)

lemma crossfade_values:
  assumes "crossfade_scheduled cfg s s' srcA gainA gainB" "clock s \<le> t"
  shows "automation_value v T (timeline (gains s' gainB)) t
           = (if t < clock s + fadeMs cfg / 1000 then (t - clock s) / (fadeMs cfg / 1000) else 1)"
    and "automation_value v T (timeline (gains s' gainA)) t
           = (if t < clock s + fadeMs cfg / 1000
              then gvalue (gains s gainA) * (1 - (t - clock s) / (fadeMs cfg / 1000)) else 0)"
proof -
  have d: "clock s + fadeMs cfg / 1000 - clock s = fadeMs cfg / 1000" by simp
  have a: "timeline (gains s' gainB)
        = [] @ [SetValueAtTime 0 (clock s), LinearRampToValueAtTime 1 (clock s + fadeMs cfg / 1000)]"
    using assms(1) by (simp add: crossfade_scheduled_def)
  have "automation_value v T (timeline (gains s' gainB)) t
      = (if t < clock s + fadeMs cfg / 1000
         then 0 + (1 - 0) * ((t - clock s) / (clock s + fadeMs cfg / 1000 - clock s)) else 1)"
    unfolding a by (rule fade_value) (use assms(2) in simp_all)
  then show "automation_value v T (timeline (gains s' gainB)) t
           = (if t < clock s + fadeMs cfg / 1000 then (t - clock s) / (fadeMs cfg / 1000) else 1)"
    unfolding d by simp
  have b: "timeline (gains s' gainA)
        = filter (\<lambda>x. at_time x < clock s) (timeline (gains s gainA)) @
          [SetValueAtTime (gvalue (gains s gainA)) (clock s),
           LinearRampToValueAtTime 0 (clock s + fadeMs cfg / 1000)]"
    using assms(1) by (simp add: crossfade_scheduled_def)
  have "automation_value v T (timeline (gains s' gainA)) t
      = (if t < clock s + fadeMs cfg / 1000
         then gvalue (gains s gainA) + (0 - gvalue (gains s gainA)) * ((t - clock s) / (clock s + fadeMs cfg / 1000 - clock s))
         else 0)"
    unfolding b by (rule fade_value) (use assms(2) in simp_all)
  then show "automation_value v T (timeline (gains s' gainA)) t
           = (if t < clock s + fadeMs cfg / 1000
              then gvalue (gains s gainA) * (1 - (t - clock s) / (fadeMs cfg / 1000)) else 0)"
    unfolding d fade_out_value .
qed

lemma start_pad_crossfades:
  assumes "masterGainRef s = Some m" "currentRef s = \<lparr>ckey = Some A, csrc = Some srcA, cgain = Some gainA\<rparr>"
    and "srcA < next_node s" "gainA < next_node s" "0 \<le> fadeMs cfg"
  shows "\<exists>s'. start_pad cfg B b s = Inr s' \<and> sounding s' B \<and>
           crossfade_scheduled cfg s s' srcA gainA (Suc (next_node s)) \<and>
           currentRef s' = \<lparr>ckey = Some B, csrc = Some (next_node s), cgain = Some (Suc (next_node s))\<rparr>"
proof -
  from start_pad_new[OF assms(1), of cfg B b] obtain s' where
    s': "start_pad cfg B b s = Inr s'"
      "currentRef s' = \<lparr>ckey = Some B, csrc = Some (next_node s), cgain = Some (Suc (next_node s))\<rparr>"
      "sources s' = (sources s)(next_node s :=
              \<lparr>sbuffer = Some b, sloop = True, feeds = [Suc (next_node s)], started = True, stopped = False\<rparr>)"
    by blast
  have d: "0 \<le> fadeMs cfg / 1000" using assms(5) by simp
  have ne: "gainA \<noteq> Suc (next_node s)" using assms(4) by simp
  from start_pad_gains(2)[OF s'(1) assms(1) _ _ ne, of srcA] assms(2)
  have g: "gains s' = (gains s)(Suc (next_node s) := faded 0 1 (clock s) (fadeMs cfg / 1000) \<lparr>gvalue = 0, timeline = [], outputs = [Gain m]\<rparr>,
                                gainA := faded (gvalue (gains s gainA)) 0 (clock s) (fadeMs cfg / 1000) (gains s gainA))"
    and tm: "timers s' = timers s @ [\<lparr>delay = fadeMs cfg + 60, stops = srcA\<rparr>]"
    by simp_all
  have "crossfade_scheduled cfg s s' srcA gainA (Suc (next_node s))"
    using ne assms(3) by (simp add: crossfade_scheduled_def g tm s'(3) faded_timeline[OF d])
  moreover have "sounding s' B" using s'(1) by (rule start_pad_sounding)
  ultimately show ?thesis using s'(1,2) by blast
qed

lemma start_pad_simple_crossfades:
  assumes "currentRef s = \<lparr>ckey = Some A, csrc = Some srcA, cgain = Some gainA\<rparr>"
    and "srcA < next_node s" "gainA < next_node s" "0 \<le> fadeMs cfg"
  shows "sounding (start_pad_simple cfg B b s) B"
    and "crossfade_scheduled cfg s (start_pad_simple cfg B b s) srcA gainA (Suc (next_node s))"
proof -
  have d: "0 \<le> fadeMs cfg / 1000" using assms(4) by simp
  have ne: "gainA \<noteq> Suc (next_node s)" using assms(3) by simp
  from start_pad_simple_gains(2)[OF _ _ ne, of srcA cfg B b] assms(1)
  have g: "gains (start_pad_simple cfg B b s) = (gains s)(Suc (next_node s) :=
        faded 0 1 (clock s) (fadeMs cfg / 1000) \<lparr>gvalue = 0, timeline = [], outputs = [Speakers]\<rparr>,
        gainA := faded (gvalue (gains s gainA)) 0 (clock s) (fadeMs cfg / 1000) (gains s gainA))"
    and tm: "timers (start_pad_simple cfg B b s) = timers s @ [\<lparr>delay = fadeMs cfg + 60, stops = srcA\<rparr>]"
    by simp_all
  show "crossfade_scheduled cfg s (start_pad_simple cfg B b s) srcA gainA (Suc (next_node s))"
    using ne assms(2) by (simp add: crossfade_scheduled_def g tm start_pad_simple_fields faded_timeline[OF d])
  show "sounding (start_pad_simple cfg B b s) B"
    by (simp add: sounding_def start_pad_simple_fields)
qed


lemma crossfade_scheduled_cong:
  "clock x = clock s \<Longrightarrow> gains x = gains s \<Longrightarrow> timers x = timers s \<Longrightarrow> sources x = sources s \<Longrightarrow>
   crossfade_scheduled cfg x s' a g n = crossfade_scheduled cfg s s' a g n"
  by (simp add: crossfade_scheduled_def)

lemma timeout_last:
  "timers s' = ts @ [\<lparr>delay = d, stops = n\<rparr>] \<Longrightarrow> stopped (sources (timeout (length ts) s') n)"
  by (simp add: timeout_def Let_def upd_source_def)

lemma resolve_crossfades:
  assumes wf: "wf s" and i: "i < length (pending s)" and fresh: "tid (pending s ! i) = actionIdRef s"
    and cur: "currentRef s = \<lparr>ckey = Some A, csrc = Some srcA, cgain = Some gainA\<rparr>"
    and nonneg: "0 \<le> fadeMs cfg"
  shows "sounding (resolve cfg i (Decoded b) s) (tkey (pending s ! i))"
    and "crossfade_scheduled cfg s (resolve cfg i (Decoded b) s) srcA gainA (Suc (next_node s))"
    and "cgain (currentRef (resolve cfg i (Decoded b) s)) = Some (Suc (next_node s))"
proof -
  let ?x = "s\<lparr>pending := take i (pending s) @ drop (Suc i) (pending s),
               cacheRef := (cacheRef s)(tkey (pending s ! i) \<mapsto> b)\<rparr>"
  from wf cur have "ctxRef s \<noteq> None" by (auto simp: wf_def no_pad_def)
  with wf obtain m where m: "masterGainRef s = Some m" by (auto simp: wf_def)
  from wf cur have h: "srcA < next_node s" "gainA < next_node s" by (simp_all add: wf_def handle_ok_def)
  from resolve_success[OF i fresh m, of cfg b] obtain s' where
    s': "start_pad cfg (tkey (pending s ! i)) b ?x = Inr s'" "resolve cfg i (Decoded b) s = s'"
    by blast
  have "\<exists>s''. start_pad cfg (tkey (pending s ! i)) b ?x = Inr s'' \<and> sounding s'' (tkey (pending s ! i)) \<and>
           crossfade_scheduled cfg ?x s'' srcA gainA (Suc (next_node ?x)) \<and>
           currentRef s'' = \<lparr>ckey = Some (tkey (pending s ! i)), csrc = Some (next_node ?x), cgain = Some (Suc (next_node ?x))\<rparr>"
    by (rule start_pad_crossfades[where m = m and A = A]) (use m cur h nonneg in simp_all)
  with s'(1) have r: "sounding s' (tkey (pending s ! i))"
    "crossfade_scheduled cfg ?x s' srcA gainA (Suc (next_node s))"
    "cgain (currentRef s') = Some (Suc (next_node s))" by auto
  show "sounding (resolve cfg i (Decoded b) s) (tkey (pending s ! i))" using r(1) s'(2) by simp
  show "cgain (currentRef (resolve cfg i (Decoded b) s)) = Some (Suc (next_node s))" using r(3) s'(2) by simp
  have "crossfade_scheduled cfg ?x s' srcA gainA (Suc (next_node s))
      = crossfade_scheduled cfg s s' srcA gainA (Suc (next_node s))"
    by (rule crossfade_scheduled_cong) simp_all
  with r(2) s'(2)
  show "crossfade_scheduled cfg s (resolve cfg i (Decoded b) s) srcA gainA (Suc (next_node s))" by simp
qed

lemma resolve_simple_crossfades:
  assumes wf: "wf_simple s" and i: "i < length (pending s)"
    and cur: "currentRef s = \<lparr>ckey = Some A, csrc = Some srcA, cgain = Some gainA\<rparr>"
    and nonneg: "0 \<le> fadeMs cfg"
  shows "sounding (resolve_simple cfg i (Decoded b) s) (tkey (pending s ! i))"
    and "crossfade_scheduled cfg s (resolve_simple cfg i (Decoded b) s) srcA gainA (Suc (next_node s))"
    and "cgain (currentRef (resolve_simple cfg i (Decoded b) s)) = Some (Suc (next_node s))"
proof -
  let ?x = "s\<lparr>pending := take i (pending s) @ drop (Suc i) (pending s),
               cacheRef := (cacheRef s)(tkey (pending s ! i) \<mapsto> b)\<rparr>"
  from wf cur have h: "srcA < next_node s" "gainA < next_node s"
    by (simp_all add: wf_simple_def handle_ok_def)
  have r: "resolve_simple cfg i (Decoded b) s = start_pad_simple cfg (tkey (pending s ! i)) b ?x"
    using i by (simp add: resolve_simple_def loadBuffer_finish_def Let_def)
  have c: "currentRef ?x = \<lparr>ckey = Some A, csrc = Some srcA, cgain = Some gainA\<rparr>"
    "srcA < next_node ?x" "gainA < next_node ?x" using cur h by simp_all
  note f = start_pad_simple_crossfades[OF c nonneg, of "tkey (pending s ! i)" b]
  show "sounding (resolve_simple cfg i (Decoded b) s) (tkey (pending s ! i))" unfolding r by (rule f(1))
  show "cgain (currentRef (resolve_simple cfg i (Decoded b) s)) = Some (Suc (next_node s))"
    unfolding r by (simp add: start_pad_simple_fields)
  have "crossfade_scheduled cfg ?x (start_pad_simple cfg (tkey (pending s ! i)) b ?x) srcA gainA (Suc (next_node s))
      = crossfade_scheduled cfg s (start_pad_simple cfg (tkey (pending s ! i)) b ?x) srcA gainA (Suc (next_node s))"
    by (rule crossfade_scheduled_cong) simp_all
  with f(2) show "crossfade_scheduled cfg s (resolve_simple cfg i (Decoded b) s) srcA gainA (Suc (next_node s))"
    unfolding r by simp
qed

lemma playKey_crossfades:
  assumes wf: "wf s"
    and cur: "currentRef s = \<lparr>ckey = Some A, csrc = Some srcA, cgain = Some gainA\<rparr>"
    and other: "B \<noteq> A" and hit: "cacheRef s B = Some b" and nonneg: "0 \<le> fadeMs cfg"
  shows "sounding (playKey cfg B s) B"
    and "crossfade_scheduled cfg s (playKey cfg B s) srcA gainA (Suc (next_node s))"
    and "cgain (currentRef (playKey cfg B s)) = Some (Suc (next_node s))"
proof -
  from wf cur have ctx: "ctxRef s \<noteq> None" by (auto simp: wf_def no_pad_def)
  with wf obtain m where m: "masterGainRef s = Some m" by (auto simp: wf_def)
  from wf cur have h: "srcA < next_node s" "gainA < next_node s" by (simp_all add: wf_def handle_ok_def)
  have nk: "ckey (currentRef s) \<noteq> Some B" using cur other by simp
  from playKey_hit[OF nk hit ctx m, of cfg] obtain c s' where
    s': "start_pad cfg B b (s\<lparr>actionIdRef := Suc (actionIdRef s), activeKey := Some B, ctxRef := c\<rparr>) = Inr s'"
      "playKey cfg B s = s'"
    by blast
  let ?x = "s\<lparr>actionIdRef := Suc (actionIdRef s), activeKey := Some B, ctxRef := c\<rparr>"
  have "\<exists>s''. start_pad cfg B b ?x = Inr s'' \<and> sounding s'' B \<and>
           crossfade_scheduled cfg ?x s'' srcA gainA (Suc (next_node ?x)) \<and>
           currentRef s'' = \<lparr>ckey = Some B, csrc = Some (next_node ?x), cgain = Some (Suc (next_node ?x))\<rparr>"
    by (rule start_pad_crossfades[where m = m and A = A]) (use m cur h nonneg in simp_all)
  with s'(1) have r: "sounding s' B"
    "crossfade_scheduled cfg ?x s' srcA gainA (Suc (next_node s))"
    "cgain (currentRef s') = Some (Suc (next_node s))" by auto
  show "sounding (playKey cfg B s) B" using r(1) s'(2) by simp
  show "cgain (currentRef (playKey cfg B s)) = Some (Suc (next_node s))" using r(3) s'(2) by simp
  have "crossfade_scheduled cfg ?x s' srcA gainA (Suc (next_node s))
      = crossfade_scheduled cfg s s' srcA gainA (Suc (next_node s))"
    by (rule crossfade_scheduled_cong) simp_all
  with r(2) s'(2)
  show "crossfade_scheduled cfg s (playKey cfg B s) srcA gainA (Suc (next_node s))" by simp
qed

lemma playKey_simple_hit:
  assumes "ctxRef s \<noteq> None" "cacheRef s k = Some b"
  shows "\<exists>c. playKey_simple cfg k s = start_pad_simple cfg k b (s\<lparr>activeKey := Some k, ctxRef := c\<rparr>)"
proof -
  from assms(1) obtain c0 where c0: "ctxRef s = Some c0" by auto
  let ?s1 = "s\<lparr>activeKey := Some k\<rparr>"
  define c where "c = ctxRef (resume_if_suspended ?s1)"
  have r: "resume_if_suspended ?s1 = ?s1\<lparr>ctxRef := c\<rparr>"
    unfolding c_def using c0 by (simp add: resume_if_suspended_def)
  have "playKey_simple cfg k s = start_pad_simple cfg k b (resume_if_suspended ?s1)"
    using c0 assms(2)
    by (simp add: playKey_simple_def ensureCtx_simple_def loadBuffer_start_simple_def Let_def
        resume_if_suspended_def)
  then show ?thesis unfolding r by blast
qed

lemma playKey_simple_crossfades:
  assumes wf: "wf_simple s"
    and cur: "currentRef s = \<lparr>ckey = Some A, csrc = Some srcA, cgain = Some gainA\<rparr>"
    and hit: "cacheRef s B = Some b" and nonneg: "0 \<le> fadeMs cfg"
  shows "sounding (playKey_simple cfg B s) B"
    and "crossfade_scheduled cfg s (playKey_simple cfg B s) srcA gainA (Suc (next_node s))"
    and "cgain (currentRef (playKey_simple cfg B s)) = Some (Suc (next_node s))"
proof -
  from wf cur have ctx: "ctxRef s \<noteq> None" by (auto simp: wf_simple_def no_pad_def)
  from wf cur have h: "srcA < next_node s" "gainA < next_node s"
    by (simp_all add: wf_simple_def handle_ok_def)
  from playKey_simple_hit[OF ctx hit, of cfg] obtain c where
    r: "playKey_simple cfg B s = start_pad_simple cfg B b (s\<lparr>activeKey := Some B, ctxRef := c\<rparr>)"
    by blast
  let ?x = "s\<lparr>activeKey := Some B, ctxRef := c\<rparr>"
  have c: "currentRef ?x = \<lparr>ckey = Some A, csrc = Some srcA, cgain = Some gainA\<rparr>"
    "srcA < next_node ?x" "gainA < next_node ?x" using cur h by simp_all
  note f = start_pad_simple_crossfades[OF c nonneg, of B b]
  show "sounding (playKey_simple cfg B s) B" unfolding r by (rule f(1))
  show "cgain (currentRef (playKey_simple cfg B s)) = Some (Suc (next_node s))"
    unfolding r by (simp add: start_pad_simple_fields)
  have "crossfade_scheduled cfg ?x (start_pad_simple cfg B b ?x) srcA gainA (Suc (next_node s))
      = crossfade_scheduled cfg s (start_pad_simple cfg B b ?x) srcA gainA (Suc (next_node s))"
    by (rule crossfade_scheduled_cong) simp_all
  with f(2) show "crossfade_scheduled cfg s (playKey_simple cfg B s) srcA gainA (Suc (next_node s))"
    unfolding r by simp
qed

lemma crossfade_consequences:
  assumes c: "crossfade_scheduled cfg s s' srcA gainA (Suc (next_node s))"
  shows "(clock s \<le> t \<longrightarrow>
             automation_value v T (timeline (gains s' (Suc (next_node s)))) t
               = (if t < clock s + fadeMs cfg / 1000 then (t - clock s) / (fadeMs cfg / 1000) else 1) \<and>
             automation_value v T (timeline (gains s' gainA)) t
               = (if t < clock s + fadeMs cfg / 1000
                  then gvalue (gains s gainA) * (1 - (t - clock s) / (fadeMs cfg / 1000)) else 0)) \<and>
          fadeMs cfg < delay (last (timers s')) \<and>
          stopped (sources (timeout (length (timers s)) s') srcA)"
proof (intro conjI impI)
  from c have tm: "timers s' = timers s @ [\<lparr>delay = fadeMs cfg + 60, stops = srcA\<rparr>]"
    by (simp add: crossfade_scheduled_def)
  show "fadeMs cfg < delay (last (timers s'))" by (simp add: tm)
  show "stopped (sources (timeout (length (timers s)) s') srcA)" using tm by (rule timeout_last)
  assume t: "clock s \<le> t"
  show "automation_value v T (timeline (gains s' (Suc (next_node s)))) t
               = (if t < clock s + fadeMs cfg / 1000 then (t - clock s) / (fadeMs cfg / 1000) else 1)"
    using c t by (rule crossfade_values(1))
  show "automation_value v T (timeline (gains s' gainA)) t
               = (if t < clock s + fadeMs cfg / 1000
                  then gvalue (gains s gainA) * (1 - (t - clock s) / (fadeMs cfg / 1000)) else 0)"
    using c t by (rule crossfade_values(2))
qed

text \<open>
  C4. Every switch from a current pad \<open>A\<close> to a key \<open>B\<close>, in either variant. The
  switch takes place in one of two ways: when the load of \<open>B\<close> is applied (in the
  volume variant, with the latest stamp), or inside the call \<open>playKey(B)\<close> itself
  when \<open>B\<close>'s buffer is in the cache (in the volume variant \<open>B\<close> is another key
  than \<open>A\<close>, as the same key is a stop). In all four cases, with \<open>s\<close> the state
  before and \<open>s'\<close> the state after: \<open>B\<close>'s source is started on a new gain; both
  gains are given a value at the same time (the clock at that moment) and a linear ramp
  ending at the same time, one fade duration later: \<open>B\<close> from 0 to 1, \<open>A\<close> from the
  value its gain has at that moment to 0; and a timer of \<open>fadeMs + 60\<close> ms, later than
  the fade, stops \<open>A\<close>'s source when it fires.
\<close>

theorem crossfade_schedule:
  "(wf s \<and> currentRef s = \<lparr>ckey = Some A, csrc = Some srcA, cgain = Some gainA\<rparr> \<and> 0 \<le> fadeMs cfg \<and>
    (s' = resolve cfg i (Decoded b) s \<and> i < length (pending s) \<and>
       tid (pending s ! i) = actionIdRef s \<and> tkey (pending s ! i) = B
     \<or> s' = playKey cfg B s \<and> B \<noteq> A \<and> cacheRef s B = Some b) \<longrightarrow>
      sounding s' B \<and> cgain (currentRef s') = Some (Suc (next_node s)) \<and>
      crossfade_scheduled cfg s s' srcA gainA (Suc (next_node s)) \<and>
      (clock s \<le> t \<longrightarrow>
         automation_value v T (timeline (gains s' (Suc (next_node s)))) t
           = (if t < clock s + fadeMs cfg / 1000 then (t - clock s) / (fadeMs cfg / 1000) else 1) \<and>
         automation_value v T (timeline (gains s' gainA)) t
           = (if t < clock s + fadeMs cfg / 1000
              then gvalue (gains s gainA) * (1 - (t - clock s) / (fadeMs cfg / 1000)) else 0)) \<and>
      fadeMs cfg < delay (last (timers s')) \<and>
      stopped (sources (timeout (length (timers s)) s') srcA)) \<and>
   (wf_simple s \<and> currentRef s = \<lparr>ckey = Some A, csrc = Some srcA, cgain = Some gainA\<rparr> \<and> 0 \<le> fadeMs cfg \<and>
    (s' = resolve_simple cfg i (Decoded b) s \<and> i < length (pending s) \<and> tkey (pending s ! i) = B
     \<or> s' = playKey_simple cfg B s \<and> cacheRef s B = Some b) \<longrightarrow>
      sounding s' B \<and> cgain (currentRef s') = Some (Suc (next_node s)) \<and>
      crossfade_scheduled cfg s s' srcA gainA (Suc (next_node s)) \<and>
      (clock s \<le> t \<longrightarrow>
         automation_value v T (timeline (gains s' (Suc (next_node s)))) t
           = (if t < clock s + fadeMs cfg / 1000 then (t - clock s) / (fadeMs cfg / 1000) else 1) \<and>
         automation_value v T (timeline (gains s' gainA)) t
           = (if t < clock s + fadeMs cfg / 1000
              then gvalue (gains s gainA) * (1 - (t - clock s) / (fadeMs cfg / 1000)) else 0)) \<and>
      fadeMs cfg < delay (last (timers s')) \<and>
      stopped (sources (timeout (length (timers s)) s') srcA))"
proof (rule conjI; rule impI)
  assume h: "wf s \<and> currentRef s = \<lparr>ckey = Some A, csrc = Some srcA, cgain = Some gainA\<rparr> \<and> 0 \<le> fadeMs cfg \<and>
    (s' = resolve cfg i (Decoded b) s \<and> i < length (pending s) \<and>
       tid (pending s ! i) = actionIdRef s \<and> tkey (pending s ! i) = B
     \<or> s' = playKey cfg B s \<and> B \<noteq> A \<and> cacheRef s B = Some b)"
  then have a: "wf s" "currentRef s = \<lparr>ckey = Some A, csrc = Some srcA, cgain = Some gainA\<rparr>"
    "0 \<le> fadeMs cfg" by simp_all
  from h consider
    (load) "s' = resolve cfg i (Decoded b) s" "i < length (pending s)"
      "tid (pending s ! i) = actionIdRef s" "tkey (pending s ! i) = B"
    | (cached) "s' = playKey cfg B s" "B \<noteq> A" "cacheRef s B = Some b"
    by blast
  then have k: "sounding s' B \<and> cgain (currentRef s') = Some (Suc (next_node s)) \<and>
      crossfade_scheduled cfg s s' srcA gainA (Suc (next_node s))"
  proof cases
    case load
    from resolve_crossfades[OF a(1) load(2,3) a(2,3), of b] show ?thesis
      unfolding load(1) load(4) by blast
  next
    case cached
    from playKey_crossfades[OF a(1,2) cached(2,3) a(3)] show ?thesis
      unfolding cached(1) by blast
  qed
  with crossfade_consequences[of cfg s s' srcA gainA t v T]
  show "sounding s' B \<and> cgain (currentRef s') = Some (Suc (next_node s)) \<and>
      crossfade_scheduled cfg s s' srcA gainA (Suc (next_node s)) \<and>
      (clock s \<le> t \<longrightarrow>
         automation_value v T (timeline (gains s' (Suc (next_node s)))) t
           = (if t < clock s + fadeMs cfg / 1000 then (t - clock s) / (fadeMs cfg / 1000) else 1) \<and>
         automation_value v T (timeline (gains s' gainA)) t
           = (if t < clock s + fadeMs cfg / 1000
              then gvalue (gains s gainA) * (1 - (t - clock s) / (fadeMs cfg / 1000)) else 0)) \<and>
      fadeMs cfg < delay (last (timers s')) \<and>
      stopped (sources (timeout (length (timers s)) s') srcA)"
    by blast
next
  assume h: "wf_simple s \<and> currentRef s = \<lparr>ckey = Some A, csrc = Some srcA, cgain = Some gainA\<rparr> \<and> 0 \<le> fadeMs cfg \<and>
    (s' = resolve_simple cfg i (Decoded b) s \<and> i < length (pending s) \<and> tkey (pending s ! i) = B
     \<or> s' = playKey_simple cfg B s \<and> cacheRef s B = Some b)"
  then have a: "wf_simple s" "currentRef s = \<lparr>ckey = Some A, csrc = Some srcA, cgain = Some gainA\<rparr>"
    "0 \<le> fadeMs cfg" by simp_all
  from h consider
    (load) "s' = resolve_simple cfg i (Decoded b) s" "i < length (pending s)" "tkey (pending s ! i) = B"
    | (cached) "s' = playKey_simple cfg B s" "cacheRef s B = Some b"
    by blast
  then have k: "sounding s' B \<and> cgain (currentRef s') = Some (Suc (next_node s)) \<and>
      crossfade_scheduled cfg s s' srcA gainA (Suc (next_node s))"
  proof cases
    case load
    from resolve_simple_crossfades[OF a(1) load(2) a(2,3), of b] show ?thesis
      unfolding load(1) load(3) by blast
  next
    case cached
    from playKey_simple_crossfades[OF a(1,2) cached(2) a(3)] show ?thesis
      unfolding cached(1) by blast
  qed
  with crossfade_consequences[of cfg s s' srcA gainA t v T]
  show "sounding s' B \<and> cgain (currentRef s') = Some (Suc (next_node s)) \<and>
      crossfade_scheduled cfg s s' srcA gainA (Suc (next_node s)) \<and>
      (clock s \<le> t \<longrightarrow>
         automation_value v T (timeline (gains s' (Suc (next_node s)))) t
           = (if t < clock s + fadeMs cfg / 1000 then (t - clock s) / (fadeMs cfg / 1000) else 1) \<and>
         automation_value v T (timeline (gains s' gainA)) t
           = (if t < clock s + fadeMs cfg / 1000
              then gvalue (gains s gainA) * (1 - (t - clock s) / (fadeMs cfg / 1000)) else 0)) \<and>
      fadeMs cfg < delay (last (timers s')) \<and>
      stopped (sources (timeout (length (timers s)) s') srcA)"
    by blast
qed

lemma switching_fields:
  "ctxRef switching \<noteq> None" "masterGainRef switching = Some 0"
  "currentRef switching = \<lparr>ckey = Some ''C'', csrc = Some 1, cgain = Some 2\<rparr>"
  "activeKey switching = Some ''D''" "clock switching = 1" "next_node switching = 3"
  "gvalue (gains switching 2) = 1 / 2"
  "timeline (gains switching 2) = [SetValueAtTime 0 0, LinearRampToValueAtTime 1 2]"
  "timers switching = []" "actionIdRef switching = 2"
  "pending switching = [\<lparr>tid = 2, tkey = ''D'', turl = ''/sounds/D.mp3''\<rparr>]"
  by (simp_all add: switching_def run_defs)

lemma switching_simple_fields:
  "ctxRef switching_simple \<noteq> None"
  "currentRef switching_simple = \<lparr>ckey = Some ''C'', csrc = Some 0, cgain = Some 1\<rparr>"
  "activeKey switching_simple = Some ''D''" "clock switching_simple = 1" "next_node switching_simple = 2"
  "gvalue (gains switching_simple 1) = 5 / 6"
  "timeline (gains switching_simple 1) = [SetValueAtTime 0 0, LinearRampToValueAtTime 1 (6 / 5)]"
  "timers switching_simple = []"
  "pending switching_simple = [\<lparr>tid = 0, tkey = ''D'', turl = ''/sounds/D.mp3''\<rparr>]"
  by (simp_all add: switching_simple_def run_defs)

lemma returning_fields:
  "ctxRef returning \<noteq> None" "masterGainRef returning = Some 0"
  "currentRef returning = \<lparr>ckey = Some ''D'', csrc = Some 3, cgain = Some 4\<rparr>"
  "clock returning = 4" "next_node returning = 5" "actionIdRef returning = 2"
  "gvalue (gains returning 4) = 1 / 2"
  "timeline (gains returning 4) = [SetValueAtTime 0 3, LinearRampToValueAtTime 1 5]"
  "timers returning = [\<lparr>delay = 2060, stops = 1\<rparr>]"
  "pending returning = []" "cacheRef returning ''C'' = Some 1"
  by (simp_all add: returning_def run_defs)

lemma returning_simple_fields:
  "ctxRef returning_simple \<noteq> None"
  "currentRef returning_simple = \<lparr>ckey = Some ''D'', csrc = Some 2, cgain = Some 3\<rparr>"
  "clock returning_simple = 4" "next_node returning_simple = 4"
  "gvalue (gains returning_simple 3) = 5 / 6"
  "timeline (gains returning_simple 3) = [SetValueAtTime 0 3, LinearRampToValueAtTime 1 (21 / 5)]"
  "timers returning_simple = [\<lparr>delay = 1260, stops = 0\<rparr>]"
  "pending returning_simple = []" "cacheRef returning_simple ''C'' = Some 1"
  by (simp_all add: returning_simple_def run_defs)

section \<open>What the operations leave alone\<close>


lemmas play_defs = playKey_def ensureCtx_def loadBuffer_start_def playKey_resume_def start_pad_def
  play_failed_def stop_def resume_if_suspended_def Let_def case_prod_beta node_sel

lemma stop_keeps:
  "cacheRef (stop cfg s) = cacheRef s" "fetches (stop cfg s) = fetches s" "pending (stop cfg s) = pending s"
  "actionIdRef (stop cfg s) = actionIdRef s" "console (stop cfg s) = console s"
  "ctxRef (stop cfg s) = ctxRef s" "masterGainRef (stop cfg s) = masterGainRef s"
  "next_node (stop cfg s) = next_node s" "volume (stop cfg s) = volume s"
  "audio_ctor (stop cfg s) = audio_ctor s" "clock (stop cfg s) = clock s"
  by (simp_all add: stop_def Let_def node_sel)

lemma playKey_keeps:
  "cacheRef (playKey cfg k s) = cacheRef s"
  "volume (playKey cfg k s) = volume s"
  "audio_ctor (playKey cfg k s) = audio_ctor s"
  "clock (playKey cfg k s) = clock s"
  by (auto simp: play_defs split: option.splits sum.splits)

lemma playKey_fetches:
  "fetches (playKey cfg k s) =
     (if ckey (currentRef s) \<noteq> Some k \<and> cacheRef s k = None \<and> (audio_ctor s \<or> ctxRef s \<noteq> None)
      then fetches s @ [asset_url cfg k] else fetches s)"
  by (auto simp: play_defs split: option.splits sum.splits)

lemma resolve_keeps:
  "fetches (resolve cfg i out s) = fetches s"
  "volume (resolve cfg i out s) = volume s"
  "audio_ctor (resolve cfg i out s) = audio_ctor s"
  "clock (resolve cfg i out s) = clock s"
  by (auto simp: resolve_def loadBuffer_finish_def play_defs split: option.splits sum.splits outcome.splits)

lemma resolve_cache:
  "cacheRef (resolve cfg i out s) =
     (case out of
        Decoded b \<Rightarrow> if i < length (pending s) then (cacheRef s)(tkey (pending s ! i) \<mapsto> b) else cacheRef s
      | _ \<Rightarrow> cacheRef s)"
  by (auto simp: resolve_def loadBuffer_finish_def play_defs split: option.splits sum.splits outcome.splits)


lemmas play_simple_defs = playKey_simple_def ensureCtx_simple_def loadBuffer_start_simple_def
  play_failed_simple_def resume_if_suspended_def Let_def start_pad_simple_fields

lemma playKey_simple_keeps:
  "cacheRef (playKey_simple cfg k s) = cacheRef s"
  "clock (playKey_simple cfg k s) = clock s"
  "audio_ctor (playKey_simple cfg k s) = audio_ctor s"
  by (auto simp: play_simple_defs split: option.splits sum.splits)

lemma playKey_simple_fetches:
  "fetches (playKey_simple cfg k s) =
     (if cacheRef s k = None \<and> (audio_ctor s \<or> ctxRef s \<noteq> None)
      then fetches s @ [asset_url_simple cfg k] else fetches s)"
  by (auto simp: play_simple_defs split: option.splits sum.splits)

lemma resolve_simple_keeps:
  "fetches (resolve_simple cfg i out s) = fetches s"
  "clock (resolve_simple cfg i out s) = clock s"
  by (auto simp: resolve_simple_def loadBuffer_finish_def play_simple_defs split: outcome.splits)

lemma resolve_simple_cache:
  "cacheRef (resolve_simple cfg i out s) =
     (case out of
        Decoded b \<Rightarrow> if i < length (pending s) then (cacheRef s)(tkey (pending s ! i) \<mapsto> b) else cacheRef s
      | _ \<Rightarrow> cacheRef s)"
  by (auto simp: resolve_simple_def loadBuffer_finish_def play_simple_defs split: outcome.splits)

lemma platform_keeps:
  "cacheRef (advance dt s) = cacheRef s" "fetches (advance dt s) = fetches s"
  "cacheRef (timeout i s) = cacheRef s" "fetches (timeout i s) = fetches s"
  "cacheRef (resumed s) = cacheRef s" "fetches (resumed s) = fetches s"
  "cacheRef (setVolume level s) = cacheRef s" "fetches (setVolume level s) = fetches s"
  by (auto simp: advance_def timeout_def resumed_def setVolume_def volume_effect_def Let_def node_sel
      split: option.splits)

lemma step_cache:
  "cacheRef (step cfg e s) =
     (case e of
        Resolve i (Decoded b) \<Rightarrow>
          if i < length (pending s) then (cacheRef s)(tkey (pending s ! i) \<mapsto> b) else cacheRef s
      | _ \<Rightarrow> cacheRef s)"
  by (cases e) (simp_all add: playKey_keeps stop_keeps platform_keeps resolve_cache split: outcome.splits)

lemma step_simple_cache:
  "cacheRef (step_simple cfg e s) =
     (case e of
        Resolve i (Decoded b) \<Rightarrow>
          if i < length (pending s) then (cacheRef s)(tkey (pending s ! i) \<mapsto> b) else cacheRef s
      | _ \<Rightarrow> cacheRef s)"
  by (cases e) (simp_all add: playKey_simple_keeps platform_keeps resolve_simple_cache split: outcome.splits)

text \<open>
  C6. In both variants: with a buffer cached for the key, \<open>loadBuffer\<close> returns it and
  leaves the state as it is, so nothing is fetched, and selecting the key fetches
  nothing; a failed fetch or decode makes \<open>loadBuffer\<close> throw and leaves the state,
  and so the cache, unchanged; a decoded buffer is returned and cached under the key.
  Whatever happens to the engine, a cache entry changes only when a pending load of that
  key is answered with a decoded buffer, and it becomes that buffer.
\<close>

theorem loadBuffer_cache:
  "(cacheRef s key = Some buf \<longrightarrow>
      loadBuffer_start cfg key s = (Hit buf, s) \<and> loadBuffer_start_simple cfg key s = (Hit buf, s) \<and>
      fetches (playKey cfg key s) = fetches s \<and> fetches (playKey_simple cfg key s) = fetches s) \<and>
   (load_failed out \<longrightarrow>
      isl (fst (loadBuffer_finish key url out s)) \<and> snd (loadBuffer_finish key url out s) = s \<and>
      cacheRef (step cfg (Resolve i out) s) = cacheRef s \<and>
      cacheRef (step_simple cfg (Resolve i out) s) = cacheRef s) \<and>
   loadBuffer_finish key url (Decoded buf) s = (Inr buf, s\<lparr>cacheRef := (cacheRef s)(key \<mapsto> buf)\<rparr>) \<and>
   (cacheRef (step cfg e s) k \<noteq> cacheRef s k \<or> cacheRef (step_simple cfg e s) k \<noteq> cacheRef s k \<longrightarrow>
      (case e of
         Resolve j (Decoded b) \<Rightarrow>
           j < length (pending s) \<and> tkey (pending s ! j) = k \<and>
           (cacheRef (step cfg e s) k \<noteq> cacheRef s k \<longrightarrow> cacheRef (step cfg e s) k = Some b) \<and>
           (cacheRef (step_simple cfg e s) k \<noteq> cacheRef s k \<longrightarrow> cacheRef (step_simple cfg e s) k = Some b)
       | _ \<Rightarrow> False))"
proof (intro conjI impI)
  assume c: "cacheRef s key = Some buf"
  then show "loadBuffer_start cfg key s = (Hit buf, s)" by (simp add: loadBuffer_start_def)
  from c show "loadBuffer_start_simple cfg key s = (Hit buf, s)" by (simp add: loadBuffer_start_simple_def)
  from c show "fetches (playKey cfg key s) = fetches s" by (simp add: playKey_fetches)
  from c show "fetches (playKey_simple cfg key s) = fetches s" by (simp add: playKey_simple_fetches)
next
  assume f: "load_failed out"
  then show "isl (fst (loadBuffer_finish key url out s))" "snd (loadBuffer_finish key url out s) = s"
    by (cases out; simp add: load_failed_def loadBuffer_finish_def)+
  from f show "cacheRef (step cfg (Resolve i out) s) = cacheRef s"
    by (cases out) (simp_all add: load_failed_def resolve_cache)
  from f show "cacheRef (step_simple cfg (Resolve i out) s) = cacheRef s"
    by (cases out) (simp_all add: load_failed_def resolve_simple_cache)
next
  show "loadBuffer_finish key url (Decoded buf) s = (Inr buf, s\<lparr>cacheRef := (cacheRef s)(key \<mapsto> buf)\<rparr>)"
    by (simp add: loadBuffer_finish_def)
next
  assume "cacheRef (step cfg e s) k \<noteq> cacheRef s k \<or> cacheRef (step_simple cfg e s) k \<noteq> cacheRef s k"
  then show "case e of
         Resolve j (Decoded b) \<Rightarrow>
           j < length (pending s) \<and> tkey (pending s ! j) = k \<and>
           (cacheRef (step cfg e s) k \<noteq> cacheRef s k \<longrightarrow> cacheRef (step cfg e s) k = Some b) \<and>
           (cacheRef (step_simple cfg e s) k \<noteq> cacheRef s k \<longrightarrow> cacheRef (step_simple cfg e s) k = Some b)
       | _ \<Rightarrow> False"
    unfolding step_cache step_simple_cache
    by (auto split: event.splits outcome.splits if_splits)
qed

section \<open>The master volume\<close>


lemma hold_value:
  assumes "\<forall>e\<in>set xs. at_time e < t0" "t0 \<le> t"
  shows "automation_value v T (xs @ [SetValueAtTime a t0]) t = a"
proof -
  have "\<forall>e\<in>set xs. at_time e \<le> t" using assms by fastforce
  then have "automation_value v T (xs @ SetValueAtTime a t0 # []) t = automation_value a t0 [] t"
    using assms(2) by (rule automation_value_past)
  then show ?thesis by simp
qed

lemma volume_effect_timeline:
  assumes "masterGainRef s = Some m" "ctxRef s \<noteq> None"
  shows "timeline (gains (volume_effect s) m)
           = filter (\<lambda>x. at_time x < clock s) (timeline (gains s m)) @ [SetValueAtTime (volume s) (clock s)]"
    and "g \<noteq> m \<Longrightarrow> gains (volume_effect s) g = gains s g"
    and "volume (volume_effect s) = volume s" "clock (volume_effect s) = clock s"
    and "ctxRef (volume_effect s) = ctxRef s"
proof -
  let ?old = "filter (\<lambda>x. at_time x < clock s) (timeline (gains s m))"
  have 1: "insert_event (SetValueAtTime (volume s) (clock s)) ?old = ?old @ [SetValueAtTime (volume s) (clock s)]"
    by (rule insert_event_after) auto
  from assms(2) obtain c where c: "ctxRef s = Some c" by auto
  show "timeline (gains (volume_effect s) m) = ?old @ [SetValueAtTime (volume s) (clock s)]"
    using assms(1) c
    by (simp add: volume_effect_def Let_def node_sel setValueAtTime_def cancelScheduledValues_def 1)
  show "g \<noteq> m \<Longrightarrow> gains (volume_effect s) g = gains s g"
    "volume (volume_effect s) = volume s" "clock (volume_effect s) = clock s"
    "ctxRef (volume_effect s) = ctxRef s"
    using assms(1) c by (simp_all add: volume_effect_def Let_def node_sel)
qed

text \<open>
  What the volume effect does. With a master gain and a context, \<open>setVolume(level)\<close>
  for a level other than the present volume removes what was scheduled on the master
  gain from the present time on and holds the level from that time: the timeline
  prescribes the level at every later time, with no ramp, and the gain has it at the
  next rendering, however soon. A call with the present volume does nothing (the effect
  depends on \<open>[volume]\<close>), and without a master gain only the volume state changes.
\<close>

theorem setVolume_immediate:
  "(masterGainRef s = Some m \<and> ctxRef s = Some c \<and> level \<noteq> volume s \<longrightarrow>
      volume (setVolume level s) = level \<and>
      timeline (gains (setVolume level s) m)
        = filter (\<lambda>x. at_time x < clock s) (timeline (gains s m)) @ [SetValueAtTime level (clock s)] \<and>
      (clock s \<le> t \<longrightarrow> automation_value v T (timeline (gains (setVolume level s) m)) t = level) \<and>
      (\<not> suspended c \<and> 0 \<le> dt \<longrightarrow> gvalue (gains (advance dt (setVolume level s)) m) = level)) \<and>
   (level = volume s \<longrightarrow> setVolume level s = s) \<and>
   (masterGainRef s = None \<or> ctxRef s = None \<longrightarrow> setVolume level s = s\<lparr>volume := level\<rparr>)"
proof (intro conjI impI)
  assume "level = volume s"
  then show "setVolume level s = s" by (simp add: setVolume_def)
next
  assume "masterGainRef s = None \<or> ctxRef s = None"
  then show "setVolume level s = s\<lparr>volume := level\<rparr>"
    by (auto simp: setVolume_def volume_effect_def)
next
  assume h: "masterGainRef s = Some m \<and> ctxRef s = Some c \<and> level \<noteq> volume s"
  let ?s1 = "s\<lparr>volume := level\<rparr>"
  from h have sv: "setVolume level s = volume_effect ?s1" by (simp add: setVolume_def)
  have a: "masterGainRef ?s1 = Some m" "ctxRef ?s1 \<noteq> None" using h by simp_all
  note f = volume_effect_timeline[OF a]
  show "volume (setVolume level s) = level" by (simp add: sv f(3))
  show tl: "timeline (gains (setVolume level s) m)
        = filter (\<lambda>x. at_time x < clock s) (timeline (gains s m)) @ [SetValueAtTime level (clock s)]"
    using f(1) by (simp add: sv)
  show "automation_value v T (timeline (gains (setVolume level s) m)) t = level" if "clock s \<le> t"
    unfolding tl using that by (intro hold_value) auto
  show "gvalue (gains (advance dt (setVolume level s)) m) = level" if d: "\<not> suspended c \<and> 0 \<le> dt"
  proof -
    have c: "ctxRef (setVolume level s) = Some c" "clock (setVolume level s) = clock s"
      using h by (simp_all add: sv f(4,5))
    have "gvalue (gains (advance dt (setVolume level s)) m)
        = automation_value (gvalue (gains (setVolume level s) m)) 0 (timeline (gains (setVolume level s) m)) (clock s + dt)"
      using c d by (simp add: advance_def render_gain_def)
    also have "\<dots> = level" unfolding tl using d by (intro hold_value) auto
    finally show ?thesis .
  qed
qed

text \<open>
  C10. Before the context exists \<open>setVolume\<close> changes the volume state and nothing
  else. The master gain that \<open>ensureCtx\<close> creates afterwards (on the first selection)
  has \<open>initialVolume\<close> and an empty timeline, whatever the volume state says.
\<close>

theorem volume_before_context_is_dropped:
  "(ctxRef s = None \<and> masterGainRef s = None \<longrightarrow>
      setVolume level s = s\<lparr>volume := level\<rparr> \<and>
      (audio_ctor s \<longrightarrow>
         (\<exists>s'. ensureCtx cfg (setVolume level s) = Inr s' \<and>
               masterGainRef s' = Some (next_node s) \<and>
               gains s' (next_node s) = \<lparr>gvalue = initialVolume cfg, timeline = [], outputs = [Speakers]\<rparr> \<and>
               volume s' = level)) \<and>
      (audio_ctor s \<and> ckey (currentRef s) \<noteq> Some k \<and> cacheRef s k = None \<longrightarrow>
         masterGainRef (playKey cfg k (setVolume level s)) = Some (next_node s) \<and>
         gains (playKey cfg k (setVolume level s)) (next_node s)
           = \<lparr>gvalue = initialVolume cfg, timeline = [], outputs = [Speakers]\<rparr> \<and>
         volume (playKey cfg k (setVolume level s)) = level))"
proof (intro conjI impI)
  assume h: "ctxRef s = None \<and> masterGainRef s = None"
  then show sv: "setVolume level s = s\<lparr>volume := level\<rparr>"
    by (auto simp: setVolume_def volume_effect_def)
  show "\<exists>s'. ensureCtx cfg (setVolume level s) = Inr s' \<and>
               masterGainRef s' = Some (next_node s) \<and>
               gains s' (next_node s) = \<lparr>gvalue = initialVolume cfg, timeline = [], outputs = [Speakers]\<rparr> \<and>
               volume s' = level" if "audio_ctor s"
    unfolding sv using h that
    by (simp add: ensureCtx_def Let_def case_prod_beta node_sel resume_if_suspended_def fresh_gain_def)
  assume p: "audio_ctor s \<and> ckey (currentRef s) \<noteq> Some k \<and> cacheRef s k = None"
  let ?s1 = "s\<lparr>volume := level\<rparr>"
  have a: "ckey (currentRef ?s1) \<noteq> Some k" "cacheRef ?s1 k = None" "audio_ctor ?s1 \<or> ctxRef ?s1 \<noteq> None"
    using p by simp_all
  note f = playKey_miss[OF a, of cfg]
  have n: "ctxRef ?s1 = None" using h by simp
  show "masterGainRef (playKey cfg k (setVolume level s)) = Some (next_node s)"
    "gains (playKey cfg k (setVolume level s)) (next_node s)
           = \<lparr>gvalue = initialVolume cfg, timeline = [], outputs = [Speakers]\<rparr>"
    "volume (playKey cfg k (setVolume level s)) = level"
    unfolding sv using f(15)[OF n] f(11) by simp_all
qed

section \<open>Failed selections\<close>


lemma resolve_simple_failure:
  assumes "i < length (pending s)"
    and "fst (loadBuffer_finish (tkey (pending s ! i)) (turl (pending s ! i)) out s) = Inl err"
  shows "resolve_simple cfg i out s =
           s\<lparr>pending := take i (pending s) @ drop (Suc i) (pending s),
             console := console s @ [err],
             activeKey := (if activeKey s = Some (tkey (pending s ! i)) then None else activeKey s)\<rparr>"
  using assms
  by (cases out) (auto simp: resolve_simple_def loadBuffer_finish_def play_failed_simple_def Let_def)

lemma playKey_simple_miss:
  assumes "cacheRef s k = None" "audio_ctor s \<or> ctxRef s \<noteq> None"
  shows "pending (playKey_simple cfg k s) = pending s @ [\<lparr>tid = 0, tkey = k, turl = asset_url_simple cfg k\<rparr>]"
    and "activeKey (playKey_simple cfg k s) = Some k"
    and "currentRef (playKey_simple cfg k s) = currentRef s"
  using assms by (auto simp: play_simple_defs split: option.splits)

lemma play_then_load_simple:
  assumes "cacheRef s k = None" "audio_ctor s \<or> ctxRef s \<noteq> None"
  shows "sounding (resolve_simple cfg (length (pending s)) (Decoded b) (playKey_simple cfg k s)) k"
    and "activeKey (resolve_simple cfg (length (pending s)) (Decoded b) (playKey_simple cfg k s)) = Some k"
  using playKey_simple_miss[OF assms, of cfg]
  by (simp_all add: resolve_simple_def loadBuffer_finish_def Let_def sounding_def start_pad_simple_fields)

lemma list_all_remove: "list_all P xs \<Longrightarrow> list_all P (take i xs @ drop (Suc i) xs)"
  by (auto simp: list_all_iff dest: in_set_takeD in_set_dropD)

lemma wf_after_failure:
  assumes "wf s"
  shows "wf (s\<lparr>pending := take i (pending s) @ drop (Suc i) (pending s), console := L, activeKey := a\<rparr>)"
proof -
  from assms have "list_all (\<lambda>t. tid t \<le> actionIdRef s) (take i (pending s) @ drop (Suc i) (pending s))"
    by (intro list_all_remove) (simp add: wf_def)
  moreover have "pending s = [] \<Longrightarrow> take i (pending s) @ drop (Suc i) (pending s) = []" by simp
  ultimately show ?thesis using assms by (auto simp: wf_def handle_ok_def split: option.splits)
qed

text \<open>
  C7 (as amended). When the load of a waiting \<open>playKey\<close> fails, in either variant the
  error is logged, the call leaves the pending list and nothing is fetched again, and
  the cache, the current-pad record, the sources, the gains and the timers stay as they
  are. The volume variant clears the active key exactly when the call's action id is
  still the latest; the simpler variant, which has no action ids, clears it exactly when
  it still shows the call's key. A later selection still works: once its load is
  applied, its key sounds.
\<close>

theorem play_failure:
  "i < length (pending s) \<and>
   fst (loadBuffer_finish (tkey (pending s ! i)) (turl (pending s ! i)) out s) = Inl err \<longrightarrow>
     (let s' = resolve cfg i out s
      in console s' = console s @ [err] \<and>
         pending s' = take i (pending s) @ drop (Suc i) (pending s) \<and>
         fetches s' = fetches s \<and> cacheRef s' = cacheRef s \<and> currentRef s' = currentRef s \<and>
         sources s' = sources s \<and> gains s' = gains s \<and> timers s' = timers s \<and>
         activeKey s' = (if tid (pending s ! i) = actionIdRef s then None else activeKey s) \<and>
         (wf s \<and> ckey (currentRef s) \<noteq> Some k \<and> cacheRef s k = None \<longrightarrow>
            sounding (resolve cfg (length (pending s')) (Decoded b) (playKey cfg k s')) k)) \<and>
     (let s' = resolve_simple cfg i out s
      in console s' = console s @ [err] \<and>
         pending s' = take i (pending s) @ drop (Suc i) (pending s) \<and>
         fetches s' = fetches s \<and> cacheRef s' = cacheRef s \<and> currentRef s' = currentRef s \<and>
         sources s' = sources s \<and> gains s' = gains s \<and> timers s' = timers s \<and>
         activeKey s' = (if activeKey s = Some (tkey (pending s ! i)) then None else activeKey s) \<and>
         (ctxRef s \<noteq> None \<and> cacheRef s k = None \<longrightarrow>
            sounding (resolve_simple cfg (length (pending s')) (Decoded b) (playKey_simple cfg k s')) k))"
proof (intro impI)
  assume h: "i < length (pending s) \<and>
    fst (loadBuffer_finish (tkey (pending s ! i)) (turl (pending s ! i)) out s) = Inl err"
  then have i: "i < length (pending s)"
    and e: "fst (loadBuffer_finish (tkey (pending s ! i)) (turl (pending s ! i)) out s) = Inl err"
    by simp_all
  define s1 where "s1 = resolve cfg i out s"
  define s2 where "s2 = resolve_simple cfg i out s"
  have r1: "s1 = s\<lparr>pending := take i (pending s) @ drop (Suc i) (pending s),
             console := console s @ [err],
             activeKey := (if tid (pending s ! i) = actionIdRef s then None else activeKey s)\<rparr>"
    unfolding s1_def using i e by (rule resolve_failure)
  have r2: "s2 = s\<lparr>pending := take i (pending s) @ drop (Suc i) (pending s),
             console := console s @ [err],
             activeKey := (if activeKey s = Some (tkey (pending s ! i)) then None else activeKey s)\<rparr>"
    unfolding s2_def using i e by (rule resolve_simple_failure)
  have u1: "sounding (resolve cfg (length (pending s1)) (Decoded b) (playKey cfg k s1)) k"
    if w: "wf s \<and> ckey (currentRef s) \<noteq> Some k \<and> cacheRef s k = None"
  proof (rule play_then_load(1))
    show "wf s1" unfolding r1 using w by (intro wf_after_failure) simp
    from w i have "ctxRef s \<noteq> None" by (auto simp: wf_def)
    then show "audio_ctor s1 \<or> ctxRef s1 \<noteq> None" by (simp add: r1)
    show "ckey (currentRef s1) \<noteq> Some k" "cacheRef s1 k = None" using w by (simp_all add: r1)
  qed
  have u2: "sounding (resolve_simple cfg (length (pending s2)) (Decoded b) (playKey_simple cfg k s2)) k"
    if w: "ctxRef s \<noteq> None \<and> cacheRef s k = None"
  proof (rule play_then_load_simple(1))
    show "cacheRef s2 k = None" "audio_ctor s2 \<or> ctxRef s2 \<noteq> None" using w by (simp_all add: r2)
  qed
  have a: "console s1 = console s @ [err] \<and>
         pending s1 = take i (pending s) @ drop (Suc i) (pending s) \<and>
         fetches s1 = fetches s \<and> cacheRef s1 = cacheRef s \<and> currentRef s1 = currentRef s \<and>
         sources s1 = sources s \<and> gains s1 = gains s \<and> timers s1 = timers s \<and>
         activeKey s1 = (if tid (pending s ! i) = actionIdRef s then None else activeKey s)"
    by (simp add: r1)
  have b: "console s2 = console s @ [err] \<and>
         pending s2 = take i (pending s) @ drop (Suc i) (pending s) \<and>
         fetches s2 = fetches s \<and> cacheRef s2 = cacheRef s \<and> currentRef s2 = currentRef s \<and>
         sources s2 = sources s \<and> gains s2 = gains s \<and> timers s2 = timers s \<and>
         activeKey s2 = (if activeKey s = Some (tkey (pending s ! i)) then None else activeKey s)"
    by (simp add: r2)
  show "(let s' = resolve cfg i out s
      in console s' = console s @ [err] \<and>
         pending s' = take i (pending s) @ drop (Suc i) (pending s) \<and>
         fetches s' = fetches s \<and> cacheRef s' = cacheRef s \<and> currentRef s' = currentRef s \<and>
         sources s' = sources s \<and> gains s' = gains s \<and> timers s' = timers s \<and>
         activeKey s' = (if tid (pending s ! i) = actionIdRef s then None else activeKey s) \<and>
         (wf s \<and> ckey (currentRef s) \<noteq> Some k \<and> cacheRef s k = None \<longrightarrow>
            sounding (resolve cfg (length (pending s')) (Decoded b) (playKey cfg k s')) k)) \<and>
     (let s' = resolve_simple cfg i out s
      in console s' = console s @ [err] \<and>
         pending s' = take i (pending s) @ drop (Suc i) (pending s) \<and>
         fetches s' = fetches s \<and> cacheRef s' = cacheRef s \<and> currentRef s' = currentRef s \<and>
         sources s' = sources s \<and> gains s' = gains s \<and> timers s' = timers s \<and>
         activeKey s' = (if activeKey s = Some (tkey (pending s ! i)) then None else activeKey s) \<and>
         (ctxRef s \<noteq> None \<and> cacheRef s k = None \<longrightarrow>
            sounding (resolve_simple cfg (length (pending s')) (Decoded b) (playKey_simple cfg k s')) k))"
    unfolding Let_def s1_def[symmetric] s2_def[symmetric] using a b u1 u2 by blast
qed

section \<open>The theorems at concrete states\<close>


lemma example_caches:
  "cacheRef half_faded ''C'' = Some 1" "fetches half_faded = [''/sounds/C.mp3'']"
  "cacheRef switching ''D'' = None"
  by (simp_all add: half_faded_def switching_def run_defs)

lemma loading_fields:
  "ctxRef loading \<noteq> None" "masterGainRef loading = Some 0" "currentRef loading = no_pad"
  "activeKey loading = Some ''C''" "actionIdRef loading = 1" "next_node loading = 1"
  "pending loading = [\<lparr>tid = 1, tkey = ''C'', turl = ''/sounds/C.mp3''\<rparr>]"
  "console loading = []" "cacheRef loading ''D'' = None" "cacheRef loading ''C'' = None"
  by (simp_all add: loading_def run_defs)

lemma loading_simple_fields:
  "ctxRef loading_simple \<noteq> None" "currentRef loading_simple = no_pad"
  "activeKey loading_simple = Some ''C''"
  "pending loading_simple = [\<lparr>tid = 0, tkey = ''C'', turl = ''/sounds/C.mp3''\<rparr>]"
  "console loading_simple = []" "cacheRef loading_simple ''D'' = None"
  by (simp_all add: loading_simple_def run_defs)

text \<open>
  Four crossfades: from C, one second into its fade-in, to D when D's load is applied;
  and from D, one second into its fade-in, back to the cached C; in each variant.
\<close>

theorem crossfade_schedule_witness:
  "wf switching \<and> currentRef switching = \<lparr>ckey = Some ''C'', csrc = Some 1, cgain = Some 2\<rparr> \<and>
   0 \<le> fadeMs default_config \<and> 0 < length (pending switching) \<and>
   tid (pending switching ! 0) = actionIdRef switching \<and> tkey (pending switching ! 0) = ''D'' \<and>
   clock switching \<le> 2 \<and>
   sounding (resolve default_config 0 (Decoded 2) switching) ''D'' \<and>
   timeline (gains (resolve default_config 0 (Decoded 2) switching) 4)
     = [SetValueAtTime 0 1, LinearRampToValueAtTime 1 3] \<and>
   timeline (gains (resolve default_config 0 (Decoded 2) switching) 2)
     = [SetValueAtTime 0 0, SetValueAtTime (1 / 2) 1, LinearRampToValueAtTime 0 3] \<and>
   timers (resolve default_config 0 (Decoded 2) switching) = [\<lparr>delay = 2060, stops = 1\<rparr>] \<and>
   automation_value 0 0 (timeline (gains (resolve default_config 0 (Decoded 2) switching) 4)) 2 = 1 / 2 \<and>
   automation_value 0 0 (timeline (gains (resolve default_config 0 (Decoded 2) switching) 2)) 2 = 1 / 4 \<and>
   wf returning \<and> currentRef returning = \<lparr>ckey = Some ''D'', csrc = Some 3, cgain = Some 4\<rparr> \<and>
   ''C'' \<noteq> ''D'' \<and> cacheRef returning ''C'' = Some 1 \<and> pending returning = [] \<and> clock returning \<le> 5 \<and>
   sounding (playKey default_config ''C'' returning) ''C'' \<and>
   timeline (gains (playKey default_config ''C'' returning) 6)
     = [SetValueAtTime 0 4, LinearRampToValueAtTime 1 6] \<and>
   timeline (gains (playKey default_config ''C'' returning) 4)
     = [SetValueAtTime 0 3, SetValueAtTime (1 / 2) 4, LinearRampToValueAtTime 0 6] \<and>
   timers (playKey default_config ''C'' returning)
     = [\<lparr>delay = 2060, stops = 1\<rparr>, \<lparr>delay = 2060, stops = 3\<rparr>] \<and>
   automation_value 0 0 (timeline (gains (playKey default_config ''C'' returning) 6)) 5 = 1 / 2 \<and>
   automation_value 0 0 (timeline (gains (playKey default_config ''C'' returning) 4)) 5 = 1 / 4 \<and>
   wf_simple switching_simple \<and>
   currentRef switching_simple = \<lparr>ckey = Some ''C'', csrc = Some 0, cgain = Some 1\<rparr> \<and>
   0 \<le> fadeMs default_config_simple \<and> 0 < length (pending switching_simple) \<and>
   tkey (pending switching_simple ! 0) = ''D'' \<and>
   sounding (resolve_simple default_config_simple 0 (Decoded 2) switching_simple) ''D'' \<and>
   timeline (gains (resolve_simple default_config_simple 0 (Decoded 2) switching_simple) 3)
     = [SetValueAtTime 0 1, LinearRampToValueAtTime 1 (11 / 5)] \<and>
   timeline (gains (resolve_simple default_config_simple 0 (Decoded 2) switching_simple) 1)
     = [SetValueAtTime 0 0, SetValueAtTime (5 / 6) 1, LinearRampToValueAtTime 0 (11 / 5)] \<and>
   timers (resolve_simple default_config_simple 0 (Decoded 2) switching_simple) = [\<lparr>delay = 1260, stops = 0\<rparr>] \<and>
   wf_simple returning_simple \<and>
   currentRef returning_simple = \<lparr>ckey = Some ''D'', csrc = Some 2, cgain = Some 3\<rparr> \<and>
   cacheRef returning_simple ''C'' = Some 1 \<and> pending returning_simple = [] \<and>
   sounding (playKey_simple default_config_simple ''C'' returning_simple) ''C'' \<and>
   timeline (gains (playKey_simple default_config_simple ''C'' returning_simple) 5)
     = [SetValueAtTime 0 4, LinearRampToValueAtTime 1 (26 / 5)] \<and>
   timeline (gains (playKey_simple default_config_simple ''C'' returning_simple) 3)
     = [SetValueAtTime 0 3, SetValueAtTime (5 / 6) 4, LinearRampToValueAtTime 0 (26 / 5)] \<and>
   timers (playKey_simple default_config_simple ''C'' returning_simple)
     = [\<lparr>delay = 1260, stops = 0\<rparr>, \<lparr>delay = 1260, stops = 2\<rparr>]"
proof -
  have v: "wf switching" "currentRef switching = \<lparr>ckey = Some ''C'', csrc = Some 1, cgain = Some 2\<rparr>"
    "0 \<le> fadeMs default_config" "0 < length (pending switching)"
    "tid (pending switching ! 0) = actionIdRef switching" "tkey (pending switching ! 0) = ''D''"
    by (simp_all add: wf_def handle_ok_def no_pad_def switching_fields default_config_def)
  have t: "clock switching \<le> 2" by (simp add: switching_fields)
  have r: "wf returning" "currentRef returning = \<lparr>ckey = Some ''D'', csrc = Some 3, cgain = Some 4\<rparr>"
    "''C'' \<noteq> ''D''" "cacheRef returning ''C'' = Some 1" "pending returning = []"
    by (simp_all add: wf_def handle_ok_def no_pad_def returning_fields)
  have rt: "clock returning \<le> 5" by (simp add: returning_fields)
  have w: "wf_simple switching_simple"
    "currentRef switching_simple = \<lparr>ckey = Some ''C'', csrc = Some 0, cgain = Some 1\<rparr>"
    "0 \<le> fadeMs default_config_simple" "0 < length (pending switching_simple)"
    "tkey (pending switching_simple ! 0) = ''D''"
    by (simp_all add: wf_simple_def handle_ok_def no_pad_def switching_simple_fields
        switching_simple_fields[unfolded One_nat_def] default_config_simple_def)
  have q: "wf_simple returning_simple"
    "currentRef returning_simple = \<lparr>ckey = Some ''D'', csrc = Some 2, cgain = Some 3\<rparr>"
    "cacheRef returning_simple ''C'' = Some 1" "pending returning_simple = []"
    by (simp_all add: wf_simple_def handle_ok_def no_pad_def returning_simple_fields)
  from crossfade_schedule[where s = switching and i = 0 and A = "''C''" and B = "''D''"
      and srcA = 1 and gainA = 2 and cfg = default_config and b = 2 and t = 2 and v = 0 and T = 0
      and s' = "resolve default_config 0 (Decoded 2) switching"] v t
  have a: "sounding (resolve default_config 0 (Decoded 2) switching) ''D''"
    "crossfade_scheduled default_config switching (resolve default_config 0 (Decoded 2) switching) 1 2 (Suc (next_node switching))"
    "automation_value 0 0 (timeline (gains (resolve default_config 0 (Decoded 2) switching) (Suc (next_node switching)))) 2
       = (if 2 < clock switching + fadeMs default_config / 1000 then (2 - clock switching) / (fadeMs default_config / 1000) else 1)"
    "automation_value 0 0 (timeline (gains (resolve default_config 0 (Decoded 2) switching) 2)) 2
       = (if 2 < clock switching + fadeMs default_config / 1000
          then gvalue (gains switching 2) * (1 - (2 - clock switching) / (fadeMs default_config / 1000)) else 0)"
    by blast+
  from crossfade_schedule[where s = returning and A = "''D''" and B = "''C''"
      and srcA = 3 and gainA = 4 and cfg = default_config and b = 1 and t = 5 and v = 0 and T = 0
      and s' = "playKey default_config ''C'' returning"] r v(3) rt
  have c: "sounding (playKey default_config ''C'' returning) ''C''"
    "crossfade_scheduled default_config returning (playKey default_config ''C'' returning) 3 4 (Suc (next_node returning))"
    "automation_value 0 0 (timeline (gains (playKey default_config ''C'' returning) (Suc (next_node returning)))) 5
       = (if 5 < clock returning + fadeMs default_config / 1000 then (5 - clock returning) / (fadeMs default_config / 1000) else 1)"
    "automation_value 0 0 (timeline (gains (playKey default_config ''C'' returning) 4)) 5
       = (if 5 < clock returning + fadeMs default_config / 1000
          then gvalue (gains returning 4) * (1 - (5 - clock returning) / (fadeMs default_config / 1000)) else 0)"
    by blast+
  from crossfade_schedule[where s = switching_simple and i = 0 and A = "''C''" and B = "''D''"
      and srcA = 0 and gainA = 1 and cfg = default_config_simple and b = 2
      and s' = "resolve_simple default_config_simple 0 (Decoded 2) switching_simple"] w
  have b: "sounding (resolve_simple default_config_simple 0 (Decoded 2) switching_simple) ''D''"
    "crossfade_scheduled default_config_simple switching_simple
       (resolve_simple default_config_simple 0 (Decoded 2) switching_simple) 0 1 (Suc (next_node switching_simple))"
    by blast+
  from crossfade_schedule[where s = returning_simple and A = "''D''" and B = "''C''"
      and srcA = 2 and gainA = 3 and cfg = default_config_simple and b = 1
      and s' = "playKey_simple default_config_simple ''C'' returning_simple"] q w(3)
  have d: "sounding (playKey_simple default_config_simple ''C'' returning_simple) ''C''"
    "crossfade_scheduled default_config_simple returning_simple
       (playKey_simple default_config_simple ''C'' returning_simple) 2 3 (Suc (next_node returning_simple))"
    by blast+
  have a': "timeline (gains (resolve default_config 0 (Decoded 2) switching) 4)
       = [SetValueAtTime 0 1, LinearRampToValueAtTime 1 3]"
    "timeline (gains (resolve default_config 0 (Decoded 2) switching) 2)
       = [SetValueAtTime 0 0, SetValueAtTime (1 / 2) 1, LinearRampToValueAtTime 0 3]"
    "timers (resolve default_config 0 (Decoded 2) switching) = [\<lparr>delay = 2060, stops = 1\<rparr>]"
    "automation_value 0 0 (timeline (gains (resolve default_config 0 (Decoded 2) switching) 4)) 2 = 1 / 2"
    "automation_value 0 0 (timeline (gains (resolve default_config 0 (Decoded 2) switching) 2)) 2 = 1 / 4"
    using a by (simp_all add: crossfade_scheduled_def switching_fields default_config_def)
  have c': "timeline (gains (playKey default_config ''C'' returning) 6)
       = [SetValueAtTime 0 4, LinearRampToValueAtTime 1 6]"
    "timeline (gains (playKey default_config ''C'' returning) 4)
       = [SetValueAtTime 0 3, SetValueAtTime (1 / 2) 4, LinearRampToValueAtTime 0 6]"
    "timers (playKey default_config ''C'' returning)
       = [\<lparr>delay = 2060, stops = 1\<rparr>, \<lparr>delay = 2060, stops = 3\<rparr>]"
    "automation_value 0 0 (timeline (gains (playKey default_config ''C'' returning) 6)) 5 = 1 / 2"
    "automation_value 0 0 (timeline (gains (playKey default_config ''C'' returning) 4)) 5 = 1 / 4"
    using c by (simp_all add: crossfade_scheduled_def returning_fields default_config_def)
  have b': "timeline (gains (resolve_simple default_config_simple 0 (Decoded 2) switching_simple) 3)
       = [SetValueAtTime 0 1, LinearRampToValueAtTime 1 (11 / 5)]"
    "timeline (gains (resolve_simple default_config_simple 0 (Decoded 2) switching_simple) 1)
       = [SetValueAtTime 0 0, SetValueAtTime (5 / 6) 1, LinearRampToValueAtTime 0 (11 / 5)]"
    "timers (resolve_simple default_config_simple 0 (Decoded 2) switching_simple) = [\<lparr>delay = 1260, stops = 0\<rparr>]"
    using b by (simp_all add: crossfade_scheduled_def switching_simple_fields switching_simple_fields[unfolded One_nat_def] default_config_simple_def)
  have d': "timeline (gains (playKey_simple default_config_simple ''C'' returning_simple) 5)
       = [SetValueAtTime 0 4, LinearRampToValueAtTime 1 (26 / 5)]"
    "timeline (gains (playKey_simple default_config_simple ''C'' returning_simple) 3)
       = [SetValueAtTime 0 3, SetValueAtTime (5 / 6) 4, LinearRampToValueAtTime 0 (26 / 5)]"
    "timers (playKey_simple default_config_simple ''C'' returning_simple)
       = [\<lparr>delay = 1260, stops = 0\<rparr>, \<lparr>delay = 1260, stops = 2\<rparr>]"
    using d by (simp_all add: crossfade_scheduled_def returning_simple_fields default_config_simple_def)
  show ?thesis
    using v t r rt w q a(1) a' c(1) c' b(1) b' d(1) d' by simp
qed

theorem loadBuffer_cache_witness:
  "cacheRef half_faded ''C'' = Some 1 \<and>
   loadBuffer_start default_config ''C'' half_faded = (Hit 1, half_faded) \<and>
   fetches (playKey default_config ''C'' half_faded) = [''/sounds/C.mp3''] \<and>
   load_failed NotOk \<and>
   cacheRef (step default_config (Resolve 0 NotOk) switching) = cacheRef switching \<and>
   cacheRef (step default_config (Resolve 0 (Decoded 2)) switching) ''D'' \<noteq> cacheRef switching ''D'' \<and>
   cacheRef (step default_config (Resolve 0 (Decoded 2)) switching) ''D'' = Some 2"
proof -
  have c: "cacheRef half_faded ''C'' = Some 1" by (rule example_caches)
  have f: "load_failed NotOk" by (simp add: load_failed_def)
  have n: "cacheRef (step default_config (Resolve 0 (Decoded 2)) switching) ''D'' \<noteq> cacheRef switching ''D''"
    by (simp add: resolve_cache switching_fields example_caches)
  from loadBuffer_cache[where s = half_faded and key = "''C''" and buf = 1 and cfg = default_config] c
  have 1: "loadBuffer_start default_config ''C'' half_faded = (Hit 1, half_faded)"
    "fetches (playKey default_config ''C'' half_faded) = fetches half_faded" by blast+
  from loadBuffer_cache[where s = switching and out = NotOk and cfg = default_config and i = 0] f
  have 2: "cacheRef (step default_config (Resolve 0 NotOk) switching) = cacheRef switching" by blast
  from loadBuffer_cache[where s = switching and e = "Resolve 0 (Decoded 2)" and k = "''D''" and cfg = default_config] n
  have 3: "cacheRef (step default_config (Resolve 0 (Decoded 2)) switching) ''D'' = Some 2"
    by simp
  show ?thesis using c f n 1 2 3 by (simp add: example_caches)
qed

theorem play_failure_witness:
  "0 < length (pending loading) \<and>
   fst (loadBuffer_finish (tkey (pending loading ! 0)) (turl (pending loading ! 0)) NotOk loading)
     = Inl (FailedToLoad ''/sounds/C.mp3'') \<and>
   wf loading \<and> ckey (currentRef loading) \<noteq> Some ''D'' \<and> cacheRef loading ''D'' = None \<and>
   console (resolve default_config 0 NotOk loading) = [FailedToLoad ''/sounds/C.mp3''] \<and>
   pending (resolve default_config 0 NotOk loading) = [] \<and>
   activeKey (resolve default_config 0 NotOk loading) = None \<and>
   sounding (resolve default_config 0 (Decoded 2)
      (playKey default_config ''D'' (resolve default_config 0 NotOk loading))) ''D'' \<and>
   0 < length (pending loading_simple) \<and>
   fst (loadBuffer_finish (tkey (pending loading_simple ! 0)) (turl (pending loading_simple ! 0)) NotOk loading_simple)
     = Inl (FailedToLoad ''/sounds/C.mp3'') \<and>
   ctxRef loading_simple \<noteq> None \<and> cacheRef loading_simple ''D'' = None \<and>
   console (resolve_simple default_config_simple 0 NotOk loading_simple) = [FailedToLoad ''/sounds/C.mp3''] \<and>
   activeKey (resolve_simple default_config_simple 0 NotOk loading_simple) = None \<and>
   sounding (resolve_simple default_config_simple 0 (Decoded 2)
      (playKey_simple default_config_simple ''D'' (resolve_simple default_config_simple 0 NotOk loading_simple))) ''D''"
proof -
  have v: "0 < length (pending loading) \<and>
     fst (loadBuffer_finish (tkey (pending loading ! 0)) (turl (pending loading ! 0)) NotOk loading)
       = Inl (FailedToLoad ''/sounds/C.mp3'')"
    by (simp add: loading_fields loadBuffer_finish_def)
  have v2: "wf loading \<and> ckey (currentRef loading) \<noteq> Some ''D'' \<and> cacheRef loading ''D'' = None"
    by (simp add: wf_def handle_ok_def no_pad_def loading_fields)
  have w: "0 < length (pending loading_simple) \<and>
     fst (loadBuffer_finish (tkey (pending loading_simple ! 0)) (turl (pending loading_simple ! 0)) NotOk loading_simple)
       = Inl (FailedToLoad ''/sounds/C.mp3'')"
    by (simp add: loading_simple_fields loadBuffer_finish_def)
  have w2: "ctxRef loading_simple \<noteq> None \<and> cacheRef loading_simple ''D'' = None"
    by (simp add: loading_simple_fields)
  from play_failure[where s = loading and i = 0 and out = NotOk and err = "FailedToLoad ''/sounds/C.mp3''"
      and cfg = default_config and k = "''D''" and b = 2] v v2
  have a: "console (resolve default_config 0 NotOk loading) = console loading @ [FailedToLoad ''/sounds/C.mp3'']"
    "pending (resolve default_config 0 NotOk loading) = take 0 (pending loading) @ drop (Suc 0) (pending loading)"
    "activeKey (resolve default_config 0 NotOk loading)
       = (if tid (pending loading ! 0) = actionIdRef loading then None else activeKey loading)"
    "sounding (resolve default_config (length (pending (resolve default_config 0 NotOk loading))) (Decoded 2)
      (playKey default_config ''D'' (resolve default_config 0 NotOk loading))) ''D''"
    unfolding Let_def by blast+
  from play_failure[where s = loading_simple and i = 0 and out = NotOk and err = "FailedToLoad ''/sounds/C.mp3''"
      and cfg = default_config_simple and k = "''D''" and b = 2] w w2
  have b: "console (resolve_simple default_config_simple 0 NotOk loading_simple)
       = console loading_simple @ [FailedToLoad ''/sounds/C.mp3'']"
    "pending (resolve_simple default_config_simple 0 NotOk loading_simple)
       = take 0 (pending loading_simple) @ drop (Suc 0) (pending loading_simple)"
    "activeKey (resolve_simple default_config_simple 0 NotOk loading_simple)
       = (if activeKey loading_simple = Some (tkey (pending loading_simple ! 0)) then None else activeKey loading_simple)"
    "sounding (resolve_simple default_config_simple (length (pending (resolve_simple default_config_simple 0 NotOk loading_simple))) (Decoded 2)
      (playKey_simple default_config_simple ''D'' (resolve_simple default_config_simple 0 NotOk loading_simple))) ''D''"
    unfolding Let_def by blast+
  have a': "console (resolve default_config 0 NotOk loading) = [FailedToLoad ''/sounds/C.mp3'']"
    "pending (resolve default_config 0 NotOk loading) = []"
    "activeKey (resolve default_config 0 NotOk loading) = None"
    unfolding a(1,2,3) by (simp_all add: loading_fields)
  have b': "console (resolve_simple default_config_simple 0 NotOk loading_simple) = [FailedToLoad ''/sounds/C.mp3'']"
    "pending (resolve_simple default_config_simple 0 NotOk loading_simple) = []"
    "activeKey (resolve_simple default_config_simple 0 NotOk loading_simple) = None"
    unfolding b(1,2,3) by (simp_all add: loading_simple_fields)
  have a4: "sounding (resolve default_config 0 (Decoded 2)
      (playKey default_config ''D'' (resolve default_config 0 NotOk loading))) ''D''"
    using a(4) unfolding a'(2) by simp
  have b4: "sounding (resolve_simple default_config_simple 0 (Decoded 2)
      (playKey_simple default_config_simple ''D'' (resolve_simple default_config_simple 0 NotOk loading_simple))) ''D''"
    using b(4) unfolding b'(2) by simp
  show ?thesis using v v2 w w2 a' b' a4 b4 by simp
qed

text \<open>
  C7 as stated fails in the simpler variant: C is selected twice, the first load fails
  while the second selection is waiting, and the display is cleared although a newer
  action has taken over; when that one's load arrives, C sounds with no active key shown.
\<close>

theorem reselect_simple_clears_display:
  "activeKey (run_simple default_config_simple (take 2 reselect_simple) (init default_config_simple)) = Some ''C'' \<and>
   pending (run_simple default_config_simple (take 3 reselect_simple) (init default_config_simple))
     = [\<lparr>tid = 0, tkey = ''C'', turl = ''/sounds/C.mp3''\<rparr>] \<and>
   console (run_simple default_config_simple (take 3 reselect_simple) (init default_config_simple))
     = [FailedToLoad ''/sounds/C.mp3''] \<and>
   activeKey (run_simple default_config_simple (take 3 reselect_simple) (init default_config_simple)) = None \<and>
   sounding (run_simple default_config_simple reselect_simple (init default_config_simple)) ''C'' \<and>
   activeKey (run_simple default_config_simple reselect_simple (init default_config_simple)) = None"
  by (simp add: reselect_simple_def sounding_def run_defs)

text \<open>
  C8 at the failing input. \<open>setVolume(0.5)\<close> on the freshly mounted engine finds no
  master gain and sets none. The first selection then creates the master gain, and
  \<open>ensureCtx\<close> gives it \<open>initialVolume\<close>, 0.8, not the volume state, with nothing
  scheduled. \<open>setVolume(0.5)\<close> once more changes no gain, as the volume state is 0.5
  already and the effect does not run; nor does the gain take the level later, when the
  audio has been rendered for a second. The volume state says 0.5 throughout, the master
  gain 0.8.
\<close>

theorem volume_before_play_is_lost:
  "masterGainRef (setVolume (1 / 2) (init default_config)) = None \<and>
   volume (run default_config volume_before_play (init default_config)) = 1 / 2 \<and>
   masterGainRef (run default_config volume_before_play (init default_config)) = Some 0 \<and>
   gvalue (gains (run default_config volume_before_play (init default_config)) 0) = 4 / 5 \<and>
   timeline (gains (run default_config volume_before_play (init default_config)) 0) = [] \<and>
   gains (setVolume (1 / 2) (run default_config volume_before_play (init default_config)))
     = gains (run default_config volume_before_play (init default_config)) \<and>
   volume (run default_config (volume_before_play @ [Slider 50, Resumed, Advance 1]) (init default_config)) = 1 / 2 \<and>
   gvalue (gains (run default_config (volume_before_play @ [Slider 50, Resumed, Advance 1]) (init default_config)) 0)
     = 4 / 5"
  by (simp add: volume_before_play_def run_defs)

theorem setVolume_immediate_witness:
  "masterGainRef half_faded = Some 0 \<and> ctxRef half_faded = Some \<lparr>suspended = False, resumes = 2\<rparr> \<and>
   1 / 2 \<noteq> volume half_faded \<and> clock half_faded \<le> 1 \<and>
   volume (setVolume (1 / 2) half_faded) = 1 / 2 \<and>
   timeline (gains (setVolume (1 / 2) half_faded) 0) = [SetValueAtTime (1 / 2) 1] \<and>
   automation_value (4 / 5) 0 (timeline (gains (setVolume (1 / 2) half_faded) 0)) 1 = 1 / 2 \<and>
   gvalue (gains (advance 0 (setVolume (1 / 2) half_faded)) 0) = 1 / 2 \<and>
   setVolume (volume half_faded) half_faded = half_faded \<and>
   masterGainRef (init default_config) = None \<and>
   setVolume (1 / 2) (init default_config) = (init default_config)\<lparr>volume := 1 / 2\<rparr>"
proof -
  have vol: "volume half_faded = 4 / 5" "timeline (gains half_faded 0) = []"
    by (simp_all add: half_faded_def run_defs)
  have h: "masterGainRef half_faded = Some 0 \<and> ctxRef half_faded = Some \<lparr>suspended = False, resumes = 2\<rparr> \<and>
     1 / 2 \<noteq> volume half_faded"
    by (simp add: half_faded_fields vol)
  have t: "clock half_faded \<le> 1" by (simp add: half_faded_fields)
  have d: "\<not> suspended \<lparr>suspended = False, resumes = 2\<rparr> \<and> (0::real) \<le> 0" by simp
  have n: "masterGainRef (init default_config) = None" by (simp add: init_sel)
  from setVolume_immediate[where s = half_faded and m = 0 and c = "\<lparr>suspended = False, resumes = 2\<rparr>"
      and level = "1 / 2" and t = 1 and v = "4 / 5" and T = 0 and dt = 0] h t d
  have a: "volume (setVolume (1 / 2) half_faded) = 1 / 2"
    "timeline (gains (setVolume (1 / 2) half_faded) 0)
        = filter (\<lambda>x. at_time x < clock half_faded) (timeline (gains half_faded 0)) @ [SetValueAtTime (1 / 2) (clock half_faded)]"
    "automation_value (4 / 5) 0 (timeline (gains (setVolume (1 / 2) half_faded) 0)) 1 = 1 / 2"
    "gvalue (gains (advance 0 (setVolume (1 / 2) half_faded)) 0) = 1 / 2"
    by blast+
  from setVolume_immediate[where s = half_faded and level = "volume half_faded"]
  have b: "setVolume (volume half_faded) half_faded = half_faded" by blast
  from setVolume_immediate[where s = "init default_config" and level = "1 / 2"] n
  have c: "setVolume (1 / 2) (init default_config) = (init default_config)\<lparr>volume := 1 / 2\<rparr>" by blast
  have a2: "timeline (gains (setVolume (1 / 2) half_faded) 0) = [SetValueAtTime (1 / 2) 1]"
    unfolding a(2) by (simp add: half_faded_fields vol)
  show ?thesis using h t n a(1,3,4) a2 b c by simp
qed

theorem volume_before_context_is_dropped_witness:
  "ctxRef (init default_config) = None \<and> masterGainRef (init default_config) = None \<and>
   audio_ctor (init default_config) \<and> ckey (currentRef (init default_config)) \<noteq> Some ''C'' \<and>
   cacheRef (init default_config) ''C'' = None \<and>
   setVolume (1 / 2) (init default_config) = (init default_config)\<lparr>volume := 1 / 2\<rparr> \<and>
   masterGainRef (playKey default_config ''C'' (setVolume (1 / 2) (init default_config))) = Some 0 \<and>
   gvalue (gains (playKey default_config ''C'' (setVolume (1 / 2) (init default_config))) 0) = 4 / 5 \<and>
   volume (playKey default_config ''C'' (setVolume (1 / 2) (init default_config))) = 1 / 2"
proof -
  have h: "ctxRef (init default_config) = None \<and> masterGainRef (init default_config) = None"
    "audio_ctor (init default_config) \<and> ckey (currentRef (init default_config)) \<noteq> Some ''C'' \<and>
     cacheRef (init default_config) ''C'' = None"
    by (simp_all add: init_sel no_pad_def)
  from volume_before_context_is_dropped[where s = "init default_config" and level = "1 / 2"
      and cfg = default_config and k = "''C''"] h
  have a: "setVolume (1 / 2) (init default_config) = (init default_config)\<lparr>volume := 1 / 2\<rparr>"
    "masterGainRef (playKey default_config ''C'' (setVolume (1 / 2) (init default_config)))
       = Some (next_node (init default_config))"
    "gains (playKey default_config ''C'' (setVolume (1 / 2) (init default_config))) (next_node (init default_config))
       = \<lparr>gvalue = initialVolume default_config, timeline = [], outputs = [Speakers]\<rparr>"
    "volume (playKey default_config ''C'' (setVolume (1 / 2) (init default_config))) = 1 / 2"
    by blast+
  have n: "next_node (init default_config) = 0" by (simp add: init_sel)
  have g: "gvalue (gains (playKey default_config ''C'' (setVolume (1 / 2) (init default_config))) 0) = 4 / 5"
    using a(3) unfolding n by (simp add: default_config_def)
  show ?thesis using h a(1,4) a(2)[unfolded n] g by simp
qed

section \<open>Asset URLs\<close>


lemma encodeURIComponent_append:
  "encodeURIComponent (a @ b) = encodeURIComponent a @ encodeURIComponent b"
  by (simp add: encodeURIComponent_def)

lemma encodeURIComponent_unreserved:
  "list_all unreserved str \<Longrightarrow> encodeURIComponent str = str"
  by (induction str) (simp_all add: encodeURIComponent_def encode_char_def)

lemma step_fetches:
  "set (fetches (step cfg e s)) \<subseteq> set (fetches s) \<union> asset_url cfg ` set KEYS"
proof (cases e)
  case (ClickKey i)
  then show ?thesis by (auto simp: playKey_fetches)
qed (simp_all add: stop_keeps platform_keeps resolve_keeps)

lemma step_simple_fetches:
  "set (fetches (step_simple cfg e s)) \<subseteq> set (fetches s) \<union> asset_url_simple cfg ` set KEYS"
proof (cases e)
  case (ClickKey i)
  then show ?thesis by (auto simp: playKey_simple_fetches)
qed (simp_all add: platform_keeps resolve_simple_keeps)

lemma run_fetches:
  "set (fetches (run cfg es s)) \<subseteq> set (fetches s) \<union> asset_url cfg ` set KEYS"
proof (induction es arbitrary: s)
  case Nil
  then show ?case by simp
next
  case (Cons e es)
  have "set (fetches (run cfg es (step cfg e s))) \<subseteq> set (fetches (step cfg e s)) \<union> asset_url cfg ` set KEYS"
    by (rule Cons.IH)
  also have "\<dots> \<subseteq> set (fetches s) \<union> asset_url cfg ` set KEYS"
    using step_fetches[of cfg e s] by blast
  finally show ?case by simp
qed

lemma run_simple_fetches:
  "set (fetches (run_simple cfg es s)) \<subseteq> set (fetches s) \<union> asset_url_simple cfg ` set KEYS"
proof (induction es arbitrary: s)
  case Nil
  then show ?case by simp
next
  case (Cons e es)
  have "set (fetches (run_simple cfg es (step_simple cfg e s)))
      \<subseteq> set (fetches (step_simple cfg e s)) \<union> asset_url_simple cfg ` set KEYS"
    by (rule Cons.IH)
  also have "\<dots> \<subseteq> set (fetches s) \<union> asset_url_simple cfg ` set KEYS"
    using step_simple_fetches[of cfg e s] by blast
  finally show ?case by simp
qed

lemma loadBuffer_start_fetches:
  assumes "cacheRef s k = None" "ctxRef s \<noteq> None"
  shows "fst (loadBuffer_start cfg k s) = Fetching (asset_url cfg k)"
    and "fetches (snd (loadBuffer_start cfg k s)) = fetches s @ [asset_url cfg k]"
    and "fst (loadBuffer_start_simple cfg k s) = Fetching (asset_url_simple cfg k)"
    and "fetches (snd (loadBuffer_start_simple cfg k s)) = fetches s @ [asset_url_simple cfg k]"
  using assms
  by (auto simp: loadBuffer_start_def loadBuffer_start_simple_def ensureCtx_def ensureCtx_simple_def
      resume_if_suspended_def Let_def split: option.splits)

lemma key_names:
  "map (replace_first (CHR ''#'') ''sharp'') KEYS
     = [''C'', ''Csharp'', ''D'', ''Dsharp'', ''E'', ''F'', ''Fsharp'', ''G'', ''Gsharp'', ''A'', ''Asharp'', ''B'']"
  "map encodeURIComponent KEYS
     = [''C'', ''C%23'', ''D'', ''D%23'', ''E'', ''F'', ''F%23'', ''G'', ''G%23'', ''A'', ''A%23'', ''B'']"
  by (simp_all add: KEYS_def encodeURIComponent_def encode_char_def unreserved_def percent_def hex_digit_def)

text \<open>
  C9. There are exactly 12 keys, all different. \<open>loadBuffer\<close> of an uncached key
  fetches \<open>basePath + filename + ext\<close>: in the volume variant the filename is the key
  with \<open>#\<close> replaced by \<open>sharp\<close>; in the simpler variant it is the percent-encoded
  key (the extension is encoded along with it, which leaves an extension of unreserved
  characters such as \<open>.mp3\<close> as it is). Whatever happens on the page, every URL
  either engine fetches is the URL of one of the 12 keys.
\<close>

theorem asset_urls:
  "length KEYS = 12 \<and> distinct KEYS \<and>
   map (replace_first (CHR ''#'') ''sharp'') KEYS
     = [''C'', ''Csharp'', ''D'', ''Dsharp'', ''E'', ''F'', ''Fsharp'', ''G'', ''Gsharp'', ''A'', ''Asharp'', ''B''] \<and>
   map encodeURIComponent KEYS
     = [''C'', ''C%23'', ''D'', ''D%23'', ''E'', ''F'', ''F%23'', ''G'', ''G%23'', ''A'', ''A%23'', ''B''] \<and>
   asset_url cfg k = basePath cfg @ replace_first (CHR ''#'') ''sharp'' k @ ext cfg \<and>
   (list_all unreserved (ext cfg) \<longrightarrow>
      asset_url_simple cfg k = basePath cfg @ encodeURIComponent k @ ext cfg) \<and>
   (cacheRef s k = None \<and> ctxRef s \<noteq> None \<longrightarrow>
      fst (loadBuffer_start cfg k s) = Fetching (asset_url cfg k) \<and>
      fetches (snd (loadBuffer_start cfg k s)) = fetches s @ [asset_url cfg k] \<and>
      fst (loadBuffer_start_simple cfg k s) = Fetching (asset_url_simple cfg k) \<and>
      fetches (snd (loadBuffer_start_simple cfg k s)) = fetches s @ [asset_url_simple cfg k]) \<and>
   set (fetches (run cfg es (init cfg))) \<subseteq> asset_url cfg ` set KEYS \<and>
   set (fetches (run_simple cfg es (init cfg))) \<subseteq> asset_url_simple cfg ` set KEYS"
proof (intro conjI impI)
  show "length KEYS = 12" "distinct KEYS" by (simp_all add: KEYS_def)
  show "map (replace_first (CHR ''#'') ''sharp'') KEYS
     = [''C'', ''Csharp'', ''D'', ''Dsharp'', ''E'', ''F'', ''Fsharp'', ''G'', ''Gsharp'', ''A'', ''Asharp'', ''B'']"
    by (rule key_names)
  show "map encodeURIComponent KEYS
     = [''C'', ''C%23'', ''D'', ''D%23'', ''E'', ''F'', ''F%23'', ''G'', ''G%23'', ''A'', ''A%23'', ''B'']"
    by (rule key_names)
  show "asset_url cfg k = basePath cfg @ replace_first (CHR ''#'') ''sharp'' k @ ext cfg"
    by (simp add: asset_url_def)
  show "asset_url_simple cfg k = basePath cfg @ encodeURIComponent k @ ext cfg"
    if "list_all unreserved (ext cfg)"
    using that by (simp add: asset_url_simple_def encodeURIComponent_append encodeURIComponent_unreserved)
  show "set (fetches (run cfg es (init cfg))) \<subseteq> asset_url cfg ` set KEYS"
    using run_fetches[of cfg es "init cfg"] by (simp add: init_sel)
  show "set (fetches (run_simple cfg es (init cfg))) \<subseteq> asset_url_simple cfg ` set KEYS"
    using run_simple_fetches[of cfg es "init cfg"] by (simp add: init_sel)
next
  assume "cacheRef s k = None \<and> ctxRef s \<noteq> None"
  then have a: "cacheRef s k = None" "ctxRef s \<noteq> None" by simp_all
  note f = loadBuffer_start_fetches[OF a, of cfg]
  show "fst (loadBuffer_start cfg k s) = Fetching (asset_url cfg k)" by (rule f(1))
  show "fetches (snd (loadBuffer_start cfg k s)) = fetches s @ [asset_url cfg k]" by (rule f(2))
  show "fst (loadBuffer_start_simple cfg k s) = Fetching (asset_url_simple cfg k)" by (rule f(3))
  show "fetches (snd (loadBuffer_start_simple cfg k s)) = fetches s @ [asset_url_simple cfg k]" by (rule f(4))
qed

theorem asset_urls_witness:
  "list_all unreserved (ext default_config_simple) \<and>
   asset_url default_config ''A#'' = ''/sounds/Asharp.mp3'' \<and>
   asset_url_simple default_config_simple ''C#'' = ''/sounds/C%23.mp3'' \<and>
   cacheRef loading ''C#'' = None \<and> ctxRef loading \<noteq> None \<and>
   fst (loadBuffer_start default_config ''C#'' loading) = Fetching ''/sounds/Csharp.mp3'' \<and>
   cacheRef loading_simple ''C#'' = None \<and> ctxRef loading_simple \<noteq> None \<and>
   fetches (snd (loadBuffer_start_simple default_config_simple ''C#'' loading_simple))
     = [''/sounds/C.mp3'', ''/sounds/C%23.mp3''] \<and>
   set (fetches (run default_config [ClickKey 1, ClickKey 12, ClickKey 10] (init default_config)))
     \<subseteq> asset_url default_config ` set KEYS \<and>
   fetches (run default_config [ClickKey 1, ClickKey 12, ClickKey 10] (init default_config))
     = [''/sounds/Csharp.mp3'', ''/sounds/Asharp.mp3'']"
proof -
  have u: "list_all unreserved (ext default_config_simple)"
    by (simp add: default_config_simple_def AUDIO_EXT_def unreserved_def)
  have l: "cacheRef loading ''C#'' = None \<and> ctxRef loading \<noteq> None"
    "cacheRef loading_simple ''C#'' = None \<and> ctxRef loading_simple \<noteq> None"
    "fetches loading_simple = [''/sounds/C.mp3'']"
    by (simp_all add: loading_def loading_simple_def run_defs)
  have e: "replace_first (CHR ''#'') ''sharp'' ''A#'' = ''Asharp''"
    "replace_first (CHR ''#'') ''sharp'' ''C#'' = ''Csharp''"
    "encodeURIComponent ''C#'' = ''C%23''"
    by (simp_all add: encodeURIComponent_def encode_char_def unreserved_def percent_def hex_digit_def)
  from asset_urls[where cfg = default_config and k = "''A#''"]
  have 1: "asset_url default_config ''A#''
      = basePath default_config @ replace_first (CHR ''#'') ''sharp'' ''A#'' @ ext default_config"
    by blast
  from asset_urls[where cfg = default_config_simple and k = "''C#''" and s = loading_simple] u l(2)
  have 2: "asset_url_simple default_config_simple ''C#''
      = basePath default_config_simple @ encodeURIComponent ''C#'' @ ext default_config_simple"
    "fetches (snd (loadBuffer_start_simple default_config_simple ''C#'' loading_simple))
      = fetches loading_simple @ [asset_url_simple default_config_simple ''C#'']"
    by blast+
  from asset_urls[where cfg = default_config and k = "''C#''" and s = loading
      and es = "[ClickKey 1, ClickKey 12, ClickKey 10]"] l(1)
  have 3: "fst (loadBuffer_start default_config ''C#'' loading) = Fetching (asset_url default_config ''C#'')"
    "asset_url default_config ''C#''
      = basePath default_config @ replace_first (CHR ''#'') ''sharp'' ''C#'' @ ext default_config"
    "set (fetches (run default_config [ClickKey 1, ClickKey 12, ClickKey 10] (init default_config)))
     \<subseteq> asset_url default_config ` set KEYS"
    by blast+
  have q1: "asset_url default_config ''A#'' = ''/sounds/Asharp.mp3''"
    unfolding 1 e by (simp add: default_config_def AUDIO_BASE_def AUDIO_EXT_def)
  have q2: "asset_url_simple default_config_simple ''C#'' = ''/sounds/C%23.mp3''"
    unfolding 2(1) e by (simp add: default_config_simple_def AUDIO_BASE_def AUDIO_EXT_def)
  have q2b: "fetches (snd (loadBuffer_start_simple default_config_simple ''C#'' loading_simple))
     = [''/sounds/C.mp3'', ''/sounds/C%23.mp3'']"
    unfolding 2(2) q2 l(3) by simp
  have q3: "fst (loadBuffer_start default_config ''C#'' loading) = Fetching ''/sounds/Csharp.mp3''"
    unfolding 3(1) 3(2) e by (simp add: default_config_def AUDIO_BASE_def AUDIO_EXT_def)
  have 4: "fetches (run default_config [ClickKey 1, ClickKey 12, ClickKey 10] (init default_config))
     = [''/sounds/Csharp.mp3'', ''/sounds/Asharp.mp3'']"
    by (simp add: run_defs)
  show ?thesis using u l(1,2) q1 q2 q2b q3 3(3) 4 by simp
qed

section \<open>Reachable states are well formed\<close>


lemma wf_stop: "wf s \<Longrightarrow> wf (stop cfg s)"
  by (auto simp: wf_def handle_ok_def stop_def Let_def node_sel no_pad_def split: option.splits)

lemma wf_setVolume: "wf s \<Longrightarrow> wf (setVolume level s)"
  by (auto simp: wf_def handle_ok_def setVolume_def volume_effect_def Let_def node_sel split: option.splits)

lemma wf_platform: "wf s \<Longrightarrow> wf (advance dt s)" "wf s \<Longrightarrow> wf (timeout i s)" "wf s \<Longrightarrow> wf (resumed s)"
  by (auto simp: wf_def handle_ok_def advance_def timeout_def resumed_def Let_def node_sel split: option.splits)

lemma wf_ensureCtx:
  assumes "wf s" "ensureCtx cfg s = Inr s'"
  shows "wf s'" "ctxRef s' \<noteq> None" "masterGainRef s' \<noteq> None" "actionIdRef s' = actionIdRef s"
    "pending s' = pending s" "cacheRef s' = cacheRef s"
  using assms
  by (auto simp: wf_def handle_ok_def ensureCtx_def resume_if_suspended_def Let_def case_prod_beta node_sel
      no_pad_def split: option.splits if_splits)

lemma wf_start_pad:
  assumes "wf s" "start_pad cfg k b s = Inr s'"
  shows "wf s'"
proof -
  from assms(2) start_pad_fails[of cfg k b s] obtain m where m: "masterGainRef s = Some m"
    by (cases "masterGainRef s") auto
  from start_pad_new[OF m, of cfg k b] assms(2)
  have n: "currentRef s' = \<lparr>ckey = Some k, csrc = Some (next_node s), cgain = Some (Suc (next_node s))\<rparr>"
    "next_node s' = Suc (Suc (next_node s))" by auto
  note f = start_pad_keeps[OF assms(2)]
  from assms(1) m have c: "ctxRef s \<noteq> None" by (auto simp: wf_def)
  show ?thesis
    using assms(1) m c by (auto simp: wf_def handle_ok_def n f(1,2,6,11) split: option.splits)
qed

lemma wf_play_failed: "wf s \<Longrightarrow> wf (play_failed i err s)"
  by (auto simp: wf_def handle_ok_def play_failed_def Let_def split: option.splits)

lemma wf_playKey_resume:
  assumes "wf s" "ctxRef s \<noteq> None"
  shows "wf (playKey_resume cfg i k b s)"
proof (cases "i = actionIdRef s")
  case False
  then show ?thesis using assms(1) by (simp add: playKey_resume_def)
next
  case True
  from assms obtain m where m: "masterGainRef s = Some m" by (auto simp: wf_def)
  from start_pad_new[OF m, of cfg k b] obtain s' where s': "start_pad cfg k b s = Inr s'" by blast
  then have "playKey_resume cfg i k b s = s'" using True by (simp add: playKey_resume_def)
  then show ?thesis using wf_start_pad[OF assms(1) s'] by simp
qed

lemma wf_select:
  assumes "wf s"
  shows "wf (s\<lparr>actionIdRef := Suc (actionIdRef s), activeKey := a\<rparr>)"
proof -
  from assms have "list_all (\<lambda>t. tid t \<le> actionIdRef s) (pending s)" by (simp add: wf_def)
  then have "list_all (\<lambda>t. tid t \<le> Suc (actionIdRef s)) (pending s)"
    by (auto simp: list_all_iff)
  then show ?thesis using assms by (auto simp: wf_def handle_ok_def split: option.splits)
qed

lemma wf_enqueue:
  assumes "wf s" "ctxRef s \<noteq> None" "i \<le> actionIdRef s"
  shows "wf (s\<lparr>fetches := F, pending := pending s @ [\<lparr>tid = i, tkey = k, turl = u\<rparr>]\<rparr>)"
  using assms by (auto simp: wf_def handle_ok_def split: option.splits)

lemma wf_playKey:
  assumes "wf s"
  shows "wf (playKey cfg k s)"
proof (cases "ckey (currentRef s) = Some k")
  case True
  then show ?thesis using assms by (simp add: playKey_def wf_stop)
next
  case False
  let ?s2 = "s\<lparr>actionIdRef := Suc (actionIdRef s), activeKey := Some k\<rparr>"
  have w2: "wf ?s2" using assms by (rule wf_select)
  show ?thesis
  proof (cases "ensureCtx cfg ?s2")
    case (Inl err)
    then show ?thesis using False w2 by (simp add: playKey_def Let_def wf_play_failed)
  next
    case (Inr s3)
    note f3 = wf_ensureCtx[OF w2 Inr]
    show ?thesis
    proof (cases "cacheRef s3 k")
      case (Some b)
      then have "playKey cfg k s = playKey_resume cfg (Suc (actionIdRef s)) k b s3"
        using False Inr by (simp add: playKey_def loadBuffer_start_def Let_def)
      then show ?thesis using wf_playKey_resume[OF f3(1,2)] by simp
    next
      case None
      from ensureCtx_again[OF Inr] obtain s4 where s4: "ensureCtx cfg s3 = Inr s4" by blast
      note f4 = wf_ensureCtx[OF f3(1) s4]
      have "playKey cfg k s = s4\<lparr>fetches := fetches s4 @ [asset_url cfg k],
              pending := pending s4 @ [\<lparr>tid = Suc (actionIdRef s), tkey = k, turl = asset_url cfg k\<rparr>]\<rparr>"
        using False Inr None s4 by (simp add: playKey_def loadBuffer_start_def Let_def)
      moreover have "Suc (actionIdRef s) \<le> actionIdRef s4" using f3(4) f4(4) by simp
      ultimately show ?thesis using wf_enqueue[OF f4(1,2)] by simp
    qed
  qed
qed

lemma wf_dequeue:
  assumes "wf s"
  shows "wf (s\<lparr>pending := take i (pending s) @ drop (Suc i) (pending s), cacheRef := C\<rparr>)"
proof -
  from assms have "list_all (\<lambda>t. tid t \<le> actionIdRef s) (take i (pending s) @ drop (Suc i) (pending s))"
    by (intro list_all_remove) (simp add: wf_def)
  moreover have "pending s = [] \<Longrightarrow> take i (pending s) @ drop (Suc i) (pending s) = []" by simp
  ultimately show ?thesis using assms by (auto simp: wf_def handle_ok_def split: option.splits)
qed

lemma wf_resolve:
  assumes "wf s"
  shows "wf (resolve cfg i out s)"
proof (cases "i < length (pending s)")
  case False
  then show ?thesis using assms by (simp add: resolve_def)
next
  case True
  with assms have c: "ctxRef s \<noteq> None" by (auto simp: wf_def)
  show ?thesis
  proof (cases out)
    case (Decoded b)
    let ?x = "s\<lparr>pending := take i (pending s) @ drop (Suc i) (pending s),
                 cacheRef := (cacheRef s)(tkey (pending s ! i) \<mapsto> b)\<rparr>"
    have "resolve cfg i out s = playKey_resume cfg (tid (pending s ! i)) (tkey (pending s ! i)) b ?x"
      using True Decoded by (simp add: resolve_def loadBuffer_finish_def Let_def)
    moreover have "wf ?x" using assms by (rule wf_dequeue)
    moreover have "ctxRef ?x \<noteq> None" using c by simp
    ultimately show ?thesis using wf_playKey_resume by simp
  qed (use True wf_dequeue[OF assms, where i = i and C = "cacheRef s"] in
        \<open>simp_all add: resolve_def loadBuffer_finish_def Let_def wf_play_failed\<close>)
qed

lemma wf_step: "wf s \<Longrightarrow> wf (step cfg e s)"
  by (cases e) (simp_all add: wf_playKey wf_stop wf_setVolume wf_resolve wf_platform)

lemma wf_run: "wf s \<Longrightarrow> wf (run cfg es s)"
  by (induction es arbitrary: s) (simp_all add: wf_step)

text \<open>Every state the volume variant reaches from a mounted engine is well formed.\<close>

lemma wf_reachable: "wf (run cfg es (init cfg))"
  by (rule wf_run) (rule wf_init)

lemma wf_simple_start_pad: "wf_simple s \<Longrightarrow> ctxRef s \<noteq> None \<Longrightarrow> wf_simple (start_pad_simple cfg k b s)"
  by (auto simp: wf_simple_def handle_ok_def start_pad_simple_fields)

lemma wf_simple_playKey:
  assumes "wf_simple s"
  shows "wf_simple (playKey_simple cfg k s)"
  using assms
  by (auto simp: wf_simple_def handle_ok_def play_simple_defs no_pad_def split: option.splits)

lemma wf_simple_resolve:
  assumes "wf_simple s"
  shows "wf_simple (resolve_simple cfg i out s)"
  using assms
  by (cases out)
    (auto simp: wf_simple_def handle_ok_def resolve_simple_def loadBuffer_finish_def play_failed_simple_def
       Let_def start_pad_simple_fields no_pad_def split: option.splits)

lemma wf_simple_platform:
  "wf_simple s \<Longrightarrow> wf_simple (advance dt s)" "wf_simple s \<Longrightarrow> wf_simple (timeout i s)"
  "wf_simple s \<Longrightarrow> wf_simple (resumed s)"
  by (auto simp: wf_simple_def handle_ok_def advance_def timeout_def resumed_def Let_def node_sel
      split: option.splits)

lemma wf_simple_step: "wf_simple s \<Longrightarrow> wf_simple (step_simple cfg e s)"
  by (cases e) (simp_all add: wf_simple_playKey wf_simple_resolve wf_simple_platform)

lemma wf_simple_run: "wf_simple s \<Longrightarrow> wf_simple (run_simple cfg es s)"
  by (induction es arbitrary: s) (simp_all add: wf_simple_step)

text \<open>And so is every state the simpler variant reaches.\<close>

lemma wf_simple_reachable: "wf_simple (run_simple cfg es (init cfg))"
  by (rule wf_simple_run) (simp add: wf_simple_def handle_ok_def init_sel no_pad_def)

end
